(* ===== verification/Prelude.thy ===== *)
theory Prelude
  imports Main "HOL-Library.Char_ord" "HOL-Library.List_Lexorder" "HOL-Library.Signed_Division"
begin

text \<open>
  Shared ground of the development: the named theorem collections, generic facts about lists and
  options, and the parts of the Rust standard library the gateway's sources call (string slicing,
  trimming, decimal parsing and printing, checked 64-bit arithmetic).

  A Rust \<open>str\<close> is modelled by its UTF-8 bytes, a list of 8-bit characters, because the sources
  measure strings with \<open>len()\<close>, which counts bytes. An \<open>i64\<close> is an \<open>int\<close> together with the range
  \<open>i64_min .. i64_max\<close>; every operation that may leave the range says what happens there.
\<close>

named_theorems rust_simps \<open>evaluation of the Rust standard library model\<close>
named_theorems proc_safe \<open>atomic-step rules for resumptions\<close>

section \<open>Options and lists\<close>

lemma find_eq_None: "find P xs = None \<longleftrightarrow> (\<forall>x\<in>set xs. \<not> P x)"
  by (auto simp: find_None_iff)

lemma find_eq_SomeD: "find P xs = Some x \<Longrightarrow> P x \<and> x \<in> set xs"
  by (induction xs) (auto split: if_splits)

lemma find_map_pointwise:
  assumes "\<And>x. P (f x) = P x"
  shows "find P (map f xs) = map_option f (find P xs)"
  using assms by (induction xs) auto

lemma find_append: "find P (xs @ ys) = (case find P xs of None \<Rightarrow> find P ys | Some x \<Rightarrow> Some x)"
  by (induction xs) auto

lemma map_filter_id: "(\<And>x. x \<in> set xs \<Longrightarrow> P x \<Longrightarrow> f x = x) \<Longrightarrow> map (\<lambda>x. if P x then f x else x) xs = xs"
  by (induction xs) auto

lemma distinct_map_key_find:
  assumes "distinct (map k xs)" "x \<in> set xs"
  shows "find (\<lambda>y. k y = k x) xs = Some x"
  using assms by (induction xs) auto

section \<open>Bytes and characters\<close>

definition byte :: "char \<Rightarrow> nat" where
  "byte c = of_char c"

lemma byte_lt: "byte c < 256"
  by (simp add: byte_def)

lemma char_eq_byte: "c = d \<longleftrightarrow> byte c = byte d"
  by (metis byte_def char_of_char)

definition is_ascii_digit :: "char \<Rightarrow> bool" where
  "is_ascii_digit c \<longleftrightarrow> 48 \<le> byte c \<and> byte c \<le> 57"

definition digit_val :: "char \<Rightarrow> nat" where
  "digit_val c = byte c - 48"

definition digit_char :: "nat \<Rightarrow> char" where
  "digit_char d = char_of (48 + d)"

lemma byte_digit_char: "d < 10 \<Longrightarrow> byte (digit_char d) = 48 + d"
  by (simp add: byte_def digit_char_def)

lemma digit_char_digit [simp]: "d < 10 \<Longrightarrow> is_ascii_digit (digit_char d)"
  by (simp add: is_ascii_digit_def byte_digit_char)

lemma digit_val_char [simp]: "d < 10 \<Longrightarrow> digit_val (digit_char d) = d"
  by (simp add: digit_val_def byte_digit_char)

lemma digit_char_val: "is_ascii_digit c \<Longrightarrow> digit_char (digit_val c) = c"
  by (auto simp: char_eq_byte [of _ c] is_ascii_digit_def digit_val_def byte_digit_char)

lemma digit_val_lt: "is_ascii_digit c \<Longrightarrow> digit_val c < 10"
  by (auto simp: is_ascii_digit_def digit_val_def)

lemma zero_char_digit: "CHR ''0'' = digit_char 0"
  by (simp add: digit_char_def char_eq_byte byte_def)

lemma digit_char_inj: "d < 10 \<Longrightarrow> e < 10 \<Longrightarrow> digit_char d = digit_char e \<longleftrightarrow> d = e"
  by (metis digit_val_char)

definition to_ascii_uppercase_char :: "char \<Rightarrow> char" where
  "to_ascii_uppercase_char c = (if 97 \<le> byte c \<and> byte c \<le> 122 then char_of (byte c - 32) else c)"

definition to_ascii_lowercase_char :: "char \<Rightarrow> char" where
  "to_ascii_lowercase_char c = (if 65 \<le> byte c \<and> byte c \<le> 90 then char_of (byte c + 32) else c)"

definition to_ascii_uppercase :: "string \<Rightarrow> string" where
  "to_ascii_uppercase s = map to_ascii_uppercase_char s"

definition to_ascii_lowercase :: "string \<Rightarrow> string" where
  "to_ascii_lowercase s = map to_ascii_lowercase_char s"

text \<open>\<open>str::eq_ignore_ascii_case\<close>: equal after mapping both sides to ASCII lower case.\<close>

definition eq_ignore_ascii_case :: "string \<Rightarrow> string \<Rightarrow> bool" where
  "eq_ignore_ascii_case s t \<longleftrightarrow> to_ascii_lowercase s = to_ascii_lowercase t"

lemma byte_char_of: "n < 256 \<Longrightarrow> byte (char_of n) = n"
  by (simp add: byte_def)

lemma upper_lower_char: "to_ascii_uppercase_char (to_ascii_lowercase_char c) = to_ascii_uppercase_char c"
  by (auto simp: to_ascii_uppercase_char_def to_ascii_lowercase_char_def byte_char_of byte_def)

lemma lower_upper_char: "to_ascii_lowercase_char (to_ascii_uppercase_char c) = to_ascii_lowercase_char c"
  by (auto simp: to_ascii_uppercase_char_def to_ascii_lowercase_char_def byte_char_of byte_def)

lemma eq_ignore_ascii_case_upper:
  "eq_ignore_ascii_case s t \<longleftrightarrow> to_ascii_uppercase s = to_ascii_uppercase t"
proof -
  have u: "to_ascii_uppercase (to_ascii_lowercase x) = to_ascii_uppercase x"
    and l: "to_ascii_lowercase (to_ascii_uppercase x) = to_ascii_lowercase x" for x
    by (simp_all add: to_ascii_uppercase_def to_ascii_lowercase_def upper_lower_char lower_upper_char)
  show ?thesis unfolding eq_ignore_ascii_case_def by (metis u l)
qed

lemma eq_ignore_ascii_case_refl [simp]: "eq_ignore_ascii_case s s"
  by (simp add: eq_ignore_ascii_case_def)

section \<open>Trimming and splitting\<close>

text \<open>
  \<open>str::trim\<close> removes code points with the Unicode property \<open>White_Space\<close>. Their UTF-8 encodings
  are listed here; UTF-8 is self-synchronising, so stripping byte sequences from either end of a
  valid string strips exactly the code points.
\<close>

definition ws_seqs :: "string list" where
  "ws_seqs =
     [[CHR 0x09], [CHR 0x0A], [CHR 0x0B], [CHR 0x0C], [CHR 0x0D], [CHR 0x20],
      [CHR 0xC2, CHR 0x85], [CHR 0xC2, CHR 0xA0], [CHR 0xE1, CHR 0x9A, CHR 0x80],
      [CHR 0xE2, CHR 0x80, CHR 0x80], [CHR 0xE2, CHR 0x80, CHR 0x81],
      [CHR 0xE2, CHR 0x80, CHR 0x82], [CHR 0xE2, CHR 0x80, CHR 0x83],
      [CHR 0xE2, CHR 0x80, CHR 0x84], [CHR 0xE2, CHR 0x80, CHR 0x85],
      [CHR 0xE2, CHR 0x80, CHR 0x86], [CHR 0xE2, CHR 0x80, CHR 0x87],
      [CHR 0xE2, CHR 0x80, CHR 0x88], [CHR 0xE2, CHR 0x80, CHR 0x89],
      [CHR 0xE2, CHR 0x80, CHR 0x8A], [CHR 0xE2, CHR 0x80, CHR 0xA8],
      [CHR 0xE2, CHR 0x80, CHR 0xA9], [CHR 0xE2, CHR 0x80, CHR 0xAF],
      [CHR 0xE2, CHR 0x81, CHR 0x9F], [CHR 0xE3, CHR 0x80, CHR 0x80]]"

definition seq_at :: "string list \<Rightarrow> string \<Rightarrow> string option" where
  "seq_at W s = find (\<lambda>w. w \<noteq> [] \<and> take (length w) s = w) W"

function strip_seqs :: "string list \<Rightarrow> string \<Rightarrow> string" where
  "strip_seqs W s = (case seq_at W s of None \<Rightarrow> s | Some w \<Rightarrow> strip_seqs W (drop (length w) s))"
  by pat_completeness auto
termination
proof (relation "measure (\<lambda>(W, s). length s)")
  show "wf (measure (\<lambda>(W :: string list, s :: string). length s))" by simp
next
  fix W s and w :: string
  assume "seq_at W s = Some w"
  then have w: "w \<noteq> []" "take (length w) s = w"
    by (auto simp: seq_at_def dest: find_eq_SomeD)
  then have "s \<noteq> []" by auto
  with w(1) show "((W, drop (length w) s), W, s) \<in> measure (\<lambda>(W, s). length s)"
    by (cases w; cases s) auto
qed

declare strip_seqs.simps [simp del]

definition trim_start :: "string \<Rightarrow> string" where
  "trim_start s = strip_seqs ws_seqs s"

definition trim_end :: "string \<Rightarrow> string" where
  "trim_end s = rev (strip_seqs (map rev ws_seqs) (rev s))"

definition trim :: "string \<Rightarrow> string" where
  "trim s = trim_end (trim_start s)"

lemma strip_seqs_id:
  assumes "\<And>w. w \<in> set W \<Longrightarrow> w \<noteq> [] \<Longrightarrow> hd w \<noteq> hd s" "s \<noteq> []"
  shows "strip_seqs W s = s"
proof -
  have "seq_at W s = None"
    using assms unfolding seq_at_def find_eq_None
    by (metis hd_take length_greater_0_conv)
  then show ?thesis by (simp add: strip_seqs.simps)
qed

lemma strip_seqs_Nil [simp]: "strip_seqs W [] = []"
proof -
  have "seq_at W [] = None" by (auto simp: seq_at_def find_eq_None)
  then show ?thesis by (simp add: strip_seqs.simps)
qed

text \<open>Visible ASCII text is left alone: no white-space sequence starts or ends with such a byte.\<close>

definition visible :: "char \<Rightarrow> bool" where
  "visible c \<longleftrightarrow> 33 \<le> byte c \<and> byte c \<le> 126"

lemma ws_seqs_hd: "w \<in> set ws_seqs \<Longrightarrow> w \<noteq> [] \<and> \<not> visible (hd w)"
  by (auto simp: ws_seqs_def visible_def byte_def)

lemma ws_seqs_last: "w \<in> set ws_seqs \<Longrightarrow> w \<noteq> [] \<and> \<not> visible (last w)"
  by (auto simp: ws_seqs_def visible_def byte_def)

lemma trim_visible:
  assumes "s \<noteq> [] \<Longrightarrow> visible (hd s) \<and> visible (last s)"
  shows "trim s = s"
proof (cases "s = []")
  case True
  then show ?thesis by (simp add: trim_def trim_start_def trim_end_def)
next
  case False
  with assms have v: "visible (hd s)" "visible (hd (rev s))" by (auto simp: hd_rev)
  have "strip_seqs ws_seqs s = s"
    using False v(1) by (intro strip_seqs_id) (metis ws_seqs_hd)+
  moreover have "strip_seqs (map rev ws_seqs) (rev s) = rev s"
  proof (intro strip_seqs_id)
    fix w assume "w \<in> set (map rev ws_seqs)"
    then obtain u where "u \<in> set ws_seqs" "w = rev u" by auto
    then show "hd w \<noteq> hd (rev s)" using v(2) ws_seqs_last by (metis hd_rev)
  qed (use False in simp)
  ultimately show ?thesis by (simp add: trim_def trim_start_def trim_end_def)
qed

lemma trim_Nil [simp]: "trim [] = []"
  by (rule trim_visible) simp

lemma digit_visible: "is_ascii_digit c \<Longrightarrow> visible c"
  by (simp add: is_ascii_digit_def visible_def)

text \<open>\<open>str::split_once\<close> at the first occurrence of a character.\<close>

fun split_once :: "char \<Rightarrow> string \<Rightarrow> (string \<times> string) option" where
  "split_once c [] = None"
| "split_once c (x # xs) =
     (if x = c then Some ([], xs)
      else map_option (\<lambda>(a, b). (x # a, b)) (split_once c xs))"

lemma split_once_None: "split_once c s = None \<longleftrightarrow> c \<notin> set s"
  by (induction s) auto

lemma split_once_Some: "split_once c s = Some (a, b) \<longleftrightarrow> s = a @ c # b \<and> c \<notin> set a"
proof (induction s arbitrary: a)
  case Nil
  then show ?case by simp
next
  case (Cons x xs)
  then show ?case by (cases a) auto
qed

text \<open>\<open>str::split\<close> on a character: there is always at least one piece.\<close>

fun split_on :: "char \<Rightarrow> string \<Rightarrow> string list" where
  "split_on c [] = [[]]"
| "split_on c (x # xs) =
     (if x = c then [] # split_on c xs
      else (case split_on c xs of [] \<Rightarrow> [[x]] | p # ps \<Rightarrow> (x # p) # ps))"

lemma split_on_nonempty: "split_on c s \<noteq> []"
  by (induction s) (auto split: list.splits)

lemma split_on_pieces: "p \<in> set (split_on c s) \<Longrightarrow> c \<notin> set p"
  by (induction s arbitrary: p) (auto split: if_splits list.splits)

fun join_with :: "char \<Rightarrow> string list \<Rightarrow> string" where
  "join_with c [] = []"
| "join_with c [p] = p"
| "join_with c (p # ps) = p @ c # join_with c ps"

lemma join_split: "join_with c (split_on c s) = s"
proof (induction s)
  case Nil
  then show ?case by simp
next
  case (Cons x xs)
  obtain p ps where ps: "split_on c xs = p # ps"
    using split_on_nonempty by (metis neq_Nil_conv)
  then show ?case using Cons by (cases ps) auto
qed

definition starts_with :: "string \<Rightarrow> string \<Rightarrow> bool" where
  "starts_with p s \<longleftrightarrow> take (length p) s = p"

definition ends_with :: "string \<Rightarrow> string \<Rightarrow> bool" where
  "ends_with p s \<longleftrightarrow> starts_with (rev p) (rev s)"

definition strip_prefix :: "string \<Rightarrow> string \<Rightarrow> string option" where
  "strip_prefix p s = (if starts_with p s then Some (drop (length p) s) else None)"

lemma strip_prefix_Some: "strip_prefix p s = Some r \<longleftrightarrow> s = p @ r"
  unfolding strip_prefix_def starts_with_def
  by (auto, metis append_take_drop_id)

fun contains_str :: "string \<Rightarrow> string \<Rightarrow> bool" where
  "contains_str p [] = (p = [])"
| "contains_str p (x # xs) = (starts_with p (x # xs) \<or> contains_str p xs)"

section \<open>Decimal numbers\<close>

definition nat_of_digits :: "string \<Rightarrow> nat" where
  "nat_of_digits s = foldl (\<lambda>n c. 10 * n + digit_val c) 0 s"

lemma nat_of_digits_Nil [simp]: "nat_of_digits [] = 0"
  by (simp add: nat_of_digits_def)

lemma nat_of_digits_snoc [simp]: "nat_of_digits (s @ [c]) = 10 * nat_of_digits s + digit_val c"
  by (simp add: nat_of_digits_def)

lemma nat_of_digits_append:
  "nat_of_digits (s @ t) = nat_of_digits s * 10 ^ length t + nat_of_digits t"
proof (induction t rule: rev_induct)
  case Nil
  then show ?case by simp
next
  case (snoc c t)
  have "nat_of_digits (s @ t @ [c]) = 10 * nat_of_digits (s @ t) + digit_val c"
    using nat_of_digits_snoc [of "s @ t" c] by simp
  with snoc show ?case by (simp add: algebra_simps)
qed

lemma nat_of_digits_lt:
  "(\<forall>c\<in>set s. is_ascii_digit c) \<Longrightarrow> nat_of_digits s < 10 ^ length s"
proof (induction s rule: rev_induct)
  case Nil
  then show ?case by simp
next
  case (snoc c s)
  then show ?case using digit_val_lt [of c] by auto
qed

lemma nat_of_digits_zeros: "nat_of_digits (replicate n (digit_char 0)) = 0"
  by (induction n) (simp_all add: nat_of_digits_append [of "[_]", simplified] nat_of_digits_def)

fun show_nat :: "nat \<Rightarrow> string" where
  "show_nat n = (if n < 10 then [digit_char n] else show_nat (n div 10) @ [digit_char (n mod 10)])"

declare show_nat.simps [simp del]

lemma show_nat_digits: "\<forall>c\<in>set (show_nat n). is_ascii_digit c"
proof (induction n rule: show_nat.induct)
  case (1 n)
  then show ?case by (subst show_nat.simps) auto
qed

lemma show_nat_nonempty [simp]: "show_nat n \<noteq> []"
  by (subst show_nat.simps) simp

lemma nat_of_show_nat [simp]: "nat_of_digits (show_nat n) = n"
proof (induction n rule: show_nat.induct)
  case (1 n)
  show ?case
  proof (cases "n < 10")
    case True
    then show ?thesis
      by (subst show_nat.simps) (simp add: nat_of_digits_def)
  next
    case False
    with "1" show ?thesis by (subst show_nat.simps) simp
  qed
qed

lemma length_show_nat_le:
  assumes "n < 10 ^ k" "0 < k"
  shows "length (show_nat n) \<le> k"
  using assms
proof (induction n arbitrary: k rule: show_nat.induct)
  case (1 n)
  show ?case
  proof (cases "n < 10")
    case True
    with "1.prems" show ?thesis by (subst show_nat.simps) simp
  next
    case False
    with "1.prems" obtain j where j: "k = Suc j" "0 < j"
      by (cases k; cases "k - 1") auto
    with "1.prems" False have "n div 10 < 10 ^ j" by (simp add: less_mult_imp_div_less mult.commute)
    with "1.IH" False j have "length (show_nat (n div 10)) \<le> j" by blast
    with False j show ?thesis by (subst show_nat.simps) simp
  qed
qed

text \<open>\<open>\<open>{:0w}\<close>\<close>-style padding with zeros on the left, and \<open>trim_end_matches('0')\<close>.\<close>

definition pad_zeros :: "nat \<Rightarrow> string \<Rightarrow> string" where
  "pad_zeros w s = replicate (w - length s) (CHR ''0'') @ s"

definition trim_end_zeros :: "string \<Rightarrow> string" where
  "trim_end_zeros s = rev (dropWhile (\<lambda>c. c = CHR ''0'') (rev s))"

lemma trim_end_zeros_split:
  "\<exists>k. s = trim_end_zeros s @ replicate k (CHR ''0'')"
proof -
  let ?P = "\<lambda>c. c = CHR ''0''"
  have "rev s = takeWhile ?P (rev s) @ dropWhile ?P (rev s)" by simp
  then have "rev (rev s) = rev (takeWhile ?P (rev s) @ dropWhile ?P (rev s))" by simp
  then have s: "s = trim_end_zeros s @ rev (takeWhile ?P (rev s))"
    unfolding trim_end_zeros_def rev_append rev_rev_ident .
  have "\<forall>c\<in>set (takeWhile ?P (rev s)). c = CHR ''0''"
    by (blast dest: set_takeWhileD)
  then have "takeWhile ?P (rev s) = replicate (length (takeWhile ?P (rev s))) (CHR ''0'')"
    by (metis replicate_length_same)
  then have "rev (takeWhile ?P (rev s)) = replicate (length (takeWhile ?P (rev s))) (CHR ''0'')"
    by (metis rev_replicate)
  with s show ?thesis by metis
qed

lemma nat_of_digits_pad: "nat_of_digits (pad_zeros w s) = nat_of_digits s"
  by (simp add: pad_zeros_def nat_of_digits_append zero_char_digit nat_of_digits_zeros)

lemma length_pad: "length s \<le> w \<Longrightarrow> length (pad_zeros w s) = w"
  by (simp add: pad_zeros_def)

section \<open>Machine integers\<close>

definition i64_min :: int where "i64_min = -9223372036854775808"
definition i64_max :: int where "i64_max = 9223372036854775807"
definition u64_max :: nat where "u64_max = 18446744073709551615"
definition u32_max :: nat where "u32_max = 4294967295"

definition in_i64 :: "int \<Rightarrow> bool" where
  "in_i64 x \<longleftrightarrow> i64_min \<le> x \<and> x \<le> i64_max"

lemmas int_bounds = i64_min_def i64_max_def u64_max_def u32_max_def in_i64_def

text \<open>Release builds wrap on overflow; \<open>wrap_i64\<close> is the two's complement reading modulo \<open>2 ^ 64\<close>.\<close>

definition wrap_i64 :: "int \<Rightarrow> int" where
  "wrap_i64 x = (x + 9223372036854775808) mod 18446744073709551616 - 9223372036854775808"

lemma wrap_i64_id: "in_i64 x \<Longrightarrow> wrap_i64 x = x"
  by (simp add: wrap_i64_def int_bounds)

lemma wrap_i64_range: "in_i64 (wrap_i64 x)"
  using pos_mod_bound [of 18446744073709551616 "x + 9223372036854775808"]
    pos_mod_sign [of 18446744073709551616 "x + 9223372036854775808"]
  by (simp add: wrap_i64_def int_bounds)

definition checked_i64 :: "int \<Rightarrow> int option" where
  "checked_i64 x = (if in_i64 x then Some x else None)"

lemma checked_i64_Some: "checked_i64 x = Some y \<longleftrightarrow> y = x \<and> in_i64 x"
  by (auto simp: checked_i64_def)

text \<open>Unsigned saturating arithmetic.\<close>

definition sat_u64 :: "nat \<Rightarrow> nat" where "sat_u64 n = min n u64_max"
definition sat_u32 :: "nat \<Rightarrow> nat" where "sat_u32 n = min n u32_max"

text \<open>\<open>str::parse\<close> for \<open>i64\<close> and \<open>u64\<close>: an optional sign, then digits, within range.\<close>

definition parse_digits :: "string \<Rightarrow> nat option" where
  "parse_digits s = (if s \<noteq> [] \<and> (\<forall>c\<in>set s. is_ascii_digit c) then Some (nat_of_digits s) else None)"

definition parse_i64 :: "string \<Rightarrow> int option" where
  "parse_i64 s =
     (case s of
        [] \<Rightarrow> None
      | c # cs \<Rightarrow>
          if c = CHR ''-'' then Option.bind (parse_digits cs) (\<lambda>n. checked_i64 (- int n))
          else Option.bind (parse_digits (if c = CHR ''+'' then cs else s)) (\<lambda>n. checked_i64 (int n)))"

definition parse_unsigned :: "nat \<Rightarrow> string \<Rightarrow> nat option" where
  "parse_unsigned m s =
     (case s of
        [] \<Rightarrow> None
      | c # cs \<Rightarrow>
          Option.bind (parse_digits (if c = CHR ''+'' then cs else s))
            (\<lambda>n. if n \<le> m then Some n else None))"

lemma digit_not_sign: "is_ascii_digit c \<Longrightarrow> c \<noteq> CHR ''-'' \<and> c \<noteq> CHR ''+'' \<and> c \<noteq> CHR ''.''"
  by (auto simp: is_ascii_digit_def byte_def)

lemma parse_i64_digits:
  assumes "s \<noteq> []" "\<forall>c\<in>set s. is_ascii_digit c"
  shows "parse_i64 s = checked_i64 (int (nat_of_digits s))"
  using assms digit_not_sign by (cases s) (auto simp: parse_i64_def parse_digits_def)

text \<open>Printing of signed integers.\<close>

definition show_int :: "int \<Rightarrow> string" where
  "show_int x = (if x < 0 then CHR ''-'' # show_nat (nat (- x)) else show_nat (nat x))"

end
