(* ===== verification/Proc.thy ===== *)
theory Proc
  imports Prelude
begin

text \<open>
  Asynchronous handlers as resumptions. A Rust \<open>async fn\<close> of the gateway is a sequence of atomic
  effects (one SQL statement, one outbound request, one counter update) between which any other
  task may run. \<open>proc\<close> is that sequence as data: \<open>Ret\<close> is the result, \<open>Atomic\<close> one effect on the
  shared world. \<open>run\<close> executes a handler alone; \<open>interleave\<close> executes several under an arbitrary
  schedule. Recursion over \<open>proc\<close> is structural, so every handler modelled this way terminates.

  The locale \<open>rely_guarantee\<close> is a small logic for what a handler may use of its earlier reads while
  other handlers run.

  The locale \<open>step_guarantee\<close> lifts a reflexive and transitive relation that every single effect
  obeys to complete runs and to all interleavings.
\<close>

section \<open>Resumptions\<close>

datatype (dead 'w, 'a) proc = Ret 'a | Atomic "'w \<Rightarrow> ('w, 'a) proc \<times> 'w"

lemma proc_induct [case_names Ret Atomic]:
  assumes "\<And>x. P (Ret x)"
    and "\<And>f. (\<And>w. P (fst (f w))) \<Longrightarrow> P (Atomic f)"
  shows "P p"
proof (induction p)
  case (Ret x)
  then show ?case by (rule assms(1))
next
  case (Atomic f)
  have "P (fst (f w))" for w by (rule Atomic [of "f w"]) (auto simp: prod_set_defs)
  then show ?case by (rule assms(2))
qed

primrec bindP :: "('w, 'a) proc \<Rightarrow> ('a \<Rightarrow> ('w, 'b) proc) \<Rightarrow> ('w, 'b) proc" where
  "bindP (Ret x) k = k x"
| "bindP (Atomic f) k = Atomic (\<lambda>w. map_prod (\<lambda>p. bindP p k) id (f w))"

primrec run :: "('w, 'a) proc \<Rightarrow> 'w \<Rightarrow> 'a \<times> 'w" where
  "run (Ret x) = (\<lambda>w. (x, w))"
| "run (Atomic f) = (\<lambda>w. case map_prod run id (f w) of (g, w') \<Rightarrow> g w')"

declare run.simps(2) [simp del]

lemma run_Atomic [simp]: "run (Atomic f) w = run (fst (f w)) (snd (f w))"
  by (simp add: run.simps(2) split_beta)

lemma run_bind [simp]: "run (bindP p k) w = (case run p w of (x, w') \<Rightarrow> run (k x) w')"
  by (induction p arbitrary: w rule: proc_induct) simp_all

lemma bindP_assoc: "bindP (bindP p k) h = bindP p (\<lambda>x. bindP (k x) h)"
  by (induction p rule: proc_induct) (simp_all add: map_prod_def split_beta)

lemma bindP_Ret: "bindP p Ret = p"
  by (induction p rule: proc_induct) (simp_all add: map_prod_def split_beta)

text \<open>One effect with a result, and \<open>?\<close>: an error ends the handler, a value is passed on.\<close>

definition effect :: "('w \<Rightarrow> 'a \<times> 'w) \<Rightarrow> ('w, 'a) proc" where
  "effect f = Atomic (\<lambda>w. map_prod Ret id (f w))"

definition and_then ::
  "('w, 'e + 'a) proc \<Rightarrow> ('a \<Rightarrow> ('w, 'e + 'b) proc) \<Rightarrow> ('w, 'e + 'b) proc" where
  "and_then p k = bindP p (\<lambda>r. case r of Inl e \<Rightarrow> Ret (Inl e) | Inr x \<Rightarrow> k x)"

abbreviation ok :: "'a \<Rightarrow> ('w, 'e + 'a) proc" where
  "ok x \<equiv> Ret (Inr x)"

abbreviation err :: "'e \<Rightarrow> ('w, 'e + 'a) proc" where
  "err e \<equiv> Ret (Inl e)"

lemma run_effect [simp]: "run (effect f) w = f w"
  by (simp add: effect_def)

lemma run_and_then [simp]:
  "run (and_then p k) w =
     (case run p w of (Inl e, w') \<Rightarrow> (Inl e, w') | (Inr x, w') \<Rightarrow> run (k x) w')"
  by (auto simp: and_then_def split: prod.splits sum.splits)

section \<open>Concurrent execution\<close>

primrec step_thread :: "('w, 'a) proc \<Rightarrow> 'w \<Rightarrow> ('w, 'a) proc \<times> 'w" where
  "step_thread (Ret x) = (\<lambda>w. (Ret x, w))"
| "step_thread (Atomic f) = f"

text \<open>A schedule names, step by step, the thread that performs its next effect.\<close>

fun interleave ::
  "nat list \<Rightarrow> ('w, 'a) proc list \<Rightarrow> 'w \<Rightarrow> ('w, 'a) proc list \<times> 'w" where
  "interleave [] ps w = (ps, w)"
| "interleave (i # is) ps w =
     (if i < length ps
      then (case step_thread (ps ! i) w of (p, w') \<Rightarrow> interleave is (ps[i := p]) w')
      else interleave is ps w)"

lemma interleave_append:
  "interleave (is @ js) ps w = (case interleave is ps w of (qs, w') \<Rightarrow> interleave js qs w')"
  by (induction "is" ps w rule: interleave.induct) (auto split: prod.splits)

section \<open>Relations respected by every effect\<close>

primrec obeys :: "('w \<Rightarrow> 'w \<Rightarrow> bool) \<Rightarrow> ('w, 'a) proc \<Rightarrow> bool" where
  "obeys R (Ret x) = True"
| "obeys R (Atomic f) = (\<forall>w. case map_prod (obeys R) id (f w) of (b, w') \<Rightarrow> b \<and> R w w')"

declare obeys.simps(2) [simp del]

lemma obeys_Atomic [simp]:
  "obeys R (Atomic f) \<longleftrightarrow> (\<forall>w. obeys R (fst (f w)) \<and> R w (snd (f w)))"
  by (simp add: obeys.simps(2) split_beta)

lemma obeys_Ret [proc_safe]: "obeys R (Ret x)"
  by simp

lemma obeys_bind [proc_safe]:
  "obeys R p \<Longrightarrow> (\<And>x. obeys R (k x)) \<Longrightarrow> obeys R (bindP p k)"
  by (induction p rule: proc_induct) auto

lemma obeys_effect [proc_safe]: "(\<And>w. R w (snd (f w))) \<Longrightarrow> obeys R (effect f)"
  by (simp add: effect_def)

lemma obeys_and_then [proc_safe]:
  "obeys R p \<Longrightarrow> (\<And>x. obeys R (k x)) \<Longrightarrow> obeys R (and_then p k)"
  unfolding and_then_def by (rule obeys_bind) (auto split: sum.split)

lemma obeys_if [proc_safe]:
  "(b \<Longrightarrow> obeys R p) \<Longrightarrow> (\<not> b \<Longrightarrow> obeys R q) \<Longrightarrow> obeys R (if b then p else q)"
  by simp

lemma obeys_case_option [proc_safe]:
  "obeys R p \<Longrightarrow> (\<And>x. obeys R (k x)) \<Longrightarrow> obeys R (case y of None \<Rightarrow> p | Some x \<Rightarrow> k x)"
  by (cases y) auto

lemma obeys_case_sum [proc_safe]:
  "(\<And>x. obeys R (k x)) \<Longrightarrow> (\<And>x. obeys R (h x)) \<Longrightarrow>
   obeys R (case y of Inl x \<Rightarrow> k x | Inr x \<Rightarrow> h x)"
  by (cases y) auto

lemma obeys_case_list [proc_safe]:
  "obeys R p \<Longrightarrow> (\<And>x xs. obeys R (k x xs)) \<Longrightarrow>
   obeys R (case y of [] \<Rightarrow> p | x # xs \<Rightarrow> k x xs)"
  by (cases y) auto

lemma obeys_case_prod [proc_safe]:
  "(\<And>x z. obeys R (k x z)) \<Longrightarrow> obeys R (case y of (x, z) \<Rightarrow> k x z)"
  by (cases y) auto

lemma obeys_Let [proc_safe]: "(\<And>x. obeys R (k x)) \<Longrightarrow> obeys R (Let v k)"
  by (simp add: Let_def)

text \<open>
  The values a handler can return. What a component promises of its results (a validated address, a
  bounded delay) is stated over \<open>results\<close> and used by its client's \<open>obeys\<close> proof.
\<close>

primrec results :: "('w, 'a) proc \<Rightarrow> 'a set" where
  "results (Ret x) = {x}"
| "results (Atomic f) = (\<Union>w. (case map_prod results id (f w) of (S, _) \<Rightarrow> S))"

declare results.simps(2) [simp del]

lemma results_Atomic [simp]: "results (Atomic f) = (\<Union>w. results (fst (f w)))"
  by (simp add: results.simps(2) split_beta)

lemma results_bind [simp]: "results (bindP p k) = (\<Union>x\<in>results p. results (k x))"
  by (induction p rule: proc_induct) simp_all

lemma results_effect: "results (effect f) = range (fst \<circ> f)"
  by (auto simp: effect_def)

lemma results_and_then:
  "results (and_then p k) =
     {Inl e |e. Inl e \<in> results p} \<union> (\<Union>x\<in>{x. Inr x \<in> results p}. results (k x))"
  unfolding and_then_def results_bind by (auto split: sum.splits; force)

lemma run_results: "fst (run p w) \<in> results p"
  by (induction p arbitrary: w rule: proc_induct) auto

lemma obeys_bind_results:
  "obeys R p \<Longrightarrow> (\<And>x. x \<in> results p \<Longrightarrow> obeys R (k x)) \<Longrightarrow> obeys R (bindP p k)"
  by (induction p rule: proc_induct) auto

lemma obeys_step: "obeys R p \<Longrightarrow> (\<And>w. R w w) \<Longrightarrow>
  obeys R (fst (step_thread p w)) \<and> R w (snd (step_thread p w))"
  by (cases p) auto

lemma obeys_mono: "obeys R p \<Longrightarrow> (\<And>w w'. R w w' \<Longrightarrow> S w w') \<Longrightarrow> obeys S p"
  by (induction p rule: proc_induct) auto

text \<open>Every effect of the run from \<open>w\<close> on, alone, is within \<open>R\<close>.\<close>

primrec solo :: "('w \<Rightarrow> 'w \<Rightarrow> bool) \<Rightarrow> ('w, 'a) proc \<Rightarrow> 'w \<Rightarrow> bool" where
  "solo R (Ret x) = (\<lambda>w. True)"
| "solo R (Atomic f) = (\<lambda>w. case map_prod (solo R) id (f w) of (b, w') \<Rightarrow> b w' \<and> R w w')"

declare solo.simps(2) [simp del]

lemma solo_Atomic [simp]: "solo R (Atomic f) w \<longleftrightarrow> solo R (fst (f w)) (snd (f w)) \<and> R w (snd (f w))"
  by (simp add: solo.simps(2) split_beta)

lemma solo_obeys: "obeys R p \<Longrightarrow> solo R p w"
  by (induction p arbitrary: w rule: proc_induct) simp_all

lemma solo_bind [simp]: "solo R (bindP p k) w \<longleftrightarrow> solo R p w \<and> solo R (k (fst (run p w))) (snd (run p w))"
  by (induction p arbitrary: w rule: proc_induct) auto

lemma solo_and_then:
  "solo R (and_then p k) w \<longleftrightarrow> solo R p w \<and>
     (\<forall>v w1. run p w = (Inr v, w1) \<longrightarrow> solo R (k v) w1)"
  by (cases "run p w") (auto simp: and_then_def split: sum.split)

locale step_guarantee =
  fixes R :: "'w \<Rightarrow> 'w \<Rightarrow> bool"
  assumes R_refl: "R w w"
    and R_trans: "R u v \<Longrightarrow> R v w \<Longrightarrow> R u w"
begin

lemma run_obeys: "obeys R p \<Longrightarrow> R w (snd (run p w))"
  by (induction p arbitrary: w rule: proc_induct) (auto intro: R_refl R_trans)

lemma run_solo: "solo R p w \<Longrightarrow> R w (snd (run p w))"
  by (induction p arbitrary: w rule: proc_induct) (auto intro: R_refl R_trans)

lemma interleave_obeys:
  assumes "\<And>p. p \<in> set ps \<Longrightarrow> obeys R p"
  shows "R w (snd (interleave is ps w)) \<and>
         (\<forall>p\<in>set (fst (interleave is ps w)). obeys R p)"
  using assms
proof (induction "is" ps w rule: interleave.induct)
  case (1 ps w)
  then show ?case by (simp add: R_refl)
next
  case (2 i "is" ps w)
  show ?case
  proof (cases "i < length ps")
    case False
    with "2" show ?thesis by simp
  next
    case True
    obtain q w' where s: "step_thread (ps ! i) w = (q, w')" by (cases "step_thread (ps ! i) w")
    have "obeys R (ps ! i)" using "2.prems" True by simp
    then have q: "obeys R q" "R w w'"
      using obeys_step [of R "ps ! i" w] R_refl s by auto
    have "R w' (snd (interleave is (ps[i := q]) w')) \<and>
          (\<forall>p\<in>set (fst (interleave is (ps[i := q]) w')). obeys R p)"
      using "2.IH"(1) [OF True s [symmetric]] "2.prems" q(1)
      by (metis insert_iff set_update_subset_insert subsetD)
    with True s q(2) show ?thesis by (auto intro: R_trans)
  qed
qed

end

text \<open>A step taken where the invariant holds is within \<open>R\<close> and keeps the invariant.\<close>

definition guarded :: "('w \<Rightarrow> 'w \<Rightarrow> bool) \<Rightarrow> ('w \<Rightarrow> bool) \<Rightarrow> 'w \<Rightarrow> 'w \<Rightarrow> bool" where
  "guarded R I u v \<longleftrightarrow> (I u \<longrightarrow> R u v \<and> I v)"

section \<open>Rely-guarantee\<close>

text \<open>
  \<open>rg R I p Q w\<close>: from world \<open>w\<close> on, whatever the other threads do within \<open>R\<close> while \<open>I\<close> holds, every
  effect of \<open>p\<close> is within \<open>R\<close> and keeps \<open>I\<close>, and a result satisfies \<open>Q\<close> from then on. What a thread has
  read may be used in its later steps exactly when it is stable under \<open>R\<close>.
\<close>

primrec rg ::
  "('w \<Rightarrow> 'w \<Rightarrow> bool) \<Rightarrow> ('w \<Rightarrow> bool) \<Rightarrow> ('w, 'a) proc \<Rightarrow> ('a \<Rightarrow> 'w \<Rightarrow> bool) \<Rightarrow> 'w \<Rightarrow> bool" where
  "rg R I (Ret x) = (\<lambda>Q w. \<forall>w'. R w w' \<and> I w' \<longrightarrow> Q x w')"
| "rg R I (Atomic f) = (\<lambda>Q w. \<forall>w'. R w w' \<and> I w' \<longrightarrow>
     (case map_prod (rg R I) id (f w') of (g, w'') \<Rightarrow> g Q w'' \<and> R w' w'' \<and> I w''))"

declare rg.simps(2) [simp del]

lemma rg_Atomic [simp]:
  "rg R I (Atomic f) Q w \<longleftrightarrow>
     (\<forall>w'. R w w' \<and> I w' \<longrightarrow>
        rg R I (fst (f w')) Q (snd (f w')) \<and> R w' (snd (f w')) \<and> I (snd (f w')))"
  by (simp add: rg.simps(2) split_beta)

locale rely_guarantee = step_guarantee R
  for R :: "'w \<Rightarrow> 'w \<Rightarrow> bool" +
  fixes I :: "'w \<Rightarrow> bool"

sublocale rely_guarantee \<subseteq> guarded: step_guarantee "guarded R I"
  by unfold_locales (auto simp: guarded_def intro: R_refl R_trans)

context rely_guarantee
begin

lemma rg_later: "rg R I p Q w \<Longrightarrow> R w w' \<Longrightarrow> rg R I p Q w'"
  by (cases p) (auto intro: R_trans)

lemma rg_now: "(\<And>w'. R w w' \<Longrightarrow> I w' \<Longrightarrow> rg R I p Q w') \<Longrightarrow> rg R I p Q w"
  by (cases p) (auto intro: R_refl)

lemma rg_bind:
  assumes "rg R I p Q w"
    and "\<And>x w'. R w w' \<Longrightarrow> I w' \<Longrightarrow> Q x w' \<Longrightarrow> rg R I (k x) Q' w'"
  shows "rg R I (bindP p k) Q' w"
  using assms
proof (induction p arbitrary: w rule: proc_induct)
  case (Ret x)
  then show ?case by (auto intro: rg_now)
next
  case (Atomic f)
  show ?case
  proof (simp, intro allI impI, elim conjE)
    fix w' assume w': "R w w'" "I w'"
    then have s: "rg R I (fst (f w')) Q (snd (f w'))" "R w' (snd (f w'))" "I (snd (f w'))"
      using Atomic.prems(1) by auto
    have "R w (snd (f w'))" using w'(1) s(2) by (rule R_trans)
    then have "rg R I (bindP (fst (f w')) k) Q' (snd (f w'))"
      using Atomic.IH [OF s(1)] Atomic.prems(2) by (meson R_trans)
    with s show "rg R I (bindP (fst (f w')) k) Q' (snd (f w')) \<and> R w' (snd (f w')) \<and> I (snd (f w'))"
      by simp
  qed
qed

lemma rg_weaken:
  assumes "rg R I p Q w" "\<And>x w'. R w w' \<Longrightarrow> I w' \<Longrightarrow> Q x w' \<Longrightarrow> Q' x w'"
  shows "rg R I p Q' w"
  using assms
proof (induction p arbitrary: w rule: proc_induct)
  case (Ret x)
  then show ?case by auto
next
  case (Atomic f)
  show ?case
  proof (simp, intro allI impI, elim conjE)
    fix w' assume w': "R w w'" "I w'"
    then have s: "rg R I (fst (f w')) Q (snd (f w'))" "R w' (snd (f w'))" "I (snd (f w'))"
      using Atomic.prems(1) by auto
    have "rg R I (fst (f w')) Q' (snd (f w'))"
      using Atomic.IH [OF s(1)] Atomic.prems(2) w'(1) s(2) by (meson R_trans)
    with s show "rg R I (fst (f w')) Q' (snd (f w')) \<and> R w' (snd (f w')) \<and> I (snd (f w'))"
      by simp
  qed
qed

lemma rg_effect:
  assumes "\<And>w'. R w w' \<Longrightarrow> I w' \<Longrightarrow>
      R w' (snd (f w')) \<and> I (snd (f w')) \<and>
      (\<forall>w''. R (snd (f w')) w'' \<and> I w'' \<longrightarrow> Q (fst (f w')) w'')"
  shows "rg R I (effect f) Q w"
  using assms by (auto simp: effect_def)

lemma rg_and_then:
  assumes "rg R I p (\<lambda>r w'. case r of Inl e \<Rightarrow> \<forall>w''. R w' w'' \<and> I w'' \<longrightarrow> Q' (Inl e) w''
                                | Inr x \<Rightarrow> rg R I (k x) Q' w') w"
  shows "rg R I (and_then p k) Q' w"
  unfolding and_then_def by (rule rg_bind [OF assms]) (auto split: sum.splits)

lemma rg_obeys:
  assumes "obeys (guarded R I) p"
  shows "rg R I p (\<lambda>_ _. True) w"
  using assms by (induction p arbitrary: w rule: proc_induct) (auto simp: guarded_def)

lemma rg_run:
  assumes "rg R I p Q w" "I w"
  shows "R w (snd (run p w)) \<and> I (snd (run p w)) \<and> Q (fst (run p w)) (snd (run p w))"
  using assms
proof (induction p arbitrary: w rule: proc_induct)
  case (Ret x)
  then show ?case by (auto intro: R_refl)
next
  case (Atomic f)
  then have s: "rg R I (fst (f w)) Q (snd (f w))" "R w (snd (f w))" "I (snd (f w))"
    by (auto intro: R_refl)
  from Atomic.IH [OF s(1,3)] s(2) show ?case by (auto intro: R_trans)
qed

lemma rg_step:
  assumes "rg R I p Q w" "I w"
  shows "rg R I (fst (step_thread p w)) Q (snd (step_thread p w)) \<and>
         R w (snd (step_thread p w)) \<and> I (snd (step_thread p w))"
  using assms R_refl [of w] by (cases p) auto

text \<open>Threads that are each safe against \<open>R\<close> are safe together, under every schedule.\<close>

lemma interleave_rg:
  assumes "\<And>p. p \<in> set ps \<Longrightarrow> \<exists>Q. rg R I p Q w" "I w"
  shows "R w (snd (interleave is ps w)) \<and> I (snd (interleave is ps w))"
  using assms
proof (induction "is" ps w rule: interleave.induct)
  case (1 ps w)
  then show ?case by (simp add: R_refl)
next
  case (2 i "is" ps w)
  show ?case
  proof (cases "i < length ps")
    case False
    with "2" show ?thesis by simp
  next
    case True
    obtain q w' where s: "step_thread (ps ! i) w = (q, w')" by (cases "step_thread (ps ! i) w")
    obtain Q where Q: "rg R I (ps ! i) Q w" using "2.prems"(1) True by (meson nth_mem)
    have q: "rg R I q Q w'" "R w w'" "I w'"
      using rg_step [OF Q "2.prems"(2)] s by simp_all
    have "\<exists>Q. rg R I p Q w'" if "p \<in> set (ps[i := q])" for p
      using that set_update_subset_insert [of ps i q] "2.prems"(1) q(1,2) rg_later by blast
    then have "R w' (snd (interleave is (ps[i := q]) w')) \<and> I (snd (interleave is (ps[i := q]) w'))"
      using "2.IH"(1) [OF True s [symmetric]] q(3) by blast
    with True s q(2) show ?thesis by (auto intro: R_trans)
  qed
qed

end

end
