(* ===== verification/Timestamps.thy ===== *)
theory Timestamps
  imports Prelude
begin

text \<open>
  Timestamps. Every stored time is text written by \<open>strftime('%Y-%m-%dT%H:%M:%SZ', ..)\<close> and
  compared as text (\<open>src/db.rs\<close>). This theory models the SQL date functions the statements use on
  the calendar range SQLite supports (years 0000 to 9999, \<open>NULL\<close> outside), the \<open>LIKE\<close> pattern of the
  \<open>CHECK\<close> constraints, and \<open>normalize_ts\<close>, and shows that comparing the text compares the times.
\<close>

section \<open>The calendar\<close>

definition is_leap :: "nat \<Rightarrow> bool" where
  "is_leap y \<longleftrightarrow> y mod 4 = 0 \<and> (y mod 100 \<noteq> 0 \<or> y mod 400 = 0)"

definition year_len :: "nat \<Rightarrow> nat" where
  "year_len y = (if is_leap y then 366 else 365)"

definition month_lens :: "nat \<Rightarrow> nat list" where
  "month_lens y = [31, if is_leap y then 29 else 28, 31, 30, 31, 30, 31, 31, 30, 31, 30, 31]"

definition days_before :: "nat \<Rightarrow> nat" where
  "days_before y = 365 * y + (y + 3) div 4 - (y + 99) div 100 + (y + 399) div 400"

function civil_year :: "nat \<Rightarrow> nat \<Rightarrow> nat \<times> nat" where
  "civil_year y n = (if n < year_len y then (y, n) else civil_year (Suc y) (n - year_len y))"
  by pat_completeness auto
termination
  by (relation "measure snd") (auto simp: year_len_def)

declare civil_year.simps [simp del]

fun civil_month :: "nat list \<Rightarrow> nat \<Rightarrow> nat \<Rightarrow> nat \<times> nat" where
  "civil_month [] m n = (m, n)"
| "civil_month (l # ls) m n = (if n < l then (m, n) else civil_month ls (Suc m) (n - l))"

text \<open>Year, zero-based day of the year, from the number of days since 0000-01-01.\<close>

definition year_day :: "nat \<Rightarrow> nat \<times> nat" where
  "year_day n = civil_year (400 * (n div 146097)) (n mod 146097)"

lemma ceil_div_Suc: "0 < k \<Longrightarrow> (Suc y + (k - 1)) div k = (y + (k - 1)) div k + of_bool (y mod k = 0)"
  using div_Suc [of "y + (k - 1)" k] by (simp add: mod_simps)

lemma leap_count_step:
  fixes y a b c :: nat
  assumes "C \<Longrightarrow> B" "B \<Longrightarrow> A" "b \<le> 365 * y + a"
  shows "365 * Suc y + (a + of_bool A) - (b + of_bool B) + (c + of_bool C) =
         365 * y + a - b + c + (if A \<and> (\<not> B \<or> C) then 366 else 365)"
proof -
  obtain d where d: "365 * y + a = b + d" using assms(3) le_Suc_ex by blast
  have "365 * Suc y + (a + of_bool A) = b + d + 365 + of_bool A" using d by simp
  then show ?thesis unfolding d using assms(1,2) by (cases A; cases B; cases C) simp_all
qed

lemma days_before_Suc: "days_before (Suc y) = days_before y + year_len y"
proof -
  have e: "(Suc y + 3) div 4 = (y + 3) div 4 + of_bool (y mod 4 = 0)"
    "(Suc y + 99) div 100 = (y + 99) div 100 + of_bool (y mod 100 = 0)"
    "(Suc y + 399) div 400 = (y + 399) div 400 + of_bool (y mod 400 = 0)"
    using ceil_div_Suc [of 4 y] ceil_div_Suc [of 100 y] ceil_div_Suc [of 400 y] by simp_all
  have m: "y mod 400 = 0 \<Longrightarrow> y mod 100 = 0" "y mod 100 = 0 \<Longrightarrow> y mod 4 = 0"
    using dvd_trans [of 100 400 y] dvd_trans [of 4 100 y] by (simp_all add: mod_eq_0_iff_dvd)
  have le: "(y + 99) div 100 \<le> 365 * y + (y + 3) div 4"
    using div_le_mono [of "y + 99" "100 * y" 100] by (cases "y = 0") auto
  show ?thesis
    unfolding days_before_def year_len_def is_leap_def e by (rule leap_count_step) (fact m le)+
qed

lemma days_before_era: "days_before (400 * e) = 146097 * e"
proof -
  have "(400 * e + 3) div 4 = 100 * e" "(400 * e + 99) div 100 = 4 * e" "(400 * e + 399) div 400 = e"
    by presburger+
  then show ?thesis unfolding days_before_def by simp
qed

lemma days_before_mono: "y \<le> z \<Longrightarrow> days_before y \<le> days_before z"
  by (induction z) (auto simp: days_before_Suc le_Suc_eq)

lemma civil_year_spec:
  "civil_year y n = (y', r) \<Longrightarrow> days_before y' + r = days_before y + n \<and> r < year_len y'"
proof (induction y n rule: civil_year.induct)
  case (1 y n)
  then show ?case
    by (subst (asm) (2) civil_year.simps) (auto simp: days_before_Suc split: if_splits)
qed

lemma year_day_spec:
  assumes "year_day n = (y, r)"
  shows "days_before y + r = n" "r < year_len y"
  using civil_year_spec [OF assms [unfolded year_day_def]] by (simp_all add: days_before_era)

lemma year_day_unique:
  assumes "days_before y + r < days_before y' + r'" "r < year_len y" "r' < year_len y'"
  shows "y < y' \<or> y = y' \<and> r < r'"
proof (cases "y \<le> y'")
  case True
  with assms(1) show ?thesis by auto
next
  case False
  then have "days_before (Suc y') \<le> days_before y" by (intro days_before_mono) simp
  with assms show ?thesis by (simp add: days_before_Suc)
qed

lemma year_day_mono:
  assumes "m < n" "year_day m = (y, r)" "year_day n = (y', r')"
  shows "y < y' \<or> y = y' \<and> r < r'"
  using assms year_day_spec by (intro year_day_unique) metis+

fun months_before :: "nat list \<Rightarrow> nat \<Rightarrow> nat" where
  "months_before ls 0 = 0"
| "months_before [] (Suc k) = 0"
| "months_before (l # ls) (Suc k) = l + months_before ls k"

lemma civil_month_spec:
  "civil_month ls m n = (k, d) \<Longrightarrow> n < sum_list ls \<Longrightarrow>
     m \<le> k \<and> k < m + length ls \<and> d < ls ! (k - m) \<and> n = months_before ls (k - m) + d"
proof (induction ls m n rule: civil_month.induct)
  case (1 m n)
  then show ?case by simp
next
  case (2 l ls m n)
  show ?case
  proof (cases "n < l")
    case True
    with "2.prems" show ?thesis by auto
  next
    case False
    with "2.prems" have "civil_month ls (Suc m) (n - l) = (k, d)" "n - l < sum_list ls" by auto
    with "2.IH" False have ih: "Suc m \<le> k" "k < Suc m + length ls" "d < ls ! (k - Suc m)"
      "n - l = months_before ls (k - Suc m) + d" by blast+
    then obtain j where "k - m = Suc j" "k - Suc m = j" by (cases "k - m") auto
    with ih False show ?thesis by auto
  qed
qed

lemma civil_month_ge: "civil_month ls m n = (k, d) \<Longrightarrow> m \<le> k"
  by (induction ls m n rule: civil_month.induct) (auto split: if_splits)

lemma civil_month_mono:
  "n < n' \<Longrightarrow> civil_month ls m n = (k, d) \<Longrightarrow> civil_month ls m n' = (k', d') \<Longrightarrow>
     k < k' \<or> k = k' \<and> d < d'"
proof (induction ls m n arbitrary: n' rule: civil_month.induct)
  case (1 m n)
  then show ?case by simp
next
  case (2 l ls m n)
  show ?case
  proof (cases "n < l")
    case nl: True
    show ?thesis
    proof (cases "n' < l")
      case True
      with nl "2.prems" show ?thesis by auto
    next
      case False
      with "2.prems" have "Suc m \<le> k'" using civil_month_ge by auto
      with False nl "2.prems" show ?thesis by auto
    qed
  next
    case False
    with "2.prems" "2.IH" [OF False, of "n' - l"] show ?thesis by auto
  qed
qed

lemma sum_month_lens: "sum_list (month_lens y) = year_len y"
  by (simp add: month_lens_def year_len_def)

lemma month_lens_le: "i < 12 \<Longrightarrow> month_lens y ! i \<le> 31"
  by (auto simp: month_lens_def less_Suc_eq numeral_eq_Suc)

section \<open>Formatting\<close>

definition two :: "nat \<Rightarrow> string" where
  "two n = pad_zeros 2 (show_nat n)"

definition four :: "nat \<Rightarrow> string" where
  "four n = pad_zeros 4 (show_nat n)"

definition ts_min :: int where "ts_min = -62167219200"
definition ts_max :: int where "ts_max = 253402300799"

definition ts_fields :: "int \<Rightarrow> nat list" where
  "ts_fields t =
     (let n = nat (t - ts_min); day = n div 86400; sod = n mod 86400;
          (y, r) = year_day day; (m, d) = civil_month (month_lens y) 1 r
      in [y, m, Suc d, sod div 3600, sod div 60 mod 60, sod mod 60])"

fun render_ts :: "string \<Rightarrow> string \<Rightarrow> nat list \<Rightarrow> string" where
  "render_ts sep suffix [y, m, d, h, mi, s] =
     four y @ ''-'' @ two m @ ''-'' @ two d @ sep @ two h @ '':'' @ two mi @ '':'' @ two s @ suffix"
| "render_ts sep suffix _ = []"

text \<open>\<open>strftime('%Y-%m-%dT%H:%M:%SZ', t)\<close>; \<open>NULL\<close> outside the supported years.\<close>

definition strftime_z :: "int \<Rightarrow> string option" where
  "strftime_z t =
     (if ts_min \<le> t \<and> t \<le> ts_max then Some (render_ts ''T'' ''Z'' (ts_fields t)) else None)"

lemma ts_fields_shape:
  assumes "ts_min \<le> t" "t \<le> ts_max"
  obtains y m d h mi s where "ts_fields t = [y, m, d, h, mi, s]"
    "y < 10000" "1 \<le> m" "m \<le> 12" "1 \<le> d" "d \<le> 31" "h < 24" "mi < 60" "s < 60"
    "nat (t - ts_min) =
       (days_before y + months_before (month_lens y) (m - 1) + (d - 1)) * 86400 + h * 3600 + mi * 60 + s"
proof -
  define n where "n = nat (t - ts_min)"
  have n: "n < 3652425 * 86400" using assms by (simp add: n_def ts_min_def ts_max_def)
  obtain y r where yr: "year_day (n div 86400) = (y, r)" by (cases "year_day (n div 86400)")
  obtain m d where md: "civil_month (month_lens y) 1 r = (m, d)"
    by (cases "civil_month (month_lens y) 1 r")
  note yd = year_day_spec [OF yr]
  have "r < sum_list (month_lens y)" using yd by (simp add: sum_month_lens)
  from civil_month_spec [OF md this] have ms: "1 \<le> m" "m < 13" "d < month_lens y ! (m - 1)"
    "r = months_before (month_lens y) (m - 1) + d" by (auto simp: month_lens_def)
  have y: "y < 10000"
  proof (rule ccontr)
    assume "\<not> y < 10000"
    then have "days_before 10000 \<le> days_before y" by (intro days_before_mono) simp
    moreover have "days_before 10000 = 3652425" by (simp add: days_before_def)
    moreover have "n div 86400 < 3652425" using n by (simp add: less_mult_imp_div_less)
    ultimately show False using yd by simp
  qed
  define sod where "sod = n mod 86400"
  have sod: "sod < 86400" by (simp add: sod_def)
  have split: "sod = sod div 3600 * 3600 + sod div 60 mod 60 * 60 + sod mod 60"
  proof -
    have "sod = sod div 60 * 60 + sod mod 60" "sod div 3600 = sod div 60 div 60"
      using div_mult2_eq [of sod 60 60] by simp_all
    moreover have "sod div 60 = sod div 60 div 60 * 60 + sod div 60 mod 60" by simp
    ultimately show ?thesis by linarith
  qed
  have "n = (days_before y + r) * 86400 + sod" using yd by (simp add: sod_def)
  then have val: "n = (days_before y + months_before (month_lens y) (m - 1) + (Suc d - 1)) * 86400
      + sod div 3600 * 3600 + sod div 60 mod 60 * 60 + sod mod 60"
    using ms(4) split by simp
  have "d < 31" using ms(3) month_lens_le [of "m - 1" y] ms(1,2) by linarith
  have fields: "ts_fields t = [y, m, Suc d, sod div 3600, sod div 60 mod 60, sod mod 60]"
    by (simp only: ts_fields_def Let_def n_def [symmetric] sod_def [symmetric] yr md prod.case)
  have hms: "sod div 3600 < 24" "sod div 60 mod 60 < 60" "sod mod 60 < 60"
    using sod by (simp_all add: less_mult_imp_div_less)
  show ?thesis
    by (rule that [OF fields y _ _ _ _ hms val [unfolded n_def]]) (use ms \<open>d < 31\<close> in simp_all)
qed

section \<open>Text order is time order\<close>

lemma lex_append:
  fixes a :: "'a :: linorder list"
  assumes "length a = length a'"
  shows "a @ b < a' @ b' \<longleftrightarrow> a < a' \<or> a = a' \<and> b < b'"
  using assms by (induction a a' rule: list_induct2) auto

lemma char_less_byte: "c < d \<longleftrightarrow> byte c < byte d"
  by (simp add: less_char_def byte_def)

lemma digits_less:
  assumes "length s = length t" "\<forall>c\<in>set s. is_ascii_digit c" "\<forall>c\<in>set t. is_ascii_digit c"
    "nat_of_digits s < nat_of_digits t"
  shows "s < t"
  using assms
proof (induction s t rule: list_induct2)
  case Nil
  then show ?case by simp
next
  case (Cons x xs y ys)
  have e: "nat_of_digits (z # zs) = digit_val z * 10 ^ length zs + nat_of_digits zs" for z zs
    using nat_of_digits_append [of "[z]" zs] by (simp add: nat_of_digits_def)
  have "\<not> y < x"
  proof
    assume "y < x"
    then have "digit_val y < digit_val x"
      using Cons.prems by (auto simp: char_less_byte digit_val_def is_ascii_digit_def)
    then have "Suc (digit_val y) * 10 ^ length ys \<le> digit_val x * 10 ^ length ys"
      by (intro mult_le_mono1) simp
    moreover have "nat_of_digits ys < 10 ^ length ys" using Cons.prems nat_of_digits_lt by simp
    ultimately show False using Cons.prems(3) Cons.hyps by (simp add: e)
  qed
  then consider "x < y" | "x = y" by fastforce
  then show ?case
    using Cons by cases (auto simp: e)
qed

lemma pad_less:
  assumes "m < n" "n < 10 ^ w" "0 < w"
  shows "pad_zeros w (show_nat m) < pad_zeros w (show_nat n)"
proof (rule digits_less)
  show "length (pad_zeros w (show_nat m)) = length (pad_zeros w (show_nat n))"
    using assms length_show_nat_le [of m w] length_show_nat_le [of n w] by (simp add: length_pad)
qed (use assms show_nat_digits in \<open>auto simp: pad_zeros_def zero_char_digit nat_of_digits_append
    nat_of_digits_zeros\<close>)

lemma two_less: "m < n \<Longrightarrow> n < 100 \<Longrightarrow> two m < two n"
  unfolding two_def by (rule pad_less) simp_all

lemma four_less: "m < n \<Longrightarrow> n < 10000 \<Longrightarrow> four m < four n"
  unfolding four_def by (rule pad_less) simp_all

lemma length_two: "n < 100 \<Longrightarrow> length (two n) = 2"
  unfolding two_def using length_show_nat_le [of n 2] by (simp add: length_pad)

lemma length_four: "n < 10000 \<Longrightarrow> length (four n) = 4"
  unfolding four_def using length_show_nat_le [of n 4] by (simp add: length_pad)

lemma div_mod_less:
  fixes a b k :: nat
  assumes "a < b"
  shows "a div k < b div k \<or> a div k = b div k \<and> a mod k < b mod k"
proof (cases "a div k = b div k")
  case True
  then show ?thesis
    using assms div_mult_mod_eq [of a k] div_mult_mod_eq [of b k] by (metis add_less_cancel_left)
next
  case False
  then show ?thesis using assms div_le_mono [of a b k] by auto
qed

lemma ts_fields_less:
  assumes "t < t'" "ts_min \<le> t" "t' \<le> ts_max"
  shows "ts_fields t < ts_fields t'"
proof -
  define n n' where "n = nat (t - ts_min)" and "n' = nat (t' - ts_min)"
  have "n < n'" using assms by (simp add: n_def n'_def)
  obtain y r y' r' where yr: "year_day (n div 86400) = (y, r)" "year_day (n' div 86400) = (y', r')"
    by (cases "year_day (n div 86400)", cases "year_day (n' div 86400)") auto
  obtain m d m' d' where md: "civil_month (month_lens y) 1 r = (m, d)"
    "civil_month (month_lens y') 1 r' = (m', d')"
    by (cases "civil_month (month_lens y) 1 r", cases "civil_month (month_lens y') 1 r'") auto
  define a a' where "a = n mod 86400" and "a' = n' mod 86400"
  have f: "ts_fields t = [y, m, Suc d, a div 3600, a div 60 mod 60, a mod 60]"
    "ts_fields t' = [y', m', Suc d', a' div 3600, a' div 60 mod 60, a' mod 60]"
    by (simp_all only: ts_fields_def Let_def n_def [symmetric] n'_def [symmetric] a_def [symmetric]
        a'_def [symmetric] yr md prod.case)
  have "n div 86400 < n' div 86400 \<or> n div 86400 = n' div 86400 \<and> a < a'"
    unfolding a_def a'_def using \<open>n < n'\<close> by (rule div_mod_less)
  then show ?thesis
  proof
    assume "n div 86400 < n' div 86400"
    from year_day_mono [OF this yr] consider "y < y'" | "y = y'" "r < r'" by blast
    then show ?thesis
      using civil_month_mono [OF _ md(1), of r' m' d'] md(2) f by cases auto
  next
    assume eq: "n div 86400 = n' div 86400 \<and> a < a'"
    have "a div 3600 < a' div 3600 \<or> a div 3600 = a' div 3600 \<and>
        (a div 60 mod 60 < a' div 60 mod 60 \<or> a div 60 mod 60 = a' div 60 mod 60 \<and> a mod 60 < a' mod 60)"
    proof -
      have h: "a div 3600 = a div 60 div 60" "a' div 3600 = a' div 60 div 60"
        using div_mult2_eq [of a 60 60] div_mult2_eq [of a' 60 60] by simp_all
      from eq have "a < a'" by simp
      then show ?thesis
        unfolding h using div_mod_less [of a a' 60] div_mod_less [of "a div 60" "a' div 60" 60] by auto
    qed
    with eq f yr md show ?thesis by auto
  qed
qed

lemma lex_same: "(a :: 'a :: linorder list) @ x < a @ y \<longleftrightarrow> x < y"
  by (induction a) auto

lemma render_ts_less:
  assumes "[y, m, d, h, mi, s] < [y', m', d', h', mi', s']"
    "y < 10000" "m < 100" "d < 100" "h < 100" "mi < 100" "s < 100"
    "y' < 10000" "m' < 100" "d' < 100" "h' < 100" "mi' < 100" "s' < 100"
  shows "render_ts sep suf [y, m, d, h, mi, s] < render_ts sep suf [y', m', d', h', mi', s']"
  using assms
  by (auto simp: lex_same lex_append length_two length_four two_less four_less)

lemma rendered_less:
  assumes "ts_min \<le> t" "t < t'" "t' \<le> ts_max"
  shows "render_ts sep suf (ts_fields t) < render_ts sep suf (ts_fields t')"
proof -
  have r: "ts_min \<le> t" "t \<le> ts_max" "ts_min \<le> t'" "t' \<le> ts_max" using assms by simp_all
  have "ts_fields t < ts_fields t'" using assms by (intro ts_fields_less)
  moreover obtain y m d h mi e where f: "ts_fields t = [y, m, d, h, mi, e]"
    and b: "y < 10000" "m \<le> 12" "d \<le> 31" "h < 24" "mi < 60" "e < 60"
    by (rule ts_fields_shape [OF r(1,2)])
  moreover obtain y' m' d' h' mi' e' where f': "ts_fields t' = [y', m', d', h', mi', e']"
    and b': "y' < 10000" "m' \<le> 12" "d' \<le> 31" "h' < 24" "mi' < 60" "e' < 60"
    by (rule ts_fields_shape [OF r(3,4)])
  ultimately show ?thesis
    unfolding f f' by (intro render_ts_less) simp_all
qed

lemma strftime_z_less:
  "strftime_z t = Some s \<Longrightarrow> strftime_z t' = Some s' \<Longrightarrow> t < t' \<Longrightarrow> s < s'"
  by (auto simp: strftime_z_def split: if_splits intro: rendered_less)

lemma strftime_z_less_iff:
  assumes "strftime_z t = Some s" "strftime_z t' = Some s'"
  shows "s < s' \<longleftrightarrow> t < t'"
  using assms strftime_z_less by (metis less_asym linorder_cases option.inject)

lemma strftime_z_le_iff:
  assumes "strftime_z t = Some s" "strftime_z t' = Some s'"
  shows "s \<le> s' \<longleftrightarrow> t \<le> t'"
  using strftime_z_less_iff [OF assms(2,1)] by (simp add: linorder_not_less [symmetric])

section \<open>Reading timestamps back\<close>

text \<open>
  SQLite's reading of the two layouts the gateway has ever stored, with a \<open>T\<close> or a blank between
  date and time and with or without the final \<open>Z\<close>.
\<close>

definition ts_layout :: "string \<Rightarrow> bool" where
  "ts_layout s \<longleftrightarrow>
     (length s = 19 \<or> length s = 20 \<and> s ! 19 = CHR ''Z'') \<and>
     s ! 4 = CHR ''-'' \<and> s ! 7 = CHR ''-'' \<and> (s ! 10 = CHR ''T'' \<or> s ! 10 = CHR '' '') \<and>
     s ! 13 = CHR '':'' \<and> s ! 16 = CHR '':'' \<and>
     (\<forall>i\<in>set [0, 1, 2, 3, 5, 6, 8, 9, 11, 12, 14, 15, 17, 18]. is_ascii_digit (s ! i))"

definition field_at :: "nat \<Rightarrow> nat \<Rightarrow> string \<Rightarrow> nat" where
  "field_at i w s = nat_of_digits (take w (drop i s))"

definition sqlite_parse :: "string \<Rightarrow> int option" where
  "sqlite_parse s =
     (let y = field_at 0 4 s; m = field_at 5 2 s; d = field_at 8 2 s;
          h = field_at 11 2 s; mi = field_at 14 2 s; se = field_at 17 2 s in
      if ts_layout s \<and> 1 \<le> m \<and> m \<le> 12 \<and> 1 \<le> d \<and> d \<le> 31 \<and> h \<le> 24 \<and> mi < 60 \<and> se < 60
      then Some (ts_min + int ((days_before y + months_before (month_lens y) (m - 1) + (d - 1)) * 86400
                               + h * 3600 + mi * 60 + se))
      else None)"

text \<open>\<open>datetime(x, '+n seconds')\<close> on a stored timestamp, and \<open>datetime('now')\<close>.\<close>

definition sql_datetime :: "int \<Rightarrow> string option" where
  "sql_datetime t =
     (if ts_min \<le> t \<and> t \<le> ts_max then Some (render_ts '' '' [] (ts_fields t)) else None)"

definition sql_datetime_plus :: "string \<Rightarrow> int \<Rightarrow> string option" where
  "sql_datetime_plus s n = (if n < 0 then None else Option.bind (sqlite_parse s) (\<lambda>t. sql_datetime (t + n)))"

text \<open>The layout with a \<open>T\<close> but no final \<open>Z\<close>, which \<open>normalize_ts\<close> also knows.\<close>

definition ts_without_z :: "int \<Rightarrow> string option" where
  "ts_without_z t =
     (if ts_min \<le> t \<and> t \<le> ts_max then Some (render_ts ''T'' [] (ts_fields t)) else None)"

lemma sql_datetime_less:
  "sql_datetime t = Some s \<Longrightarrow> sql_datetime t' = Some s' \<Longrightarrow> t < t' \<Longrightarrow> s < s'"
  by (auto simp: sql_datetime_def split: if_splits intro: rendered_less)

lemma digits_pad: "n < 10 ^ w \<Longrightarrow> 0 < w \<Longrightarrow> nat_of_digits (pad_zeros w (show_nat n)) = n"
  by (simp add: nat_of_digits_pad)

lemma pad_digits: "i < length (pad_zeros w (show_nat n)) \<Longrightarrow> is_ascii_digit (pad_zeros w (show_nat n) ! i)"
  using show_nat_digits [of n] nth_mem [of i "pad_zeros w (show_nat n)"]
  by (auto simp: pad_zeros_def zero_char_digit)

lemma two_shape:
  assumes "n < 100"
  obtains a b where "two n = [a, b]" "is_ascii_digit a" "is_ascii_digit b" "nat_of_digits [a, b] = n"
proof -
  have l: "length (two n) = 2" using assms by (rule length_two)
  then obtain a b where ab: "two n = [a, b]" by (auto simp: length_Suc_conv numeral_2_eq_2)
  moreover have "is_ascii_digit (two n ! 0)" "is_ascii_digit (two n ! 1)"
    using l by (auto simp: two_def intro!: pad_digits)
  moreover have "nat_of_digits (two n) = n" using assms by (simp add: two_def digits_pad)
  ultimately show ?thesis using that by simp
qed

lemma four_shape:
  assumes "n < 10000"
  obtains a b c d where "four n = [a, b, c, d]" "is_ascii_digit a" "is_ascii_digit b"
    "is_ascii_digit c" "is_ascii_digit d" "nat_of_digits [a, b, c, d] = n"
proof -
  have l: "length (four n) = 4" using assms by (rule length_four)
  then obtain a b c d where ab: "four n = [a, b, c, d]"
    by (auto simp: length_Suc_conv numeral_eq_Suc)
  moreover have "is_ascii_digit (four n ! 0)" "is_ascii_digit (four n ! 1)"
      "is_ascii_digit (four n ! 2)" "is_ascii_digit (four n ! 3)"
    using l by (auto simp: four_def intro!: pad_digits)
  moreover have "nat_of_digits (four n) = n" using assms by (simp add: four_def digits_pad)
  ultimately show ?thesis using that by (simp add: numeral_eq_Suc)
qed

text \<open>The twenty characters of a rendered time, one by one.\<close>

lemma rendered:
  assumes "ts_min \<le> t" "t \<le> ts_max"
  obtains y1 y2 y3 y4 m1 m2 d1 d2 h1 h2 i1 i2 s1 s2 where
    "\<forall>sep suf. render_ts sep suf (ts_fields t) =
       [y1, y2, y3, y4, CHR ''-'', m1, m2, CHR ''-'', d1, d2] @ sep @
       [h1, h2, CHR '':'', i1, i2, CHR '':'', s1, s2] @ suf"
    "\<forall>c\<in>set [y1, y2, y3, y4, m1, m2, d1, d2, h1, h2, i1, i2, s1, s2]. is_ascii_digit c"
    "1 \<le> nat_of_digits [m1, m2]" "nat_of_digits [m1, m2] \<le> 12"
    "1 \<le> nat_of_digits [d1, d2]" "nat_of_digits [d1, d2] \<le> 31"
    "nat_of_digits [h1, h2] < 24" "nat_of_digits [i1, i2] < 60" "nat_of_digits [s1, s2] < 60"
    "nat (t - ts_min) =
       (days_before (nat_of_digits [y1, y2, y3, y4])
        + months_before (month_lens (nat_of_digits [y1, y2, y3, y4])) (nat_of_digits [m1, m2] - 1)
        + (nat_of_digits [d1, d2] - 1)) * 86400
       + nat_of_digits [h1, h2] * 3600 + nat_of_digits [i1, i2] * 60 + nat_of_digits [s1, s2]"
proof -
  obtain y m d h mi s where f: "ts_fields t = [y, m, d, h, mi, s]"
    and r: "y < 10000" "1 \<le> m" "m \<le> 12" "1 \<le> d" "d \<le> 31" "h < 24" "mi < 60" "s < 60"
    and v: "nat (t - ts_min) =
       (days_before y + months_before (month_lens y) (m - 1) + (d - 1)) * 86400 + h * 3600 + mi * 60 + s"
    by (rule ts_fields_shape [OF assms])
  obtain y1 y2 y3 y4 where y: "four y = [y1, y2, y3, y4]" "is_ascii_digit y1" "is_ascii_digit y2"
    "is_ascii_digit y3" "is_ascii_digit y4" "nat_of_digits [y1, y2, y3, y4] = y"
    by (rule four_shape [OF r(1)])
  have b: "m < 100" "d < 100" "h < 100" "mi < 100" "s < 100" using r by auto
  obtain m1 m2 where m: "two m = [m1, m2]" "is_ascii_digit m1" "is_ascii_digit m2" "nat_of_digits [m1, m2] = m"
    by (rule two_shape [OF b(1)])
  obtain d1 d2 where d: "two d = [d1, d2]" "is_ascii_digit d1" "is_ascii_digit d2" "nat_of_digits [d1, d2] = d"
    by (rule two_shape [OF b(2)])
  obtain h1 h2 where h: "two h = [h1, h2]" "is_ascii_digit h1" "is_ascii_digit h2" "nat_of_digits [h1, h2] = h"
    by (rule two_shape [OF b(3)])
  obtain i1 i2 where i: "two mi = [i1, i2]" "is_ascii_digit i1" "is_ascii_digit i2" "nat_of_digits [i1, i2] = mi"
    by (rule two_shape [OF b(4)])
  obtain s1 s2 where s: "two s = [s1, s2]" "is_ascii_digit s1" "is_ascii_digit s2" "nat_of_digits [s1, s2] = s"
    by (rule two_shape [OF b(5)])
  show ?thesis
    by (rule that [of y1 y2 y3 y4 m1 m2 d1 d2 h1 h2 i1 i2 s1 s2])
      (use f y m d h i s r v in \<open>simp_all only: render_ts.simps append.simps, simp_all\<close>)
qed

lemma rendered_chars:
  assumes "ts_min \<le> t" "t \<le> ts_max"
  obtains y1 y2 y3 y4 m1 m2 d1 d2 h1 h2 i1 i2 s1 s2 where
    "\<forall>sep suf. render_ts sep suf (ts_fields t) =
       [y1, y2, y3, y4, CHR ''-'', m1, m2, CHR ''-'', d1, d2] @ sep @
       [h1, h2, CHR '':'', i1, i2, CHR '':'', s1, s2] @ suf"
    "\<forall>c\<in>set [y1, y2, y3, y4, m1, m2, d1, d2, h1, h2, i1, i2, s1, s2]. is_ascii_digit c"
  by (rule rendered [OF assms], rule that, assumption, assumption)

lemma sqlite_parse_rendered:
  assumes "ts_min \<le> t" "t \<le> ts_max" "(sep, suf) \<in> {(''T'', ''Z''), ('' '', []), (''T'', [])}"
    and s: "s = render_ts sep suf (ts_fields t)"
  shows "sqlite_parse s = Some t"
proof -
  note r = assms(1,2)
  have n: "t = ts_min + int (nat (t - ts_min))" using r by simp
  obtain y1 y2 y3 y4 m1 m2 d1 d2 h1 h2 i1 i2 s1 s2 where
    e: "\<forall>sep suf. render_ts sep suf (ts_fields t) =
       [y1, y2, y3, y4, CHR ''-'', m1, m2, CHR ''-'', d1, d2] @ sep @
       [h1, h2, CHR '':'', i1, i2, CHR '':'', s1, s2] @ suf"
    and d: "\<forall>c\<in>set [y1, y2, y3, y4, m1, m2, d1, d2, h1, h2, i1, i2, s1, s2]. is_ascii_digit c"
    and b: "1 \<le> nat_of_digits [m1, m2]" "nat_of_digits [m1, m2] \<le> 12"
      "1 \<le> nat_of_digits [d1, d2]" "nat_of_digits [d1, d2] \<le> 31"
      "nat_of_digits [h1, h2] < 24" "nat_of_digits [i1, i2] < 60" "nat_of_digits [s1, s2] < 60"
    and v: "nat (t - ts_min) =
       (days_before (nat_of_digits [y1, y2, y3, y4])
        + months_before (month_lens (nat_of_digits [y1, y2, y3, y4])) (nat_of_digits [m1, m2] - 1)
        + (nat_of_digits [d1, d2] - 1)) * 86400
       + nat_of_digits [h1, h2] * 3600 + nat_of_digits [i1, i2] * 60 + nat_of_digits [s1, s2]"
    by (rule rendered [OF r])
  have f: "field_at 0 4 s = nat_of_digits [y1, y2, y3, y4]" "field_at 5 2 s = nat_of_digits [m1, m2]"
    "field_at 8 2 s = nat_of_digits [d1, d2]" "field_at 11 2 s = nat_of_digits [h1, h2]"
    "field_at 14 2 s = nat_of_digits [i1, i2]" "field_at 17 2 s = nat_of_digits [s1, s2]"
    using assms(3) by (auto simp: s e field_at_def)
  have l: "ts_layout s" using d assms(3) by (auto simp: s e ts_layout_def)
  show ?thesis
    unfolding sqlite_parse_def Let_def f using l b v n by auto
qed

lemma sqlite_parse_strftime: "strftime_z t = Some s \<Longrightarrow> sqlite_parse s = Some t"
  by (rule sqlite_parse_rendered [of t "''T''" "''Z''"]) (auto simp: strftime_z_def split: if_splits)

lemma sqlite_parse_datetime: "sql_datetime t = Some s \<Longrightarrow> sqlite_parse s = Some t"
  by (rule sqlite_parse_rendered [of t "'' ''" "[]"]) (auto simp: sql_datetime_def split: if_splits)

lemma sqlite_parse_without_z: "ts_without_z t = Some s \<Longrightarrow> sqlite_parse s = Some t"
  by (rule sqlite_parse_rendered [of t "''T''" "[]"]) (auto simp: ts_without_z_def split: if_splits)

lemma sqlite_parse_layouts: "Some v \<in> {strftime_z t, sql_datetime t, ts_without_z t} \<Longrightarrow> sqlite_parse v = Some t"
  using sqlite_parse_strftime [of t v] sqlite_parse_datetime [of t v] sqlite_parse_without_z [of t v] by auto

text \<open>The layout without \<open>Z\<close> is neither of the other two.\<close>

lemma without_z_distinct: "ts_without_z t = Some v \<Longrightarrow> Some v \<notin> {strftime_z t', sql_datetime t'}"
proof
  assume v: "ts_without_z t = Some v" and v': "Some v \<in> {strftime_z t', sql_datetime t'}"
  have "t' = t" using sqlite_parse_without_z [OF v] sqlite_parse_layouts [of v t'] v' by auto
  moreover have r: "ts_min \<le> t" "t \<le> ts_max" using v by (auto simp: ts_without_z_def split: if_splits)
  obtain y1 y2 y3 y4 m1 m2 d1 d2 h1 h2 i1 i2 s1 s2 where
    e: "\<forall>sep suf. render_ts sep suf (ts_fields t) =
       [y1, y2, y3, y4, CHR ''-'', m1, m2, CHR ''-'', d1, d2] @ sep @
       [h1, h2, CHR '':'', i1, i2, CHR '':'', s1, s2] @ suf"
    by (rule rendered_chars [OF r])
  ultimately show False using v v' r by (auto simp: ts_without_z_def strftime_z_def sql_datetime_def e)
qed

text \<open>A stored timestamp is ASCII text without a tab.\<close>

lemma strftime_ascii: "strftime_z t = Some s \<Longrightarrow> \<forall>c\<in>set s. byte c < 0x80 \<and> c \<noteq> CHR 0x09"
proof -
  assume s: "strftime_z t = Some s"
  then have r: "ts_min \<le> t" "t \<le> ts_max" by (auto simp: strftime_z_def split: if_splits)
  obtain y1 y2 y3 y4 m1 m2 d1 d2 h1 h2 i1 i2 s1 s2 where
    e: "\<forall>sep suf. render_ts sep suf (ts_fields t) =
       [y1, y2, y3, y4, CHR ''-'', m1, m2, CHR ''-'', d1, d2] @ sep @
       [h1, h2, CHR '':'', i1, i2, CHR '':'', s1, s2] @ suf"
    and d: "\<forall>c\<in>set [y1, y2, y3, y4, m1, m2, d1, d2, h1, h2, i1, i2, s1, s2]. is_ascii_digit c"
    by (rule rendered_chars [OF r])
  define D where "D = [y1, y2, y3, y4, m1, m2, d1, d2, h1, h2, i1, i2, s1, s2]"
  have "s = [y1, y2, y3, y4, CHR ''-'', m1, m2, CHR ''-'', d1, d2, CHR ''T'', h1, h2, CHR '':'', i1, i2, CHR '':'', s1, s2, CHR ''Z'']"
    using s r by (simp add: strftime_z_def e)
  then have "set s \<subseteq> set D \<union> {CHR ''-'', CHR '':'', CHR ''T'', CHR ''Z''}" by (simp add: D_def)
  moreover have "byte c < 0x80 \<and> c \<noteq> CHR 0x09" if "c \<in> set D" for c
    using that d unfolding D_def [symmetric] by (fastforce simp: is_ascii_digit_def byte_def)
  moreover have "byte c < 0x80 \<and> c \<noteq> CHR 0x09" if "c \<in> {CHR ''-'', CHR '':'', CHR ''T'', CHR ''Z''}" for c
    using that by (auto simp: byte_def)
  ultimately show ?thesis by blast
qed

section \<open>The \<open>CHECK\<close> pattern and \<open>normalize_ts\<close>\<close>

text \<open>\<open>LIKE '____-__-__T__:__:__Z'\<close>; \<open>LIKE\<close> ignores the case of ASCII letters.\<close>

definition ts_pattern :: "string \<Rightarrow> bool" where
  "ts_pattern s \<longleftrightarrow>
     length s = 20 \<and> s ! 4 = CHR ''-'' \<and> s ! 7 = CHR ''-'' \<and>
     to_ascii_uppercase_char (s ! 10) = CHR ''T'' \<and> s ! 13 = CHR '':'' \<and> s ! 16 = CHR '':'' \<and>
     to_ascii_uppercase_char (s ! 19) = CHR ''Z''"

definition replace_first :: "char \<Rightarrow> string \<Rightarrow> string \<Rightarrow> string" where
  "replace_first c r s = (case split_once c s of None \<Rightarrow> s | Some (a, b) \<Rightarrow> a @ r @ b)"

definition normalize_ts :: "string \<Rightarrow> string" where
  "normalize_ts raw =
     (let s = trim raw in
      if ends_with ''Z'' s \<or> CHR ''+'' \<in> set s then s
      else if length s = 19 then replace_first (CHR '' '') ''T'' s @ ''Z''
      else s)"

lemma strftime_z_pattern: "strftime_z t = Some s \<Longrightarrow> ts_pattern s"
proof -
  assume "strftime_z t = Some s"
  then have r: "ts_min \<le> t" "t \<le> ts_max" and s: "s = render_ts ''T'' ''Z'' (ts_fields t)"
    by (auto simp: strftime_z_def split: if_splits)
  obtain y1 y2 y3 y4 m1 m2 d1 d2 h1 h2 i1 i2 s1 s2 where
    e: "\<forall>sep suf. render_ts sep suf (ts_fields t) =
       [y1, y2, y3, y4, CHR ''-'', m1, m2, CHR ''-'', d1, d2] @ sep @
       [h1, h2, CHR '':'', i1, i2, CHR '':'', s1, s2] @ suf"
    and d: "\<forall>c\<in>set [y1, y2, y3, y4, m1, m2, d1, d2, h1, h2, i1, i2, s1, s2]. is_ascii_digit c"
    by (rule rendered_chars [OF r])
  show ?thesis
    by (simp add: s e ts_pattern_def to_ascii_uppercase_char_def byte_def)
qed

lemma normalize_ts_stored:
  assumes "strftime_z t = Some s"
  shows "normalize_ts s = s"
proof -
  have r: "ts_min \<le> t" "t \<le> ts_max" and s: "s = render_ts ''T'' ''Z'' (ts_fields t)"
    using assms by (auto simp: strftime_z_def split: if_splits)
  obtain y1 y2 y3 y4 m1 m2 d1 d2 h1 h2 i1 i2 s1 s2 where
    e: "\<forall>sep suf. render_ts sep suf (ts_fields t) =
       [y1, y2, y3, y4, CHR ''-'', m1, m2, CHR ''-'', d1, d2] @ sep @
       [h1, h2, CHR '':'', i1, i2, CHR '':'', s1, s2] @ suf"
    and d: "\<forall>c\<in>set [y1, y2, y3, y4, m1, m2, d1, d2, h1, h2, i1, i2, s1, s2]. is_ascii_digit c"
    by (rule rendered_chars [OF r])
  have "visible (CHR ''Z'')" by (simp add: visible_def byte_def)
  then have v: "trim s = s"
    using d by (intro trim_visible) (simp add: s e digit_visible)
  have "ends_with ''Z'' s"
    by (simp add: s e ends_with_def starts_with_def)
  with v show ?thesis by (simp add: normalize_ts_def)
qed

lemma normalize_ts_legacy:
  assumes "strftime_z t = Some s" "sql_datetime t = Some l"
  shows "normalize_ts l = s"
proof -
  have r: "ts_min \<le> t" "t \<le> ts_max" and s: "s = render_ts ''T'' ''Z'' (ts_fields t)"
    and l: "l = render_ts '' '' [] (ts_fields t)"
    using assms by (auto simp: strftime_z_def sql_datetime_def split: if_splits)
  have digits: "is_ascii_digit c \<Longrightarrow> c \<noteq> CHR '' '' \<and> CHR ''+'' \<noteq> c \<and> c \<noteq> CHR ''Z''" for c
    by (auto simp: is_ascii_digit_def byte_def)
  obtain y1 y2 y3 y4 m1 m2 d1 d2 h1 h2 i1 i2 s1 s2 where
    e: "\<forall>sep suf. render_ts sep suf (ts_fields t) =
       [y1, y2, y3, y4, CHR ''-'', m1, m2, CHR ''-'', d1, d2] @ sep @
       [h1, h2, CHR '':'', i1, i2, CHR '':'', s1, s2] @ suf"
    and d: "\<forall>c\<in>set [y1, y2, y3, y4, m1, m2, d1, d2, h1, h2, i1, i2, s1, s2]. is_ascii_digit c"
    by (rule rendered_chars [OF r])
  have v: "trim l = l"
    using d by (intro trim_visible) (simp add: l e digit_visible)
  show ?thesis
    using d digits
    by (simp add: normalize_ts_def v Let_def) (simp add: l s e ends_with_def starts_with_def replace_first_def)
qed

lemma normalize_ts_layouts:
  assumes "Some r \<in> {strftime_z t, sql_datetime t}"
  shows "strftime_z t = Some (normalize_ts r)"
proof -
  obtain s where s: "strftime_z t = Some s"
    using assms by (auto simp: strftime_z_def sql_datetime_def split: if_splits)
  with assms show ?thesis using normalize_ts_stored [OF s] normalize_ts_legacy [OF s, of r] by auto
qed

text \<open>The first two seconds of the range, for concrete rows.\<close>

lemma year_zero_texts:
  "sql_datetime ts_min = Some ''0000-01-01 00:00:00''" "strftime_z (ts_min + 1) = Some ''0000-01-01T00:00:01Z''"
proof -
  have y: "year_day 0 = (0, 0)" "civil_month (month_lens 0) (Suc 0) 0 = (1, 0)"
    by (simp_all add: year_day_def civil_year.simps [of 0 0] year_len_def month_lens_def is_leap_def)
  have f: "ts_fields ts_min = [0, 1, 1, 0, 0, 0]" "ts_fields (ts_min + 1) = [0, 1, 1, 0, 0, 1]"
    by (simp_all add: ts_fields_def y)
  show "sql_datetime ts_min = Some ''0000-01-01 00:00:00''" "strftime_z (ts_min + 1) = Some ''0000-01-01T00:00:01Z''"
    unfolding sql_datetime_def strftime_z_def f by (simp_all add: ts_min_def ts_max_def) code_simp+
qed

text \<open>
  C30: reading a stored timestamp, in today's layout or the one of older databases, gives a string of the
  canonical pattern that denotes the same second, and comparing two such strings as text, as the SQL of
  the gateway does, compares the times.
\<close>

theorem timestamp_order:
  assumes "Some r \<in> {strftime_z t, sql_datetime t}" "Some r' \<in> {strftime_z t', sql_datetime t'}"
  shows "(normalize_ts r \<le> normalize_ts r' \<longleftrightarrow> t \<le> t') \<and>
    sqlite_parse (normalize_ts r) = Some t \<and> ts_pattern (normalize_ts r)"
  using strftime_z_le_iff [OF assms [THEN normalize_ts_layouts]]
    sqlite_parse_strftime [OF assms(1) [THEN normalize_ts_layouts]]
    strftime_z_pattern [OF assms(1) [THEN normalize_ts_layouts]] by simp

theorem timestamp_order_witness:
  "normalize_ts ''0000-01-01 00:00:00'' \<le> normalize_ts ''0000-01-01T00:00:01Z''"
  using timestamp_order [of "''0000-01-01 00:00:00''" ts_min "''0000-01-01T00:00:01Z''" "ts_min + 1"]
  by (simp add: year_zero_texts)

end
