(* ===== verification/Money.thy ===== *)
theory Money
  imports Prelude
begin

text \<open>
  Money handling (\<open>src/money.rs\<close>): decimal amount strings are parsed into whole stroops with
  checked 64-bit arithmetic and printed back in their shortest decimal form. The interface the
  rest of the gateway relies on, a parser and a printer that agree on every positive amount, is
  the locale \<open>amount_codec\<close>; its interpretation on the two functions is at the end.
\<close>

section \<open>Definitions\<close>

definition STROOPS_PER_UNIT :: int where
  "STROOPS_PER_UNIT = 10000000"

definition MAX_DECIMALS :: nat where
  "MAX_DECIMALS = 7"

definition parse_stroops :: "string \<Rightarrow> int option" where
  "parse_stroops input =
     (let s = trim input in
      if s = [] then None
      else
        let (int_part, frac_part) =
              (case split_once (CHR ''.'') s of Some (i, f) \<Rightarrow> (i, f) | None \<Rightarrow> (s, [])) in
        if \<not> (\<forall>c\<in>set int_part. is_ascii_digit c) then None
        else if \<not> (\<forall>c\<in>set frac_part. is_ascii_digit c) then None
        else if int_part = [] \<and> frac_part = [] then None
        else if MAX_DECIMALS < length frac_part then None
        else
          Option.bind (if int_part = [] then Some 0 else parse_i64 int_part) (\<lambda>int_val.
          Option.bind (parse_i64 (frac_part @ replicate (MAX_DECIMALS - length frac_part) (CHR ''0'')))
            (\<lambda>frac_val.
          Option.bind (checked_i64 (int_val * STROOPS_PER_UNIT)) (\<lambda>whole.
          Option.bind (checked_i64 (whole + frac_val)) (\<lambda>stroops.
          if stroops \<le> 0 then None else Some stroops)))))"

definition is_valid_amount :: "string \<Rightarrow> bool" where
  "is_valid_amount input \<longleftrightarrow> parse_stroops input \<noteq> None"

text \<open>\<open>{frac:07}\<close>: seven characters, zero-filled after the sign.\<close>

definition format_07 :: "int \<Rightarrow> string" where
  "format_07 x =
     (if x < 0 then CHR ''-'' # pad_zeros 6 (show_nat (nat (- x))) else pad_zeros 7 (show_nat (nat x)))"

definition stroops_to_string :: "int \<Rightarrow> string" where
  "stroops_to_string stroops =
     (let whole = stroops sdiv STROOPS_PER_UNIT;
          frac = stroops smod STROOPS_PER_UNIT in
      if frac = 0 then show_int whole
      else show_int whole @ CHR ''.'' # trim_end_zeros (format_07 frac))"

text \<open>
  \<open>parse_stroops(..).map(stroops_to_string)\<close>, the canonicalisation that \<open>db::create_payment\<close>,
  \<open>payments::to_json\<close> and \<open>webhook::build_payload\<close> apply to amounts.
\<close>

definition canonical :: "string \<Rightarrow> string option" where
  "canonical s = map_option stroops_to_string (parse_stroops s)"

definition canonical_or_self :: "string \<Rightarrow> string" where
  "canonical_or_self s = (case canonical s of Some c \<Rightarrow> c | None \<Rightarrow> s)"

section \<open>The meaning of an amount string\<close>

text \<open>
  An amount is an integer part and a fractional part of at most seven digits, not both empty; its
  value in stroops is the scaled sum.
\<close>

definition amount_parts :: "string \<Rightarrow> string \<Rightarrow> string \<Rightarrow> bool" where
  "amount_parts s i f \<longleftrightarrow>
     (s = i @ CHR ''.'' # f \<or> (s = i \<and> f = [])) \<and>
     (\<forall>c\<in>set i. is_ascii_digit c) \<and> (\<forall>c\<in>set f. is_ascii_digit c) \<and>
     (i \<noteq> [] \<or> f \<noteq> []) \<and> length f \<le> 7"

definition amount_value :: "string \<Rightarrow> string \<Rightarrow> nat" where
  "amount_value i f = nat_of_digits i * 10 ^ 7 + nat_of_digits f * 10 ^ (7 - length f)"

lemma digits_no_point: "\<forall>c\<in>set i. is_ascii_digit c \<Longrightarrow> CHR ''.'' \<notin> set i"
  using digit_not_sign by blast

lemma padded_fraction:
  assumes "\<forall>c\<in>set f. is_ascii_digit c" "length f \<le> 7"
  shows "parse_i64 (f @ replicate (MAX_DECIMALS - length f) (CHR ''0'')) =
         Some (int (nat_of_digits f * 10 ^ (7 - length f)))"
proof -
  let ?p = "f @ replicate (7 - length f) (CHR ''0'')"
  have d: "\<forall>c\<in>set ?p. is_ascii_digit c"
    using assms(1) by (auto simp: zero_char_digit)
  have len: "length ?p = 7" using assms(2) by simp
  then have ne: "?p \<noteq> []" by auto
  have v: "nat_of_digits ?p = nat_of_digits f * 10 ^ (7 - length f)"
    by (simp add: nat_of_digits_append zero_char_digit nat_of_digits_zeros)
  have "nat_of_digits ?p < 10 ^ 7" using nat_of_digits_lt [OF d] len by simp
  then have "int (nat_of_digits ?p) < 10000000" by simp
  then have "checked_i64 (int (nat_of_digits ?p)) = Some (int (nat_of_digits ?p))"
    by (simp add: checked_i64_def int_bounds)
  with parse_i64_digits [OF ne d] v show ?thesis by (simp add: MAX_DECIMALS_def)
qed

lemma parse_parts:
  assumes "amount_parts (trim s) i f"
  shows "parse_stroops s =
    (if 0 < amount_value i f \<and> int (amount_value i f) \<le> i64_max
     then Some (int (amount_value i f)) else None)"
proof -
  let ?I = "nat_of_digits i" and ?F = "nat_of_digits f * 10 ^ (7 - length f)"
  have di: "\<forall>c\<in>set i. is_ascii_digit c" and df: "\<forall>c\<in>set f. is_ascii_digit c"
    and ne: "i \<noteq> [] \<or> f \<noteq> []" and len: "length f \<le> 7"
    using assms by (auto simp: amount_parts_def)
  have s: "trim s \<noteq> []" using assms by (auto simp: amount_parts_def)
  have "split_once (CHR ''.'') (trim s) = Some (i, f) \<or>
        (split_once (CHR ''.'') (trim s) = None \<and> trim s = i \<and> f = [])"
    using assms digits_no_point [OF di] by (auto simp: amount_parts_def split_once_Some split_once_None)
  then have parts: "(case split_once (CHR ''.'') (trim s) of Some (i, f) \<Rightarrow> (i, f)
      | None \<Rightarrow> (trim s, [])) = (i, f)" by auto
  have int_val: "(if i = [] then Some 0 else parse_i64 i) = checked_i64 (int ?I)"
    using parse_i64_digits [OF _ di] by (auto simp: checked_i64_def int_bounds)
  have body: "parse_stroops s = Option.bind (checked_i64 (int ?I)) (\<lambda>iv.
      Option.bind (checked_i64 (iv * STROOPS_PER_UNIT)) (\<lambda>w.
      Option.bind (checked_i64 (w + int ?F)) (\<lambda>t. if t \<le> 0 then None else Some t)))"
    using s ne len di df padded_fraction [OF df len]
    by (auto simp: parse_stroops_def Let_def parts int_val MAX_DECIMALS_def)
  obtain F where F: "?F = F" by blast
  have v: "amount_value i f = ?I * 10000000 + F" by (simp add: amount_value_def F)
  show ?thesis
    unfolding body v F checked_i64_def STROOPS_PER_UNIT_def int_bounds by auto
qed

lemma parse_no_parts:
  assumes "\<nexists>i f. amount_parts (trim s) i f"
  shows "parse_stroops s = None"
proof (rule ccontr)
  assume some: "parse_stroops s \<noteq> None"
  define i where "i = (case split_once (CHR ''.'') (trim s) of Some (i, f) \<Rightarrow> i | None \<Rightarrow> trim s)"
  define f where "f = (case split_once (CHR ''.'') (trim s) of Some (i, f) \<Rightarrow> f | None \<Rightarrow> [])"
  have "(case split_once (CHR ''.'') (trim s) of Some (i, f) \<Rightarrow> (i, f) | None \<Rightarrow> (trim s, [])) = (i, f)"
    by (auto simp: i_def f_def split: option.splits)
  with some have "(\<forall>c\<in>set i. is_ascii_digit c) \<and> (\<forall>c\<in>set f. is_ascii_digit c) \<and>
      (i \<noteq> [] \<or> f \<noteq> []) \<and> length f \<le> 7"
    by (simp add: parse_stroops_def Let_def MAX_DECIMALS_def not_less split: if_split_asm)
  moreover have "trim s = i @ CHR ''.'' # f \<or> (trim s = i \<and> f = [])"
    by (auto simp: i_def f_def split_once_Some split: option.splits)
  ultimately have "amount_parts (trim s) i f" by (simp add: amount_parts_def)
  with assms show False by blast
qed

theorem parse_stroops_iff:
  "parse_stroops s = Some n \<longleftrightarrow>
     (\<exists>i f. amount_parts (trim s) i f \<and> n = int (amount_value i f) \<and> 0 < n \<and> n \<le> i64_max)"
  using parse_parts parse_no_parts
  by (smt (verit, best) of_nat_0_less_iff option.distinct(1) option.inject)

lemma parse_stroops_range: "parse_stroops s = Some n \<Longrightarrow> 0 < n \<and> n \<le> i64_max"
  by (auto simp: parse_stroops_iff)

section \<open>Printing\<close>

lemma sdiv_smod_nonneg:
  assumes "0 \<le> (n :: int)"
  shows "n sdiv STROOPS_PER_UNIT = n div 10000000" "n smod STROOPS_PER_UNIT = n mod 10000000"
  using assms
  by (simp_all add: STROOPS_PER_UNIT_def signed_divide_int_def signed_modulo_int_def sgn_if abs_if)

lemma print_parts:
  assumes "0 \<le> n"
  defines "s \<equiv> stroops_to_string n"
  shows "\<exists>i f. amount_parts s i f \<and> int (amount_value i f) = n \<and> (f \<noteq> [] \<longrightarrow> last f \<noteq> CHR ''0'')"
proof -
  define q where "q = nat (n div 10000000)"
  define r where "r = nat (n mod 10000000)"
  have r: "r < 10 ^ 7" using assms(1) by (simp add: r_def)
  have q: "0 \<le> n div 10000000" using assms(1) by (simp add: pos_imp_zdiv_nonneg_iff)
  have n: "n = int q * 10000000 + int r" using q by (simp add: q_def r_def)
  show ?thesis
  proof (cases "r = 0")
    case True
    then have "s = show_nat q"
      using assms q
      by (auto simp: s_def stroops_to_string_def Let_def sdiv_smod_nonneg show_int_def q_def r_def)
    then have "amount_parts s (show_nat q) [] \<and> int (amount_value (show_nat q) []) = n"
      using n True show_nat_digits by (simp add: amount_parts_def amount_value_def)
    then show ?thesis by blast
  next
    case False
    define p where "p = pad_zeros 7 (show_nat r)"
    obtain k where k: "p = trim_end_zeros p @ replicate k (CHR ''0'')"
      using trim_end_zeros_split by blast
    have len: "length p = 7"
      unfolding p_def using length_show_nat_le [OF r] by (intro length_pad) simp
    have dp: "\<forall>c\<in>set p. is_ascii_digit c"
      using show_nat_digits by (auto simp: p_def pad_zeros_def zero_char_digit)
    define f where "f = trim_end_zeros p"
    have df: "\<forall>c\<in>set f. is_ascii_digit c"
      using dp k unfolding f_def by (metis Un_iff set_append)
    have lf: "length f + k = 7" using k len by (metis f_def length_append length_replicate)
    have "nat_of_digits p = r" by (simp add: p_def nat_of_digits_pad)
    then have vf: "nat_of_digits f * 10 ^ (7 - length f) = r"
      using k lf unfolding f_def
      by (metis add_diff_cancel_left' add.right_neutral length_replicate nat_of_digits_append
          nat_of_digits_zeros zero_char_digit)
    have last: "f \<noteq> [] \<longrightarrow> last f \<noteq> CHR ''0''"
    proof
      assume "f \<noteq> []"
      then have d: "dropWhile (\<lambda>c. c = CHR ''0'') (rev p) \<noteq> []"
        by (simp add: f_def trim_end_zeros_def)
      have "last f = hd (dropWhile (\<lambda>c. c = CHR ''0'') (rev p))"
        unfolding f_def trim_end_zeros_def by (rule last_rev)
      then show "last f \<noteq> CHR ''0''" using hd_dropWhile [OF d] by simp
    qed
    have "f \<noteq> []" using vf False by auto
    moreover have "s = show_nat q @ CHR ''.'' # f"
      using assms q False r
      by (auto simp: s_def stroops_to_string_def Let_def sdiv_smod_nonneg show_int_def format_07_def
          q_def r_def f_def p_def)
    ultimately have "amount_parts s (show_nat q) f \<and> int (amount_value (show_nat q) f) = n"
      using df lf show_nat_digits n vf by (simp add: amount_parts_def amount_value_def)
    with last show ?thesis by blast
  qed
qed

lemma parts_visible:
  assumes "amount_parts s i f"
  shows "trim s = s"
proof (rule trim_visible)
  have "\<forall>c\<in>set s. visible c"
    using assms digit_visible by (auto simp: amount_parts_def visible_def byte_def)
  then show "s \<noteq> [] \<Longrightarrow> visible (hd s) \<and> visible (last s)" by simp
qed

lemma parse_print:
  assumes "0 < n" "n \<le> i64_max"
  shows "parse_stroops (stroops_to_string n) = Some n"
proof -
  obtain i f where p: "amount_parts (stroops_to_string n) i f" and v: "int (amount_value i f) = n"
    using print_parts [of n] assms by auto
  from p have "trim (stroops_to_string n) = stroops_to_string n" by (rule parts_visible)
  with p v assms show ?thesis using parse_parts [of "stroops_to_string n" i f] by auto
qed

section \<open>The interface: a codec for positive amounts\<close>

locale amount_codec =
  fixes parse :: "string \<Rightarrow> int option"
    and print :: "int \<Rightarrow> string"
  assumes codec_round_trip: "0 < n \<Longrightarrow> n \<le> i64_max \<Longrightarrow> parse (print n) = Some n"
    and codec_range: "parse s = Some n \<Longrightarrow> 0 < n \<and> n \<le> i64_max"
begin

lemma print_inj:
  assumes "0 < m" "m \<le> i64_max" "0 < n" "n \<le> i64_max" "print m = print n"
  shows "m = n"
  using assms codec_round_trip by (metis option.inject)

lemma reprint_parses: "parse s = Some n \<Longrightarrow> parse (print n) = Some n"
  using codec_range codec_round_trip by blast

lemma normal_form_stable:
  "map_option print (parse s) = Some c \<Longrightarrow> map_option print (parse c) = Some c"
  using reprint_parses by (cases "parse s") auto

lemma normal_form_decides:
  assumes "parse s = Some m" "parse t = Some n"
  shows "map_option print (parse s) = map_option print (parse t) \<longleftrightarrow> m = n"
  using assms print_inj codec_range by auto

end

interpretation stroops: amount_codec parse_stroops stroops_to_string
  by unfold_locales (use parse_print parse_stroops_range in blast)+

lemma canonical_stable: "canonical s = Some c \<Longrightarrow> canonical c = Some c"
  unfolding canonical_def by (rule stroops.normal_form_stable)

lemma canonical_parse: "canonical s = Some c \<Longrightarrow> parse_stroops c = parse_stroops s"
  using stroops.reprint_parses by (auto simp: canonical_def)

lemma canonical_or_self_idem: "canonical_or_self (canonical_or_self s) = canonical_or_self s"
  using canonical_stable by (auto simp: canonical_or_self_def split: option.splits)

section \<open>The properties\<close>

text \<open>C28: printing an amount in stroops and reading it back gives the amount, for every positive i64.\<close>

theorem amount_round_trip:
  assumes "0 < n" "n \<le> i64_max"
  shows "parse_stroops (stroops_to_string n) = Some n"
  using assms by (rule stroops.codec_round_trip)

theorem amount_round_trip_witness: "parse_stroops (stroops_to_string 15000000) = Some 15000000"
  by (rule amount_round_trip) (simp_all add: i64_max_def)

text \<open>
  C27: the amounts accepted: after trimming, digits with an optional point and at most seven decimals, at
  least one digit in all, whose scaled value is positive and fits 64 bits; the result is that value.
\<close>

theorem amount_grammar:
  "parse_stroops s = Some n \<longleftrightarrow>
     (\<exists>i f. (trim s = i @ CHR ''.'' # f \<or> trim s = i \<and> f = []) \<and>
        list_all is_ascii_digit (i @ f) \<and> i @ f \<noteq> [] \<and> length f \<le> 7 \<and>
        n = int (nat_of_digits i * 10 ^ 7 + nat_of_digits f * 10 ^ (7 - length f)) \<and> 0 < n \<and> n \<le> i64_max)"
  unfolding parse_stroops_iff amount_parts_def amount_value_def list_all_iff by auto

text \<open>
  Two accepted amount strings get the same canonical form exactly when they mean the same amount,
  and the canonical form is stable and keeps the value.
\<close>

theorem canonical_form:
  assumes "parse_stroops s = Some m" "parse_stroops t = Some n"
  shows "(canonical s = canonical t \<longleftrightarrow> m = n) \<and>
    (\<exists>c. canonical s = Some c \<and> canonical c = Some c \<and> parse_stroops c = Some m)"
  using stroops.normal_form_decides [OF assms] stroops.reprint_parses [OF assms(1)] assms
  by (simp add: canonical_def)

theorem canonical_form_witness:
  "canonical ''5'' = canonical ''5.0000000''"
  proof -
  have p: "parse_stroops ''5'' = Some 50000000" "parse_stroops ''5.0000000'' = Some 50000000" by code_simp+
  show ?thesis using canonical_form [OF p] by simp
qed

end
