(* ===== verification/Metrics.thy ===== *)
theory Metrics
  imports Prelude "HOL-Library.Word"
begin

text \<open>
  In-process metrics (\<open>src/metrics.rs\<close>). Every counter is an \<open>AtomicU64\<close> updated with
  \<open>fetch_add\<close>, which wraps modulo \<open>2 ^ 64\<close>: a \<open>64 word\<close>. The latency histogram is cumulative: a
  sample is counted in every bucket whose bound it does not exceed and always in the last one.
\<close>

type_synonym u64 = "64 word"
type_synonym u32 = "32 word"

definition LATENCY_BUCKETS_MS :: "nat list" where
  "LATENCY_BUCKETS_MS = [10, 50, 100, 250, 500, 1000, 2500, 5000, 10000]"

record webhook_metrics =
  wm_delivered :: u64
  wm_failed :: u64
  wm_retried :: u64
  wm_latency_sum_ms :: u64
  wm_latency_count :: u64
  wm_latency_buckets :: "u64 list"

definition webhook_metrics_new :: webhook_metrics where
  "webhook_metrics_new =
     \<lparr>wm_delivered = 0, wm_failed = 0, wm_retried = 0, wm_latency_sum_ms = 0,
      wm_latency_count = 0, wm_latency_buckets = replicate 10 0\<rparr>"

definition record_delivered :: "webhook_metrics \<Rightarrow> webhook_metrics" where
  "record_delivered m = m\<lparr>wm_delivered := wm_delivered m + 1\<rparr>"

definition record_failed :: "webhook_metrics \<Rightarrow> webhook_metrics" where
  "record_failed m = m\<lparr>wm_failed := wm_failed m + 1\<rparr>"

definition record_retry :: "webhook_metrics \<Rightarrow> webhook_metrics" where
  "record_retry m = m\<lparr>wm_retried := wm_retried m + 1\<rparr>"

text \<open>The loop over the bucket bounds, one \<open>fetch_add\<close> per bound that is met.\<close>

fun bump_buckets :: "nat \<Rightarrow> nat list \<Rightarrow> u64 list \<Rightarrow> u64 list" where
  "bump_buckets ms (b # bs) (c # cs) = (if ms \<le> b then c + 1 else c) # bump_buckets ms bs cs"
| "bump_buckets ms [] (c # cs) = (c + 1) # cs"
| "bump_buckets ms _ [] = []"

definition record_latency_ms :: "nat \<Rightarrow> webhook_metrics \<Rightarrow> webhook_metrics" where
  "record_latency_ms ms m =
     m\<lparr>wm_latency_sum_ms := wm_latency_sum_ms m + of_nat ms,
       wm_latency_count := wm_latency_count m + 1,
       wm_latency_buckets := bump_buckets ms LATENCY_BUCKETS_MS (wm_latency_buckets m)\<rparr>"

record auth_metrics =
  am_success :: u64
  am_failure_missing_key :: u64
  am_failure_invalid_key :: u64
  am_failure_internal_error :: u64

definition auth_metrics_new :: auth_metrics where
  "auth_metrics_new =
     \<lparr>am_success = 0, am_failure_missing_key = 0, am_failure_invalid_key = 0,
      am_failure_internal_error = 0\<rparr>"

definition auth_record_success :: "auth_metrics \<Rightarrow> auth_metrics" where
  "auth_record_success m = m\<lparr>am_success := am_success m + 1\<rparr>"

definition record_failure_missing_key :: "auth_metrics \<Rightarrow> auth_metrics" where
  "record_failure_missing_key m = m\<lparr>am_failure_missing_key := am_failure_missing_key m + 1\<rparr>"

definition record_failure_invalid_key :: "auth_metrics \<Rightarrow> auth_metrics" where
  "record_failure_invalid_key m = m\<lparr>am_failure_invalid_key := am_failure_invalid_key m + 1\<rparr>"

definition record_failure_internal_error :: "auth_metrics \<Rightarrow> auth_metrics" where
  "record_failure_internal_error m =
     m\<lparr>am_failure_internal_error := am_failure_internal_error m + 1\<rparr>"

record horizon_metrics =
  hm_success :: u64
  hm_rate_limited :: u64
  hm_error :: u64

definition horizon_metrics_new :: horizon_metrics where
  "horizon_metrics_new = \<lparr>hm_success = 0, hm_rate_limited = 0, hm_error = 0\<rparr>"

definition horizon_record_success :: "horizon_metrics \<Rightarrow> horizon_metrics" where
  "horizon_record_success m = m\<lparr>hm_success := hm_success m + 1\<rparr>"

definition record_rate_limited :: "horizon_metrics \<Rightarrow> horizon_metrics" where
  "record_rate_limited m = m\<lparr>hm_rate_limited := hm_rate_limited m + 1\<rparr>"

definition record_error :: "horizon_metrics \<Rightarrow> horizon_metrics" where
  "record_error m = m\<lparr>hm_error := hm_error m + 1\<rparr>"

section \<open>The histogram counts what it says\<close>

text \<open>What the buckets should hold after a list of samples, for any list of bounds.\<close>

definition histogram :: "nat list \<Rightarrow> nat list \<Rightarrow> u64 list" where
  "histogram bounds xs =
     map (\<lambda>b. of_nat (length (filter (\<lambda>x. x \<le> b) xs))) bounds @ [of_nat (length xs)]"

lemma bump_histogram: "bump_buckets ms bs (histogram bs xs) = histogram bs (ms # xs)"
  by (induction bs) (auto simp: histogram_def)

lemma histogram_fresh: "histogram LATENCY_BUCKETS_MS [] = replicate 10 0"
  by (simp add: histogram_def LATENCY_BUCKETS_MS_def numeral_eq_Suc)

definition samples_of :: "webhook_metrics \<Rightarrow> nat list \<Rightarrow> bool" where
  "samples_of m xs \<longleftrightarrow>
     wm_latency_buckets m = histogram LATENCY_BUCKETS_MS xs \<and>
     wm_latency_count m = of_nat (length xs) \<and>
     wm_latency_sum_ms m = of_nat (sum_list xs)"

lemma samples_fresh: "samples_of webhook_metrics_new []"
  by (simp add: samples_of_def webhook_metrics_new_def histogram_fresh)

lemma samples_record: "samples_of m xs \<Longrightarrow> samples_of (record_latency_ms ms m) (ms # xs)"
  by (simp add: samples_of_def record_latency_ms_def bump_histogram)

lemma samples_fold: "samples_of m ys \<Longrightarrow> samples_of (fold record_latency_ms xs m) (rev xs @ ys)"
  by (induction xs arbitrary: m ys) (simp_all add: samples_record)

text \<open>Below the wrap-around the buckets increase from left to right, as Prometheus requires.\<close>

lemma histogram_mono:
  assumes "length xs < 2 ^ 64" "i < j" "j < length (histogram bs xs)" "sorted bs"
  shows "unat (histogram bs xs ! i) \<le> unat (histogram bs xs ! j)"
proof -
  define c where "c b = length (filter (\<lambda>x. x \<le> b) xs)" for b
  have c: "c b \<le> length xs" for b by (simp add: c_def)
  have u: "unat (of_nat n :: u64) = n" if "n \<le> length xs" for n
    using that assms(1) by (simp add: unat_of_nat take_bit_nat_eq_self)
  show ?thesis
  proof (cases "j < length bs")
    case True
    with assms(2,4) have "bs ! i \<le> bs ! j" by (simp add: sorted_nth_mono)
    then have "c (bs ! i) \<le> c (bs ! j)"
      unfolding c_def by (induction xs) auto
    with True assms(2) c show ?thesis by (simp add: histogram_def nth_append u c_def [symmetric])
  next
    case False
    with assms(2,3) c show ?thesis
      by (auto simp: histogram_def nth_append u c_def [symmetric] less_Suc_eq)
  qed
qed

text \<open>
  After any sequence of samples each bucket holds the number of samples not above its bound, the last
  bucket and the count all of them, and the sum their total, modulo \<open>2 ^ 64\<close>.
\<close>

theorem latency_histogram:
  fixes xs :: "nat list"
  defines "m \<equiv> fold record_latency_ms xs webhook_metrics_new"
  shows "wm_latency_buckets m =
      map (\<lambda>b. of_nat (length (filter (\<lambda>x. x \<le> b) xs))) LATENCY_BUCKETS_MS @ [of_nat (length xs)] \<and>
    wm_latency_count m = of_nat (length xs) \<and> wm_latency_sum_ms m = of_nat (sum_list xs)"
  using samples_fold [OF samples_fresh, of xs]
  by (simp add: samples_of_def histogram_def m_def rev_filter [symmetric] sum_list_rev)

end
