(* ===== verification/Ip.thy ===== *)
theory Ip
  imports Metrics
begin

text \<open>
  Address classification of the SSRF guard (\<open>src/ssrf.rs\<close>: \<open>is_blocked_ip\<close> and its two halves,
  with the \<open>std::net\<close> predicates they call). The reference definition is the list of CIDR blocks the
  guard is meant to refuse; \<open>is_blocked_ipv4\<close> is shown equal to membership in it.
\<close>

unbundle bit_operations_syntax

type_synonym u8 = "8 word"
type_synonym u16 = "16 word"

datatype ipv4 = Ipv4 u8 u8 u8 u8
datatype ipv6 = Ipv6 u16 u16 u16 u16 u16 u16 u16 u16
datatype ip_addr = V4 ipv4 | V6 ipv6

section \<open>\<open>std::net::Ipv4Addr\<close> and \<open>Ipv6Addr\<close>\<close>

fun v4_is_loopback :: "ipv4 \<Rightarrow> bool" where
  "v4_is_loopback (Ipv4 a b c d) \<longleftrightarrow> a = 127"

fun v4_is_link_local :: "ipv4 \<Rightarrow> bool" where
  "v4_is_link_local (Ipv4 a b c d) \<longleftrightarrow> a = 169 \<and> b = 254"

fun v4_is_private :: "ipv4 \<Rightarrow> bool" where
  "v4_is_private (Ipv4 a b c d) \<longleftrightarrow>
     a = 10 \<or> a = 172 \<and> 16 \<le> b \<and> b \<le> 31 \<or> a = 192 \<and> b = 168"

fun v4_is_unspecified :: "ipv4 \<Rightarrow> bool" where
  "v4_is_unspecified (Ipv4 a b c d) \<longleftrightarrow> a = 0 \<and> b = 0 \<and> c = 0 \<and> d = 0"

fun v4_is_broadcast :: "ipv4 \<Rightarrow> bool" where
  "v4_is_broadcast (Ipv4 a b c d) \<longleftrightarrow> a = 255 \<and> b = 255 \<and> c = 255 \<and> d = 255"

fun v4_is_documentation :: "ipv4 \<Rightarrow> bool" where
  "v4_is_documentation (Ipv4 a b c d) \<longleftrightarrow>
     a = 192 \<and> b = 0 \<and> c = 2 \<or> a = 198 \<and> b = 51 \<and> c = 100 \<or> a = 203 \<and> b = 0 \<and> c = 113"

fun v4_is_multicast :: "ipv4 \<Rightarrow> bool" where
  "v4_is_multicast (Ipv4 a b c d) \<longleftrightarrow> 224 \<le> a \<and> a \<le> 239"

fun v6_is_loopback :: "ipv6 \<Rightarrow> bool" where
  "v6_is_loopback (Ipv6 a b c d e f g h) \<longleftrightarrow>
     a = 0 \<and> b = 0 \<and> c = 0 \<and> d = 0 \<and> e = 0 \<and> f = 0 \<and> g = 0 \<and> h = 1"

fun v6_is_unspecified :: "ipv6 \<Rightarrow> bool" where
  "v6_is_unspecified (Ipv6 a b c d e f g h) \<longleftrightarrow>
     a = 0 \<and> b = 0 \<and> c = 0 \<and> d = 0 \<and> e = 0 \<and> f = 0 \<and> g = 0 \<and> h = 0"

fun v6_segment0 :: "ipv6 \<Rightarrow> u16" where
  "v6_segment0 (Ipv6 a b c d e f g h) = a"

definition v6_is_multicast :: "ipv6 \<Rightarrow> bool" where
  "v6_is_multicast ip \<longleftrightarrow> v6_segment0 ip AND 0xff00 = 0xff00"

fun to_ipv4_mapped :: "ipv6 \<Rightarrow> ipv4 option" where
  "to_ipv4_mapped (Ipv6 a b c d e f g h) =
     (if a = 0 \<and> b = 0 \<and> c = 0 \<and> d = 0 \<and> e = 0 \<and> f = 0xffff
      then Some (Ipv4 (ucast (drop_bit 8 g)) (ucast g) (ucast (drop_bit 8 h)) (ucast h))
      else None)"

section \<open>The guard's classification\<close>

fun is_blocked_ipv4 :: "ipv4 \<Rightarrow> bool" where
  "is_blocked_ipv4 (Ipv4 a b c d) \<longleftrightarrow>
     v4_is_loopback (Ipv4 a b c d) \<or> v4_is_link_local (Ipv4 a b c d) \<or>
     v4_is_private (Ipv4 a b c d) \<or> v4_is_unspecified (Ipv4 a b c d) \<or>
     v4_is_broadcast (Ipv4 a b c d) \<or> v4_is_documentation (Ipv4 a b c d) \<or>
     v4_is_multicast (Ipv4 a b c d) \<or>
     a = 0 \<or>
     a = 100 \<and> 64 \<le> b \<and> b \<le> 127 \<or>
     a = 192 \<and> b = 0 \<and> c = 0 \<or>
     a = 198 \<and> 18 \<le> b \<and> b \<le> 19 \<or>
     240 \<le> a"

definition is_blocked_ipv6 :: "ipv6 \<Rightarrow> bool" where
  "is_blocked_ipv6 ip \<longleftrightarrow>
     v6_is_loopback ip \<or> v6_is_unspecified ip \<or> v6_is_multicast ip \<or>
     v6_segment0 ip AND 0xfe00 = 0xfc00 \<or>
     v6_segment0 ip AND 0xffc0 = 0xfe80 \<or>
     (case to_ipv4_mapped ip of None \<Rightarrow> False | Some v4 \<Rightarrow> is_blocked_ipv4 v4)"

fun is_blocked_ip :: "ip_addr \<Rightarrow> bool" where
  "is_blocked_ip (V4 v4) = is_blocked_ipv4 v4"
| "is_blocked_ip (V6 v6) = is_blocked_ipv6 v6"

section \<open>Reference: CIDR blocks\<close>

fun ipv4_nat :: "ipv4 \<Rightarrow> nat" where
  "ipv4_nat (Ipv4 a b c d) = ((unat a * 256 + unat b) * 256 + unat c) * 256 + unat d"

text \<open>A block is its first three octets (the guard needs no finer ones) and its prefix length.\<close>

definition in_cidr :: "nat \<times> nat \<times> nat \<Rightarrow> nat \<Rightarrow> ipv4 \<Rightarrow> bool" where
  "in_cidr base len ip \<longleftrightarrow>
     (case base of (a, b, c) \<Rightarrow>
        ipv4_nat ip div 2 ^ (32 - len) = ((a * 256 + b) * 256 + c) * 256 div 2 ^ (32 - len))"

definition blocked_cidrs :: "((nat \<times> nat \<times> nat) \<times> nat) list" where
  "blocked_cidrs =
     [((0, 0, 0), 8), ((10, 0, 0), 8), ((100, 64, 0), 10), ((127, 0, 0), 8), ((169, 254, 0), 16),
      ((172, 16, 0), 12), ((192, 0, 0), 24), ((192, 0, 2), 24), ((192, 168, 0), 16),
      ((198, 18, 0), 15), ((198, 51, 100), 24), ((203, 0, 113), 24), ((224, 0, 0), 4),
      ((240, 0, 0), 4)]"

lemma octet_lt: "unat (x :: u8) < 256"
  using unsigned_less [of x, where 'a = nat] by simp

lemma octet_quotients:
  fixes a b c d :: nat
  assumes "b < 256" "c < 256" "d < 256"
  defines "n \<equiv> ((a * 256 + b) * 256 + c) * 256 + d"
  shows "n div 256 = (a * 256 + b) * 256 + c" "n div 65536 = a * 256 + b" "n div 16777216 = a"
    "n div 131072 = a * 128 + b div 2" "n div 1048576 = a * 16 + b div 16"
    "n div 4194304 = a * 4 + b div 64" "n div 268435456 = a div 16"
proof -
  have 1: "n div 256 = (a * 256 + b) * 256 + c" using assms by simp
  have 2: "n div 65536 = a * 256 + b" using div_mult2_eq [of n 256 256] 1 assms by simp
  have 3: "n div 16777216 = a" using div_mult2_eq [of n 65536 256] 2 assms by simp
  show "n div 256 = (a * 256 + b) * 256 + c" "n div 65536 = a * 256 + b" "n div 16777216 = a"
    by fact+
  show "n div 131072 = a * 128 + b div 2" using div_mult2_eq [of n 65536 2] 2 by simp
  show "n div 1048576 = a * 16 + b div 16" using div_mult2_eq [of n 65536 16] 2 by simp
  show "n div 4194304 = a * 4 + b div 64" using div_mult2_eq [of n 65536 64] 2 by simp
  show "n div 268435456 = a div 16" using div_mult2_eq [of n 16777216 16] 3 by simp
qed

lemma two_digits: "b < k \<Longrightarrow> b' < k \<Longrightarrow> a * k + b = a' * k + b' \<longleftrightarrow> a = a' \<and> b = (b' :: nat)"
  by (metis add_left_cancel div_mult_self3 mod_less mod_mult_self3 mult.commute
      div_less add_cancel_right_right add.commute neq0_conv not_less_zero)

lemmas octet_nat = word_unat_eq_iff word_le_nat_alt

lemma in_cidr_cases:
  fixes p q r :: nat and a b c d :: u8
  assumes "q < 256" "r < 256"
  defines "P \<equiv> \<lambda>len. in_cidr (p, q, r) len (Ipv4 a b c d)"
  shows "P 24 \<longleftrightarrow> unat a = p \<and> unat b = q \<and> unat c = r"
    "P 16 \<longleftrightarrow> unat a = p \<and> unat b = q"
    "P 8 \<longleftrightarrow> unat a = p"
    "P 15 \<longleftrightarrow> unat a = p \<and> unat b div 2 = q div 2"
    "P 12 \<longleftrightarrow> unat a = p \<and> unat b div 16 = q div 16"
    "P 10 \<longleftrightarrow> unat a = p \<and> unat b div 64 = q div 64"
    "P 4 \<longleftrightarrow> unat a div 16 = p div 16"
proof -
  have z: "((p * 256 + q) * 256 + r) * 256 = ((p * 256 + q) * 256 + r) * 256 + 0" by simp
  note l = octet_quotients [OF octet_lt [of b] octet_lt [of c] octet_lt [of d], of "unat a"]
  note r = octet_quotients [OF assms(1,2), of 0 p, unfolded add_0_right, OF zero_less_numeral]
  have P: "P len \<longleftrightarrow> (((unat a * 256 + unat b) * 256 + unat c) * 256 + unat d) div 2 ^ (32 - len)
      = ((p * 256 + q) * 256 + r) * 256 div 2 ^ (32 - len)" for len
    by (simp only: P_def in_cidr_def prod.case ipv4_nat.simps)
  have k: "32 - 24 = (8 :: nat)" "32 - 16 = (16 :: nat)" "32 - 8 = (24 :: nat)" "32 - 15 = (17 :: nat)"
    "32 - 12 = (20 :: nat)" "32 - 10 = (22 :: nat)" "32 - 4 = (28 :: nat)" "(2 :: nat) ^ 8 = 256"
    "(2 :: nat) ^ 16 = 65536" "(2 :: nat) ^ 24 = 16777216" "(2 :: nat) ^ 17 = 131072"
    "(2 :: nat) ^ 20 = 1048576" "(2 :: nat) ^ 22 = 4194304" "(2 :: nat) ^ 28 = 268435456" by simp_all
  have bd: "unat b div 2 < 128" "q div 2 < 128" "unat b div 16 < 16" "q div 16 < 16"
    "unat b div 64 < 4" "q div 64 < 4" using octet_lt [of b] assms(1) by auto
  show "P 24 \<longleftrightarrow> unat a = p \<and> unat b = q \<and> unat c = r"
    unfolding P k l r using octet_lt [of b] octet_lt [of c] assms by (simp only: two_digits conj_assoc)
  show "P 16 \<longleftrightarrow> unat a = p \<and> unat b = q"
    unfolding P k l r using octet_lt [of b] assms by (simp only: two_digits)
  show "P 8 \<longleftrightarrow> unat a = p" unfolding P k l r ..
  show "P 15 \<longleftrightarrow> unat a = p \<and> unat b div 2 = q div 2"
    unfolding P k l r using bd by (simp only: two_digits)
  show "P 12 \<longleftrightarrow> unat a = p \<and> unat b div 16 = q div 16"
    unfolding P k l r using bd by (simp only: two_digits)
  show "P 10 \<longleftrightarrow> unat a = p \<and> unat b div 64 = q div 64"
    unfolding P k l r using bd by (simp only: two_digits)
  show "P 4 \<longleftrightarrow> unat a div 16 = p div 16" unfolding P k l r ..
qed

lemma octet_ranges:
  fixes x y :: nat
  assumes "x < 256"
  shows "y div 64 = Suc 0 \<longleftrightarrow> 64 \<le> y \<and> y \<le> 127" "y div 16 = Suc 0 \<longleftrightarrow> 16 \<le> y \<and> y \<le> 31"
    "y div 2 = 9 \<longleftrightarrow> 18 \<le> y \<and> y \<le> 19" "x div 16 = 14 \<longleftrightarrow> 224 \<le> x \<and> x \<le> 239"
    "x div 16 = 15 \<longleftrightarrow> 240 \<le> x"
  using assms by auto

lemma is_blocked_ipv4_iff:
  "is_blocked_ipv4 ip \<longleftrightarrow> (\<exists>(base, len)\<in>set blocked_cidrs. in_cidr base len ip)"
proof (cases ip)
  case (Ipv4 a b c d)
  have R: "(\<exists>(base, len)\<in>set blocked_cidrs. in_cidr base len ip) \<longleftrightarrow>
    unat a = 0 \<or> unat a = 10 \<or> unat a = 100 \<and> 64 \<le> unat b \<and> unat b \<le> 127 \<or> unat a = 127 \<or>
    unat a = 169 \<and> unat b = 254 \<or> unat a = 172 \<and> 16 \<le> unat b \<and> unat b \<le> 31 \<or>
    unat a = 192 \<and> unat b = 0 \<and> unat c = 0 \<or> unat a = 192 \<and> unat b = 0 \<and> unat c = 2 \<or>
    unat a = 192 \<and> unat b = 168 \<or> unat a = 198 \<and> 18 \<le> unat b \<and> unat b \<le> 19 \<or>
    unat a = 198 \<and> unat b = 51 \<and> unat c = 100 \<or> unat a = 203 \<and> unat b = 0 \<and> unat c = 113 \<or>
    224 \<le> unat a \<and> unat a \<le> 239 \<or> 240 \<le> unat a"
    unfolding Ipv4 blocked_cidrs_def
    by (simp add: in_cidr_cases octet_ranges [OF octet_lt])
  have L: "is_blocked_ipv4 ip \<longleftrightarrow>
    unat a = 127 \<or> unat a = 169 \<and> unat b = 254 \<or>
    (unat a = 10 \<or> unat a = 172 \<and> 16 \<le> unat b \<and> unat b \<le> 31 \<or> unat a = 192 \<and> unat b = 168) \<or>
    unat a = 0 \<and> unat b = 0 \<and> unat c = 0 \<and> unat d = 0 \<or>
    unat a = 255 \<and> unat b = 255 \<and> unat c = 255 \<and> unat d = 255 \<or>
    (unat a = 192 \<and> unat b = 0 \<and> unat c = 2 \<or> unat a = 198 \<and> unat b = 51 \<and> unat c = 100 \<or>
     unat a = 203 \<and> unat b = 0 \<and> unat c = 113) \<or>
    224 \<le> unat a \<and> unat a \<le> 239 \<or> unat a = 0 \<or>
    unat a = 100 \<and> 64 \<le> unat b \<and> unat b \<le> 127 \<or> unat a = 192 \<and> unat b = 0 \<and> unat c = 0 \<or>
    unat a = 198 \<and> 18 \<le> unat b \<and> unat b \<le> 19 \<or> 240 \<le> unat a"
    unfolding Ipv4 is_blocked_ipv4.simps v4_is_loopback.simps v4_is_link_local.simps
      v4_is_private.simps v4_is_unspecified.simps v4_is_broadcast.simps v4_is_documentation.simps
      v4_is_multicast.simps octet_nat
    by simp
  show ?thesis unfolding L R by (rule iffI; elim disjE conjE; simp)
qed

section \<open>IPv6 prefixes\<close>

lemma high_bits [simp]: "16 \<le> n \<Longrightarrow> \<not> bit (a :: u16) n"
  using bit_imp_le_length [of a n] by auto

lemma word16_eq: "(a :: u16) = b \<longleftrightarrow> (\<forall>i\<in>set [0, 1, 2, 3, 4, 5, 6, 7, 8, 9, 10, 11, 12, 13, 14, 15]. bit a i = bit b i)"
proof
  assume r: "\<forall>i\<in>set [0, 1, 2, 3, 4, 5, 6, 7, 8, 9, 10, 11, 12, 13, 14, 15]. bit a i = bit b i"
  have "bit a n = bit b n" if "n < LENGTH(16)" for n
  proof -
    have "n \<in> set [0, 1, 2, 3, 4, 5, 6, 7, 8, 9, 10, 11, 12, 13, 14, 15]" using that by simp presburger
    then show ?thesis using r by blast
  qed
  then show "a = b" by (rule bit_word_eqI)
qed simp

lemma masked_prefix:
  fixes s :: u16
  shows "s AND 0xfe00 = 0xfc00 \<longleftrightarrow> 0xfc00 \<le> unat s \<and> unat s \<le> 0xfdff"
    and "s AND 0xffc0 = 0xfe80 \<longleftrightarrow> 0xfe80 \<le> unat s \<and> unat s \<le> 0xfebf"
    and "s AND 0xff00 = 0xff00 \<longleftrightarrow> 0xff00 \<le> unat s"
proof -
  have q: "unat (drop_bit n s) = unat s div 2 ^ n" for n by (simp only: unat_drop_bit_eq drop_bit_nat_def)
  have l: "unat s < 65536" using unsigned_less [of s] by simp
  have "s AND 0xfe00 = 0xfc00 \<longleftrightarrow> drop_bit 9 s = 0x7e"
    by (simp add: word16_eq bit_drop_bit_eq bit_and_iff)
  also have "\<dots> \<longleftrightarrow> unat s div 512 = 0x7e" using q [of 9] by (simp add: word_unat_eq_iff)
  finally show "s AND 0xfe00 = 0xfc00 \<longleftrightarrow> 0xfc00 \<le> unat s \<and> unat s \<le> 0xfdff" by auto
  have "s AND 0xffc0 = 0xfe80 \<longleftrightarrow> drop_bit 6 s = 0x3fa"
    by (simp add: word16_eq bit_drop_bit_eq bit_and_iff)
  also have "\<dots> \<longleftrightarrow> unat s div 64 = 0x3fa" using q [of 6] by (simp add: word_unat_eq_iff)
  finally show "s AND 0xffc0 = 0xfe80 \<longleftrightarrow> 0xfe80 \<le> unat s \<and> unat s \<le> 0xfebf" by auto
  have "s AND 0xff00 = 0xff00 \<longleftrightarrow> drop_bit 8 s = 0xff"
    by (simp add: word16_eq bit_drop_bit_eq bit_and_iff)
  also have "\<dots> \<longleftrightarrow> unat s div 256 = 0xff" using q [of 8] by (simp add: word_unat_eq_iff)
  finally show "s AND 0xff00 = 0xff00 \<longleftrightarrow> 0xff00 \<le> unat s" using l by auto
qed

text \<open>
  C29: the guard refuses exactly the listed blocks: an IPv4 address in one of the reserved CIDR blocks; an
  IPv6 address that is unspecified, loopback, unique local, link local or multicast, or that carries a
  refused IPv4 address.
\<close>

theorem blocked_addresses:
  "is_blocked_ip ip \<longleftrightarrow>
     (case ip of
        V4 v4 \<Rightarrow> \<exists>(base, len)\<in>set blocked_cidrs. in_cidr base len v4
      | V6 v6 \<Rightarrow>
          v6 = Ipv6 0 0 0 0 0 0 0 0 \<or> v6 = Ipv6 0 0 0 0 0 0 0 1 \<or>
          (let s = unat (v6_segment0 v6) in
             0xfc00 \<le> s \<and> s \<le> 0xfdff \<or> 0xfe80 \<le> s \<and> s \<le> 0xfebf \<or> 0xff00 \<le> s) \<or>
          (\<exists>g h. v6 = Ipv6 0 0 0 0 0 0xffff g h \<and>
             is_blocked_ip (V4 (Ipv4 (ucast (drop_bit 8 g)) (ucast g) (ucast (drop_bit 8 h)) (ucast h)))))"
proof (cases ip)
  case (V4 v4)
  then show ?thesis by (simp add: is_blocked_ipv4_iff)
next
  case (V6 v6)
  obtain a b c d e f g h where v: "v6 = Ipv6 a b c d e f g h" by (cases v6)
  have m: "(case to_ipv4_mapped v6 of None \<Rightarrow> False | Some v4 \<Rightarrow> is_blocked_ipv4 v4) \<longleftrightarrow>
    (\<exists>g h. v6 = Ipv6 0 0 0 0 0 0xffff g h \<and>
       is_blocked_ipv4 (Ipv4 (ucast (drop_bit 8 g)) (ucast g) (ucast (drop_bit 8 h)) (ucast h)))"
    unfolding v by (simp del: is_blocked_ipv4.simps) blast
  have l: "v6_is_loopback v6 \<longleftrightarrow> v6 = Ipv6 0 0 0 0 0 0 0 1" "v6_is_unspecified v6 \<longleftrightarrow> v6 = Ipv6 0 0 0 0 0 0 0 0"
    unfolding v by simp_all
  show ?thesis
    unfolding V6 is_blocked_ip.simps is_blocked_ipv6_def v6_is_multicast_def m l masked_prefix Let_def ip_addr.case
    by blast
qed

end
