(* ===== verification/Strkey.thy ===== *)
theory Strkey
  imports Ip
begin

text \<open>
  Stellar account addresses (\<open>src/strkey.rs\<close>): unpadded base32 over 56 characters, a version byte,
  32 key bytes and a little-endian CRC16-XModem checksum.
\<close>

datatype strkey_error = Length | Alphabet | Version | Checksum

definition ED25519_PUBLIC_KEY_VERSION :: u8 where
  "ED25519_PUBLIC_KEY_VERSION = push_bit 3 6"

definition ACCOUNT_STRKEY_LEN :: nat where "ACCOUNT_STRKEY_LEN = 56"
definition ACCOUNT_DECODED_LEN :: nat where "ACCOUNT_DECODED_LEN = 35"

definition ALPHABET :: string where
  "ALPHABET = ''ABCDEFGHIJKLMNOPQRSTUVWXYZ234567''"

fun position :: "char \<Rightarrow> string \<Rightarrow> nat option" where
  "position c [] = None"
| "position c (a # as) = (if a = c then Some 0 else map_option Suc (position c as))"

text \<open>The decoding loop: \<open>buffer\<close> and \<open>bits\<close> are the \<open>u32\<close> accumulators of the source.\<close>

fun base32_loop :: "string \<Rightarrow> u32 \<Rightarrow> nat \<Rightarrow> u8 list \<Rightarrow> u8 list option" where
  "base32_loop [] buffer bits out = Some out"
| "base32_loop (c # cs) buffer bits out =
     (case position c ALPHABET of
        None \<Rightarrow> None
      | Some v \<Rightarrow>
          (let buffer = push_bit 5 buffer OR of_nat v; bits = bits + 5 in
           if 8 \<le> bits
           then (let bits = bits - 8 in
                 base32_loop cs (buffer AND (push_bit bits 1 - 1)) bits
                   (out @ [ucast (drop_bit bits buffer)]))
           else base32_loop cs buffer bits out))"

definition base32_decode :: "string \<Rightarrow> u8 list option" where
  "base32_decode s = base32_loop s 0 0 []"

definition crc_bit :: "u16 \<Rightarrow> u16" where
  "crc_bit crc = (if crc AND 0x8000 \<noteq> 0 then push_bit 1 crc XOR 0x1021 else push_bit 1 crc)"

definition crc_byte :: "u16 \<Rightarrow> u8 \<Rightarrow> u16" where
  "crc_byte crc b = (crc_bit ^^ 8) (crc XOR push_bit 8 (ucast b))"

definition crc16_xmodem :: "u8 list \<Rightarrow> u16" where
  "crc16_xmodem data = foldl crc_byte 0 data"

definition from_le_bytes :: "u8 \<Rightarrow> u8 \<Rightarrow> u16" where
  "from_le_bytes lo hi = ucast lo OR push_bit 8 (ucast hi)"

definition validate_account_id :: "string \<Rightarrow> strkey_error + unit" where
  "validate_account_id s =
     (if length s \<noteq> ACCOUNT_STRKEY_LEN then Inl Length
      else (case base32_decode s of
              None \<Rightarrow> Inl Alphabet
            | Some decoded \<Rightarrow>
                if length decoded \<noteq> ACCOUNT_DECODED_LEN then Inl Length
                else if decoded ! 0 \<noteq> ED25519_PUBLIC_KEY_VERSION then Inl Version
                else
                  let payload = take (length decoded - 2) decoded;
                      checksum = drop (length decoded - 2) decoded;
                      expected = from_le_bytes (checksum ! 0) (checksum ! 1) in
                  if crc16_xmodem payload \<noteq> expected then Inl Checksum else Inr ()))"

definition is_valid_account_id :: "string \<Rightarrow> bool" where
  "is_valid_account_id s \<longleftrightarrow> validate_account_id s = Inr ()"

section \<open>The decoder's length and alphabet\<close>

lemma position_None: "position c as = None \<longleftrightarrow> c \<notin> set as"
  by (induction as) auto

lemma position_lt: "position c as = Some v \<Longrightarrow> v < length as \<and> as ! v = c"
proof (induction as arbitrary: v)
  case Nil
  then show ?case by simp
next
  case (Cons a as)
  then show ?case by (cases v) (auto split: if_splits)
qed

lemma base32_loop_None:
  "base32_loop s buffer bits out = None \<longleftrightarrow> \<not> set s \<subseteq> set ALPHABET"
  by (induction s arbitrary: buffer bits out)
    (auto simp: Let_def position_None split: option.splits dest: position_lt)

lemma base32_loop_length:
  "bits < 8 \<Longrightarrow> base32_loop s buffer bits out = Some r \<Longrightarrow>
   length r = length out + (bits + 5 * length s) div 8"
proof (induction s arbitrary: buffer bits out)
  case Nil
  then show ?case by simp
next
  case (Cons c s)
  obtain v where v: "position c ALPHABET = Some v" using Cons.prems by (auto split: option.splits)
  show ?case
  proof (cases "8 \<le> bits + 5")
    case True
    then have "length r = Suc (length out) + (bits + 5 - 8 + 5 * length s) div 8"
      using Cons.prems v by (auto simp: Let_def dest!: Cons.IH [rotated])
    moreover have "bits + 5 * length (c # s) = 8 + (bits + 5 - 8 + 5 * length s)" using True by simp
    ultimately show ?thesis by simp
  next
    case False
    then have "length r = length out + (bits + 5 + 5 * length s) div 8"
      using Cons.prems v by (auto simp: Let_def dest!: Cons.IH [rotated])
    then show ?thesis by (simp add: algebra_simps)
  qed
qed

lemma base32_decode_length: "base32_decode s = Some r \<Longrightarrow> length r = 5 * length s div 8"
  unfolding base32_decode_def using base32_loop_length [of 0 s 0 "[]" r] by simp

text \<open>The second length check of the source can never fire: 56 characters are 35 bytes.\<close>

lemma decoded_length:
  "length s = ACCOUNT_STRKEY_LEN \<Longrightarrow> base32_decode s = Some r \<Longrightarrow> length r = ACCOUNT_DECODED_LEN"
  using base32_decode_length by (simp add: ACCOUNT_STRKEY_LEN_def ACCOUNT_DECODED_LEN_def)

section \<open>The checksum is linear\<close>

lemma crc_bit_xor: "crc_bit (x XOR y) = crc_bit x XOR crc_bit y"
proof -
  have b: "x AND 0x8000 \<noteq> 0 \<longleftrightarrow> bit x 15" for x :: u16
    using bit_iff_and_push_bit_not_eq_0 [of x 15] by simp
  show ?thesis
    by (simp add: crc_bit_def b bit_xor_iff push_bit_xor xor.assoc xor.left_commute xor.commute)
qed

lemma crc_bits_xor: "(crc_bit ^^ n) (x XOR y) = (crc_bit ^^ n) x XOR (crc_bit ^^ n) y"
  by (induction n) (simp_all add: crc_bit_xor)

lemma crc_byte_xor: "crc_byte (x XOR y) (a XOR b) = crc_byte x a XOR crc_byte y b"
proof -
  have "(x XOR y) XOR push_bit 8 (ucast (a XOR b)) =
        (x XOR push_bit 8 (ucast a)) XOR (y XOR push_bit 8 (ucast b))"
    by (simp add: push_bit_xor unsigned_xor_eq xor.assoc xor.left_commute xor.commute)
  then show ?thesis unfolding crc_byte_def by (simp only: crc_bits_xor)
qed

lemma crc_fold_xor:
  "length as = length bs \<Longrightarrow>
   foldl crc_byte (x XOR y) (map2 (XOR) as bs) = foldl crc_byte x as XOR foldl crc_byte y bs"
  by (induction as bs arbitrary: x y rule: list_induct2) (simp_all add: crc_byte_xor)

theorem crc16_xor:
  "length as = length bs \<Longrightarrow> crc16_xmodem (map2 (XOR) as bs) = crc16_xmodem as XOR crc16_xmodem bs"
  unfolding crc16_xmodem_def using crc_fold_xor [of as bs 0 0] by simp

lemma crc_bit_0: "crc_bit z = 0 \<longleftrightarrow> z = 0"
proof
  assume z: "crc_bit z = 0"
  have b: "z AND 0x8000 \<noteq> 0 \<longleftrightarrow> bit z 15"
    using bit_iff_and_push_bit_not_eq_0 [of z 15] by simp
  have "\<not> bit (push_bit 1 z) 0" by (simp only: bit_push_bit_iff) simp
  then have "bit (crc_bit z) 0 \<longleftrightarrow> bit z 15"
    unfolding crc_bit_def b by (cases "bit z 15") (simp_all only: if_True if_False bit_xor_iff, simp_all)
  with z have h: "\<not> bit z 15" by simp
  then have p: "push_bit 1 z = 0" using z by (simp only: crc_bit_def b if_False)
  have low: "\<not> bit z k" if "k < 15" for k
  proof -
    have "bit (push_bit 1 z) (Suc k) \<longleftrightarrow> bit z k"
      using that by (simp only: bit_push_bit_iff) simp
    then show ?thesis unfolding p by simp
  qed
  have "\<not> bit z k" if "k < LENGTH(16)" for k using h low [of k] that by (cases "k = 15") auto
  then show "z = 0" by (intro bit_word_eqI) simp
qed (simp add: crc_bit_def)

lemma crc_bits_0: "(crc_bit ^^ n) z = 0 \<longleftrightarrow> z = 0"
  by (induction n) (simp_all add: crc_bit_0)

lemma crc_zeros_0: "foldl crc_byte z (replicate n 0) = 0 \<longleftrightarrow> z = 0"
  by (induction n arbitrary: z) (simp_all add: crc_byte_def crc_bits_0)

lemma ucast_byte_0: "push_bit 8 (ucast (e :: u8) :: u16) = 0 \<longleftrightarrow> e = 0"
proof
  assume p: "push_bit 8 (ucast e :: u16) = 0"
  have "\<not> bit e k" if "k < LENGTH(8)" for k
  proof -
    have "bit (push_bit 8 (ucast e :: u16)) (8 + k) \<longleftrightarrow> bit e k"
      using that by (simp only: bit_push_bit_iff bit_unsigned_iff) simp
    then show ?thesis unfolding p by simp
  qed
  then show "e = 0" by (intro bit_word_eqI) simp
qed simp

lemma crc_one_byte: "crc16_xmodem (replicate m 0 @ e # replicate n 0) = 0 \<longleftrightarrow> e = 0"
proof -
  have z: "foldl crc_byte 0 (replicate m 0) = 0" by (simp add: crc_zeros_0)
  show ?thesis
    by (simp add: crc16_xmodem_def crc_zeros_0 z) (simp add: crc_byte_def crc_bits_0 ucast_byte_0)
qed

lemma crc_distinguishes:
  assumes "crc16_xmodem (us @ a # vs) = crc16_xmodem (us @ b # vs)"
  shows "a = b"
proof -
  have x: "map2 (XOR) us us = replicate (length us) 0" for us :: "u8 list"
    by (induction us) simp_all
  have "crc16_xmodem (map2 (XOR) (us @ a # vs) (us @ b # vs)) = 0"
    using assms by (subst crc16_xor) simp_all
  then have "a XOR b = 0" by (simp add: x crc_one_byte)
  then have "(a XOR b) XOR b = b" by simp
  then show ?thesis by (simp add: xor.assoc)
qed

section \<open>The properties\<close>

text \<open>
  C40: an address is accepted exactly when it is 56 characters of the base32 alphabet that decode to the
  version byte of an account, 32 key bytes and the little-endian checksum of what precedes it.
\<close>

theorem account_id_iff:
  "validate_account_id s = Inr () \<longleftrightarrow>
     length s = 56 \<and> set s \<subseteq> set ALPHABET \<and>
     (\<exists>key lo hi. base32_decode s = Some (48 # key @ [lo, hi]) \<and> length key = 32 \<and>
        crc16_xmodem (48 # key) = from_le_bytes lo hi)"
proof (cases "length s = 56 \<and> set s \<subseteq> set ALPHABET")
  case False
  then have "length s \<noteq> 56 \<or> base32_decode s = None" by (simp add: base32_decode_def base32_loop_None)
  with False show ?thesis by (auto simp: validate_account_id_def ACCOUNT_STRKEY_LEN_def)
next
  case True
  then obtain d where d: "base32_decode s = Some d"
    using base32_loop_None [of s 0 0 "[]"] by (auto simp: base32_decode_def)
  then have l: "length d = 35" using True decoded_length [of s d] by (simp add: ACCOUNT_STRKEY_LEN_def ACCOUNT_DECODED_LEN_def)
  obtain v r where r: "d = v # r" using l by (cases d) auto
  define key where "key = take 32 r"
  have "length (drop 32 r) = 2" using l r by simp
  then obtain lo hi where t: "drop 32 r = [lo, hi]"
    by (auto simp only: numeral_2_eq_2 length_Suc_conv length_0_conv)
  have rr: "r = key @ [lo, hi]" "length key = 32" using t l r append_take_drop_id [of 32 r] by (simp_all add: key_def)
  have version: "ED25519_PUBLIC_KEY_VERSION = 48" by (simp add: ED25519_PUBLIC_KEY_VERSION_def)
  show ?thesis
    using True d l unfolding r rr(1) validate_account_id_def Let_def
    by (auto simp: ACCOUNT_STRKEY_LEN_def ACCOUNT_DECODED_LEN_def version rr(2) nth_append)
qed

text \<open>
  The checksum catches every single wrong byte: two payloads that differ at most at one position
  have the same checksum only when they are equal.
\<close>

theorem checksum_detects_byte: "crc16_xmodem (us @ a # vs) = crc16_xmodem (us @ b # vs) \<longleftrightarrow> a = b"
  using crc_distinguishes by blast

end
