(* ===== verification/External.thy ===== *)
theory External
  imports Strkey Ip
begin

text \<open>
  The boundary of the development. The record \<open>ext\<close> holds the pure functions of the crates the
  gateway calls (Unicode upper-casing tables, URL and CIDR parsing, hashing, JSON), each an argument
  of the definitions that use it. The Horizon types (\<open>src/horizon.rs\<close>) are declared here because the
  JSON decoders produce them.
\<close>

section \<open>Horizon records\<close>

record transaction_ref =
  tr_memo :: "string option"
  tr_memo_type :: "string option"
  tr_successful :: "bool option"

record horizon_payment =
  hp_kind :: string
  hp_amount :: "string option"
  hp_asset_type :: "string option"
  hp_asset_code :: "string option"
  hp_asset_issuer :: "string option"
  hp_to :: "string option"
  hp_transaction_hash :: "string option"
  hp_transaction :: "transaction_ref option"
  hp_paging_token :: "string option"
  hp_created_at :: "string option"

record account_balance =
  ab_asset_type :: "string option"
  ab_asset_code :: "string option"
  ab_asset_issuer :: "string option"

section \<open>Third-party functions\<close>

datatype json =
    JNull
  | JBool bool
  | JInt int
  | JStr string
  | JArr "json list"
  | JObj "(string \<times> json) list"

record url =
  u_scheme :: string
  u_host_str :: "string option"
  u_port_or_known_default :: "nat option"

type_synonym ip_net = "ip_addr \<times> nat"

record ext =
  x_to_uppercase :: "string \<Rightarrow> string"
  x_header_value_ok :: "string \<Rightarrow> bool"
  x_parse_ipnet :: "string \<Rightarrow> ip_net option"
  x_net_contains :: "ip_net \<Rightarrow> ip_addr \<Rightarrow> bool"
  x_parse_ip :: "string \<Rightarrow> ip_addr option"
  x_show_ip :: "ip_addr \<Rightarrow> string"
  x_url_parse :: "string \<Rightarrow> url option"
  x_sha256_hex :: "string \<Rightarrow> string"
  x_hmac_sha256_hex :: "string \<Rightarrow> string \<Rightarrow> string"
  x_json_to_string :: "json \<Rightarrow> string"
  x_json_parse :: "string \<Rightarrow> json option"
  x_decode_page :: "string \<Rightarrow> horizon_payment list option"
  x_decode_account :: "string \<Rightarrow> account_balance list option"
  x_decode_payment :: "string \<Rightarrow> horizon_payment option"
  x_utf8_lossy :: "string \<Rightarrow> string"
  x_hex_encode :: "string \<Rightarrow> string"
  x_hex_decode :: "string \<Rightarrow> string option"

text \<open>What the cursors rely on: the \<open>hex\<close> crate decodes what it encoded.\<close>

definition hex_ok :: "ext \<Rightarrow> bool" where
  "hex_ok x \<longleftrightarrow> (\<forall>s. x_hex_decode x (x_hex_encode x s) = Some s)"

definition hex_digit :: "nat \<Rightarrow> char" where
  "hex_digit n = (if n < 10 then char_of (48 + n) else char_of (87 + n))"

definition hex_value :: "char \<Rightarrow> nat option" where
  "hex_value c =
     (if 48 \<le> byte c \<and> byte c \<le> 57 then Some (byte c - 48)
      else if 97 \<le> byte c \<and> byte c \<le> 102 then Some (byte c - 87)
      else if 65 \<le> byte c \<and> byte c \<le> 70 then Some (byte c - 55) else None)"

fun hex_encode :: "string \<Rightarrow> string" where
  "hex_encode [] = []"
| "hex_encode (c # cs) = hex_digit (byte c div 16) # hex_digit (byte c mod 16) # hex_encode cs"

fun hex_decode :: "string \<Rightarrow> string option" where
  "hex_decode [] = Some []"
| "hex_decode (a # b # cs) =
     (case (hex_value a, hex_value b, hex_decode cs) of
        (Some h, Some l, Some r) \<Rightarrow> Some (char_of (16 * h + l) # r)
      | _ \<Rightarrow> None)"
| "hex_decode [a] = None"

lemma hex_value_digit: "n < 16 \<Longrightarrow> hex_value (hex_digit n) = Some n"
  by (simp add: hex_value_def hex_digit_def byte_char_of)

lemma hex_decode_encode: "hex_decode (hex_encode s) = Some s"
proof (induction s)
  case (Cons c s)
  have "byte c div 16 < 16" using byte_lt [of c] by (simp add: less_mult_imp_div_less)
  with Cons show ?case by (simp add: hex_value_digit char_eq_byte byte_char_of byte_lt)
qed simp

text \<open>A concrete instance, on which witnesses evaluate: the ASCII fragment of each function.\<close>

definition ext0 :: ext where
  "ext0 =
     \<lparr>x_to_uppercase = to_ascii_uppercase, x_header_value_ok = (\<lambda>s. True),
      x_parse_ipnet = (\<lambda>s. None), x_net_contains = (\<lambda>n a. False),
      x_parse_ip = (\<lambda>s. None), x_show_ip = (\<lambda>a. []),
      x_url_parse = (\<lambda>s. Some \<lparr>u_scheme = ''https'', u_host_str = Some s,
                               u_port_or_known_default = Some 443\<rparr>),
      x_sha256_hex = (\<lambda>s. s), x_hmac_sha256_hex = (\<lambda>k m. k @ m),
      x_json_to_string = (\<lambda>j. ''{}''), x_json_parse = (\<lambda>s. None),
      x_decode_page = (\<lambda>s. None), x_decode_account = (\<lambda>s. None), x_decode_payment = (\<lambda>s. None),
      x_utf8_lossy = (\<lambda>s. s), x_hex_encode = hex_encode, x_hex_decode = hex_decode\<rparr>"

lemma hex_ok_ext0: "hex_ok ext0"
  by (simp add: hex_ok_def ext0_def hex_decode_encode)

lemma ext0_simps [simp]:
  "x_to_uppercase ext0 = to_ascii_uppercase"
  "x_url_parse ext0 s =
     Some \<lparr>u_scheme = ''https'', u_host_str = Some s, u_port_or_known_default = Some 443\<rparr>"
  "x_sha256_hex ext0 s = s"
  "x_hmac_sha256_hex ext0 k m = k @ m"
  "x_json_to_string ext0 j = ''{}''"
  "x_json_parse ext0 s = None"
  "x_utf8_lossy ext0 s = s"
  by (simp_all add: ext0_def)

end
