(* ===== verification/Config.thy ===== *)
theory Config
  imports External
begin

text \<open>
  Configuration (\<open>src/config.rs\<close>): reading the environment, parsing the asset allow-list and the
  listener mode, and the boot-time validation of addresses, timing and secrets. Integer fields keep
  the width of their Rust type: unsigned ones are \<open>nat\<close> read by a range-checked parser, signed ones
  \<open>int\<close>; casts and saturating operations are written out.

  The lemmas turn each validator's success into the condition it stands for: \<open>addresses_ok\<close> and
  \<open>timing_ok\<close>.
\<close>

section \<open>Assets and listener mode\<close>

datatype listener_mode = Stream | Poll

record accepted_asset =
  a_code :: string
  a_issuer :: "string option"

datatype config_error =
    ListenerModeInvalid string
  | SecretMissing | SecretEmpty | SecretWhitespace | SecretPlaceholder | SecretTooShort nat
  | CorsInvalidOrigin string | CorsRequiredOnPublic
  | InvalidCidr string
  | InvalidValue string string
  | GatewayAddress strkey_error
  | IssuerAddress string strkey_error
  | AssetWithoutIssuer string
  | DuplicateAssetCode string
  | PollIntervalZero | CursorStalenessZero | PaymentTtlZero | TtlBelowPollInterval
  | ExpiryBatchNotPositive | RetryAttemptsZero | RetryDelayZero | RetryMaxDelayBelowDelay
  | GraceBelowWorstCase nat | JitterNegative | RequestTimeoutZero | BackoffMaxBelowInitial

definition listener_mode_parse :: "string \<Rightarrow> config_error + listener_mode" where
  "listener_mode_parse raw =
     (let s = to_ascii_lowercase (trim raw) in
      if s = '''' then Inr Stream
      else if s = ''stream'' then Inr Stream
      else if s = ''poll'' then Inr Poll
      else Inl (ListenerModeInvalid s))"

definition parse_asset :: "ext \<Rightarrow> string \<Rightarrow> accepted_asset" where
  "parse_asset x entry =
     (case split_once (CHR '':'') entry of
        Some (code, issuer) \<Rightarrow>
          \<lparr>a_code = x_to_uppercase x (trim code), a_issuer = Some (trim issuer)\<rparr>
      | None \<Rightarrow> \<lparr>a_code = x_to_uppercase x (trim entry), a_issuer = None\<rparr>)"

definition csv_entries :: "string \<Rightarrow> string list" where
  "csv_entries raw = filter (\<lambda>s. s \<noteq> []) (map trim (split_on (CHR '','') raw))"

definition parse_list :: "ext \<Rightarrow> string \<Rightarrow> accepted_asset list" where
  "parse_list x raw = map (parse_asset x) (csv_entries raw)"

definition default_list :: "accepted_asset list" where
  "default_list =
     [\<lparr>a_code = ''XLM'', a_issuer = None\<rparr>,
      \<lparr>a_code = ''USDC'',
       a_issuer = Some ''GBBD47IF6LWK7P7MDEVSCWR7DPUWV3NY3DTQEVFL4NAT4AQH3ZLLFLA5''\<rparr>]"

section \<open>The configuration record\<close>

record config =
  c_port :: nat
  c_database_url :: string
  c_network :: string
  c_horizon_url :: string
  c_gateway_public :: string
  c_accepted_assets :: "accepted_asset list"
  c_webhook_secret :: string
  c_webhook_retry_attempts :: nat
  c_webhook_retry_delay_ms :: nat
  c_webhook_retry_max_delay_ms :: nat
  c_allowed_webhook_schemes :: "string list"
  c_webhook_timeout_secs :: nat
  c_webhook_redrive_interval_secs :: nat
  c_webhook_redrive_concurrency :: nat
  c_webhook_redrive_max_attempts :: nat
  c_webhook_redrive_grace_secs :: int
  c_webhook_redrive_backoff_initial_secs :: int
  c_webhook_redrive_backoff_max_secs :: int
  c_webhook_redrive_jitter_secs :: int
  c_retention_interval_secs :: nat
  c_webhook_delivery_retention_days :: int
  c_idempotency_retention_days :: int
  c_poll_interval_secs :: nat
  c_cursor_staleness_multiple :: nat
  c_payment_ttl_secs :: nat
  c_expiry_batch_size :: int
  c_rate_limit_requests_per_sec :: nat
  c_db_pool_max_connections :: nat
  c_db_busy_timeout_ms :: nat
  c_cors_allowed_origins :: "string list"
  c_listener_mode :: listener_mode
  c_webhook_allow_private_targets :: bool
  c_admin_provisioning_secret :: string
  c_request_timeout_secs :: nat
  c_trusted_proxy_cidrs :: "ip_net list"

definition gateway_configured :: "config \<Rightarrow> bool" where
  "gateway_configured c \<longleftrightarrow> c_gateway_public c \<noteq> [] \<and> c_gateway_public c \<noteq> ''UNCONFIGURED''"

section \<open>Validation\<close>

fun check_assets :: "accepted_asset list \<Rightarrow> config_error + unit" where
  "check_assets [] = Inr ()"
| "check_assets (a # as) =
     (case a_issuer a of
        Some issuer \<Rightarrow>
          (case validate_account_id issuer of
             Inl e \<Rightarrow> Inl (IssuerAddress (a_code a) e)
           | Inr _ \<Rightarrow> check_assets as)
      | None \<Rightarrow>
          if \<not> eq_ignore_ascii_case (a_code a) ''XLM'' then Inl (AssetWithoutIssuer (a_code a))
          else check_assets as)"

fun check_codes :: "string set \<Rightarrow> accepted_asset list \<Rightarrow> config_error + unit" where
  "check_codes seen [] = Inr ()"
| "check_codes seen (a # as) =
     (let code = to_ascii_uppercase (a_code a) in
      if code \<in> seen then Inl (DuplicateAssetCode code) else check_codes (insert code seen) as)"

definition validate_addresses :: "config \<Rightarrow> config_error + unit" where
  "validate_addresses c =
     (case (if gateway_configured c then validate_account_id (c_gateway_public c) else Inr ()) of
        Inl e \<Rightarrow> Inl (GatewayAddress e)
      | Inr _ \<Rightarrow>
          (case check_assets (c_accepted_assets c) of
             Inl e \<Rightarrow> Inl e
           | Inr _ \<Rightarrow> check_codes {} (c_accepted_assets c)))"

text \<open>\<open>2u64.saturating_pow(attempt - 1)\<close> and the un-jittered delay before attempt \<open>attempt + 1\<close>.\<close>

definition inline_step_ms :: "config \<Rightarrow> nat \<Rightarrow> nat" where
  "inline_step_ms c attempt =
     min (sat_u64 (c_webhook_retry_delay_ms c * sat_u64 (2 ^ (attempt - 1))))
       (c_webhook_retry_max_delay_ms c)"

definition worst_case_inline_delivery_secs :: "config \<Rightarrow> nat" where
  "worst_case_inline_delivery_secs c =
     (let attempts = max (c_webhook_retry_attempts c) 1;
          timeouts = sat_u64 (attempts * c_webhook_timeout_secs c);
          delays_ms = fold (\<lambda>a acc. sat_u64 (acc + inline_step_ms c a)) [1..<attempts] 0
      in sat_u64 (timeouts + (delays_ms + 999) div 1000))"

definition validate_timing :: "config \<Rightarrow> config_error + unit" where
  "validate_timing c =
     (if c_poll_interval_secs c = 0 then Inl PollIntervalZero
      else if c_cursor_staleness_multiple c = 0 then Inl CursorStalenessZero
      else if c_payment_ttl_secs c = 0 then Inl PaymentTtlZero
      else if c_payment_ttl_secs c < c_poll_interval_secs c then Inl TtlBelowPollInterval
      else if c_expiry_batch_size c \<le> 0 then Inl ExpiryBatchNotPositive
      else if c_webhook_retry_attempts c = 0 then Inl RetryAttemptsZero
      else if 1 < c_webhook_retry_attempts c \<and> c_webhook_retry_delay_ms c = 0 then Inl RetryDelayZero
      else if c_webhook_retry_max_delay_ms c < c_webhook_retry_delay_ms c then Inl RetryMaxDelayBelowDelay
      else if c_webhook_redrive_grace_secs c < wrap_i64 (int (worst_case_inline_delivery_secs c))
        then Inl (GraceBelowWorstCase (worst_case_inline_delivery_secs c))
      else if c_webhook_redrive_jitter_secs c < 0 then Inl JitterNegative
      else if c_request_timeout_secs c = 0 then Inl RequestTimeoutZero
      else if c_webhook_redrive_backoff_max_secs c < c_webhook_redrive_backoff_initial_secs c
        then Inl BackoffMaxBelowInitial
      else Inr ())"

definition validate_webhook_secret :: "string option \<Rightarrow> config_error + string" where
  "validate_webhook_secret raw =
     (case raw of
        None \<Rightarrow> Inl SecretMissing
      | Some secret \<Rightarrow>
          if secret = [] then Inl SecretEmpty
          else if trim secret = [] then Inl SecretWhitespace
          else if secret \<in> set [''default-secret'', ''your_webhook_signing_secret'',
                                ''REPLACE_ME_webhook_signing_secret'']
                  \<or> starts_with ''REPLACE_ME_'' secret then Inl SecretPlaceholder
          else if length secret < 32 then Inl (SecretTooShort (length secret))
          else Inr secret)"

section \<open>Reading the environment\<close>

type_synonym env_vars = "string \<Rightarrow> string option"

definition env_or :: "env_vars \<Rightarrow> string \<Rightarrow> string \<Rightarrow> string" where
  "env_or vars key def = (case vars key of Some v \<Rightarrow> v | None \<Rightarrow> def)"

definition parse_env :: "(string \<Rightarrow> 'a option) \<Rightarrow> env_vars \<Rightarrow> string \<Rightarrow> 'a \<Rightarrow> config_error + 'a" where
  "parse_env parse vars key def =
     (case vars key of
        None \<Rightarrow> Inr def
      | Some raw \<Rightarrow> (case parse raw of Some v \<Rightarrow> Inr v | None \<Rightarrow> Inl (InvalidValue key raw)))"

definition parse_bool :: "string \<Rightarrow> bool option" where
  "parse_bool s = (if s = ''true'' then Some True else if s = ''false'' then Some False else None)"

definition parse_u16 :: "string \<Rightarrow> nat option" where "parse_u16 = parse_unsigned 65535"
definition parse_u32 :: "string \<Rightarrow> nat option" where "parse_u32 = parse_unsigned u32_max"
definition parse_u64 :: "string \<Rightarrow> nat option" where "parse_u64 = parse_unsigned u64_max"

fun parse_cidr_entries :: "ext \<Rightarrow> string list \<Rightarrow> config_error + ip_net list" where
  "parse_cidr_entries x [] = Inr []"
| "parse_cidr_entries x (e # es) =
     (case x_parse_ipnet x e of
        None \<Rightarrow> Inl (InvalidCidr e)
      | Some n \<Rightarrow> map_sum id (\<lambda>ns. n # ns) (parse_cidr_entries x es))"

definition parse_cidrs :: "ext \<Rightarrow> string \<Rightarrow> config_error + ip_net list" where
  "parse_cidrs x raw = parse_cidr_entries x (csv_entries raw)"

definition bindE :: "'e + 'a \<Rightarrow> ('a \<Rightarrow> 'e + 'b) \<Rightarrow> 'e + 'b" where
  "bindE r k = (case r of Inl e \<Rightarrow> Inl e | Inr v \<Rightarrow> k v)"

definition parse_origins :: "ext \<Rightarrow> env_vars \<Rightarrow> config_error + string list" where
  "parse_origins x vars =
     (let raw = csv_entries (env_or vars ''CORS_ALLOWED_ORIGINS'' []) in
      case find (\<lambda>o'. \<not> x_header_value_ok x o') raw of
        Some bad \<Rightarrow> Inl (CorsInvalidOrigin bad)
      | None \<Rightarrow> Inr raw)"

definition parse_assets :: "ext \<Rightarrow> env_vars \<Rightarrow> accepted_asset list" where
  "parse_assets x vars =
     (let raw = env_or vars ''ACCEPTED_ASSETS'' [] in
      if raw = [] then default_list else parse_list x raw)"

definition from_env :: "ext \<Rightarrow> env_vars \<Rightarrow> config_error + config" where
  "from_env x vars =
     bindE (validate_webhook_secret (vars ''WEBHOOK_SECRET'')) (\<lambda>secret.
     bindE (parse_origins x vars) (\<lambda>origins.
     let network = env_or vars ''STELLAR_NETWORK'' ''testnet'' in
     if network = ''public'' \<and> origins = [] then Inl CorsRequiredOnPublic
     else
     bindE (parse_env parse_u16 vars ''PORT'' 3000) (\<lambda>port.
     bindE (parse_env parse_u32 vars ''WEBHOOK_RETRY_ATTEMPTS'' 3) (\<lambda>retry_attempts.
     bindE (parse_env parse_u64 vars ''WEBHOOK_RETRY_DELAY_MS'' 5000) (\<lambda>retry_delay.
     bindE (parse_env parse_u64 vars ''WEBHOOK_RETRY_MAX_DELAY_MS'' 60000) (\<lambda>retry_max.
     bindE (parse_env parse_u64 vars ''WEBHOOK_TIMEOUT_SECS'' 10) (\<lambda>timeout.
     bindE (parse_env parse_u64 vars ''WEBHOOK_REDRIVE_INTERVAL_SECS'' 30) (\<lambda>redrive_interval.
     bindE (parse_env parse_u64 vars ''WEBHOOK_REDRIVE_CONCURRENCY'' 4) (\<lambda>concurrency.
     bindE (parse_env parse_u32 vars ''WEBHOOK_REDRIVE_MAX_ATTEMPTS'' 8) (\<lambda>max_attempts.
     bindE (parse_env parse_i64 vars ''WEBHOOK_REDRIVE_GRACE_SECS'' 60) (\<lambda>grace.
     bindE (parse_env parse_i64 vars ''WEBHOOK_REDRIVE_BACKOFF_INITIAL_SECS'' 30) (\<lambda>backoff_initial.
     bindE (parse_env parse_i64 vars ''WEBHOOK_REDRIVE_BACKOFF_MAX_SECS'' 900) (\<lambda>backoff_max.
     bindE (parse_env parse_i64 vars ''WEBHOOK_REDRIVE_JITTER_SECS'' 30) (\<lambda>jitter.
     bindE (parse_env parse_u64 vars ''RETENTION_INTERVAL_SECS'' 3600) (\<lambda>retention_interval.
     bindE (parse_env parse_i64 vars ''WEBHOOK_DELIVERY_RETENTION_DAYS'' 30) (\<lambda>delivery_days.
     bindE (parse_env parse_i64 vars ''IDEMPOTENCY_RETENTION_DAYS'' 7) (\<lambda>idempotency_days.
     bindE (parse_env parse_u64 vars ''POLL_INTERVAL_SECS'' 10) (\<lambda>poll_interval.
     bindE (parse_env parse_u32 vars ''CURSOR_STALENESS_MULTIPLE'' 3) (\<lambda>staleness.
     bindE (parse_env parse_u64 vars ''PAYMENT_TTL_SECS'' 3600) (\<lambda>ttl.
     bindE (parse_env parse_i64 vars ''EXPIRY_BATCH_SIZE'' 500) (\<lambda>batch.
     bindE (parse_env parse_u32 vars ''RATE_LIMIT_REQUESTS_PER_SEC'' 10) (\<lambda>rate.
     bindE (parse_env parse_u32 vars ''DB_POOL_MAX_CONNECTIONS'' 10) (\<lambda>pool.
     bindE (parse_env parse_u64 vars ''DB_BUSY_TIMEOUT_MS'' 5000) (\<lambda>busy.
     bindE (listener_mode_parse (env_or vars ''STELLAR_LISTENER_MODE'' [])) (\<lambda>mode.
     bindE (parse_env parse_bool vars ''WEBHOOK_ALLOW_PRIVATE_TARGETS'' False) (\<lambda>allow_private.
     bindE (parse_env parse_u64 vars ''REQUEST_TIMEOUT_SECS'' 30) (\<lambda>request_timeout.
     bindE (parse_cidrs x (env_or vars ''TRUSTED_PROXY_CIDRS'' [])) (\<lambda>cidrs.
     let c = \<lparr>c_port = port,
              c_database_url = env_or vars ''DATABASE_URL'' ''sqlite:stellargate.db'',
              c_network = network,
              c_horizon_url = env_or vars ''STELLAR_HORIZON_URL'' ''https://horizon-testnet.stellar.org'',
              c_gateway_public = env_or vars ''STELLAR_GATEWAY_PUBLIC'' ''UNCONFIGURED'',
              c_accepted_assets = parse_assets x vars,
              c_webhook_secret = secret,
              c_webhook_retry_attempts = retry_attempts,
              c_webhook_retry_delay_ms = retry_delay,
              c_webhook_retry_max_delay_ms = retry_max,
              c_allowed_webhook_schemes = csv_entries (env_or vars ''ALLOWED_WEBHOOK_SCHEMES'' ''https''),
              c_webhook_timeout_secs = timeout,
              c_webhook_redrive_interval_secs = redrive_interval,
              c_webhook_redrive_concurrency = concurrency,
              c_webhook_redrive_max_attempts = max_attempts,
              c_webhook_redrive_grace_secs = grace,
              c_webhook_redrive_backoff_initial_secs = backoff_initial,
              c_webhook_redrive_backoff_max_secs = backoff_max,
              c_webhook_redrive_jitter_secs = jitter,
              c_retention_interval_secs = retention_interval,
              c_webhook_delivery_retention_days = delivery_days,
              c_idempotency_retention_days = idempotency_days,
              c_poll_interval_secs = poll_interval,
              c_cursor_staleness_multiple = staleness,
              c_payment_ttl_secs = ttl,
              c_expiry_batch_size = batch,
              c_rate_limit_requests_per_sec = rate,
              c_db_pool_max_connections = pool,
              c_db_busy_timeout_ms = busy,
              c_cors_allowed_origins = origins,
              c_listener_mode = mode,
              c_webhook_allow_private_targets = allow_private,
              c_admin_provisioning_secret = env_or vars ''ADMIN_PROVISIONING_SECRET'' [],
              c_request_timeout_secs = request_timeout,
              c_trusted_proxy_cidrs = cidrs\<rparr>
     in bindE (validate_addresses c) (\<lambda>_. bindE (validate_timing c) (\<lambda>_. Inr c))))))))))))))))))))))))))))))"

section \<open>What a successful boot guarantees\<close>

lemma bindE_Inr [simp]: "bindE r k = Inr v \<longleftrightarrow> (\<exists>x. r = Inr x \<and> k x = Inr v)"
  by (simp add: bindE_def split: sum.split)

lemma check_assets_ok:
  "check_assets as = Inr u \<longleftrightarrow>
     (\<forall>a\<in>set as. case a_issuer a of
        Some issuer \<Rightarrow> is_valid_account_id issuer
      | None \<Rightarrow> eq_ignore_ascii_case (a_code a) ''XLM'')"
  by (induction as) (auto simp: is_valid_account_id_def split: option.splits sum.splits)

lemma check_codes_ok:
  "check_codes seen as = Inr u \<longleftrightarrow>
     distinct (map (to_ascii_uppercase \<circ> a_code) as) \<and>
     (\<forall>a\<in>set as. to_ascii_uppercase (a_code a) \<notin> seen)"
proof (induction seen as rule: check_codes.induct)
  case (2 seen a as)
  then show ?case by (simp add: Let_def) (metis (mono_tags, lifting) imageE image_eqI)
qed simp

text \<open>The conditions on addresses and assets that hold of every configuration that boots.\<close>

definition addresses_ok :: "config \<Rightarrow> bool" where
  "addresses_ok c \<longleftrightarrow>
     (gateway_configured c \<longrightarrow> is_valid_account_id (c_gateway_public c)) \<and>
     (\<forall>a\<in>set (c_accepted_assets c). case a_issuer a of
        Some issuer \<Rightarrow> is_valid_account_id issuer
      | None \<Rightarrow> eq_ignore_ascii_case (a_code a) ''XLM'') \<and>
     distinct (map (to_ascii_uppercase \<circ> a_code) (c_accepted_assets c))"

lemma validate_addresses_ok: "validate_addresses c = Inr () \<longleftrightarrow> addresses_ok c"
proof -
  have "(check_assets (c_accepted_assets c) = Inr ()) = (\<nexists>e. check_assets (c_accepted_assets c) = Inl e)"
    by (cases "check_assets (c_accepted_assets c)") auto
  then show ?thesis
    unfolding validate_addresses_def addresses_ok_def check_assets_ok [symmetric, where u = "()"]
    by (auto simp: check_codes_ok is_valid_account_id_def split: sum.splits)
qed

text \<open>At most one entry of the allow-list has a given code, whatever its letter case.\<close>

lemma accepted_code_unique:
  assumes "addresses_ok c" "a \<in> set (c_accepted_assets c)" "b \<in> set (c_accepted_assets c)"
    and "eq_ignore_ascii_case (a_code a) (a_code b)"
  shows "a = b"
proof -
  have "inj_on (to_ascii_uppercase \<circ> a_code) (set (c_accepted_assets c))"
    using assms(1) by (simp add: addresses_ok_def distinct_map)
  moreover have "(to_ascii_uppercase \<circ> a_code) a = (to_ascii_uppercase \<circ> a_code) b"
    using assms(4) eq_ignore_ascii_case_upper by simp
  ultimately show ?thesis using assms(2,3) by (rule inj_onD)
qed

definition timing_ok :: "config \<Rightarrow> bool" where
  "timing_ok c \<longleftrightarrow>
     0 < c_poll_interval_secs c \<and> 0 < c_cursor_staleness_multiple c \<and>
     c_poll_interval_secs c \<le> c_payment_ttl_secs c \<and> 0 < c_expiry_batch_size c \<and>
     0 < c_webhook_retry_attempts c \<and>
     (1 < c_webhook_retry_attempts c \<longrightarrow> 0 < c_webhook_retry_delay_ms c) \<and>
     c_webhook_retry_delay_ms c \<le> c_webhook_retry_max_delay_ms c \<and>
     wrap_i64 (int (worst_case_inline_delivery_secs c)) \<le> c_webhook_redrive_grace_secs c \<and>
     0 \<le> c_webhook_redrive_jitter_secs c \<and> 0 < c_request_timeout_secs c \<and>
     c_webhook_redrive_backoff_initial_secs c \<le> c_webhook_redrive_backoff_max_secs c"

lemma validate_timing_ok: "validate_timing c = Inr () \<longleftrightarrow> timing_ok c"
  unfolding validate_timing_def timing_ok_def by (simp split: if_split; linarith?)

lemma validate_webhook_secret_ok:
  "validate_webhook_secret raw = Inr s \<Longrightarrow>
     raw = Some s \<and> 32 \<le> length s \<and> trim s \<noteq> [] \<and> \<not> starts_with ''REPLACE_ME_'' s"
  by (auto simp: validate_webhook_secret_def split: option.splits if_splits)

lemmas from_env_checks = validate_addresses_ok validate_timing_ok validate_webhook_secret_ok

text \<open>
  C26: a configuration that boots has sound addresses and assets, consistent timing, a webhook secret of
  at least 32 bytes that is no placeholder, only origins that are header values, and on the public
  network at least one of them.
\<close>

theorem boot_guarantees:
  assumes "from_env x vars = Inr c"
  shows "addresses_ok c \<and> timing_ok c \<and>
    vars ''WEBHOOK_SECRET'' = Some (c_webhook_secret c) \<and> 32 \<le> length (c_webhook_secret c) \<and>
    \<not> starts_with ''REPLACE_ME_'' (c_webhook_secret c) \<and>
    list_all (x_header_value_ok x) (c_cors_allowed_origins c) \<and>
    (c_network c = ''public'' \<longrightarrow> c_cors_allowed_origins c \<noteq> [])"
proof -
  have origins: "list_all (x_header_value_ok x) os" if "parse_origins x vars = Inr os" for os
    using that by (auto simp: parse_origins_def Let_def list_all_iff find_None_iff split: option.splits)
  from assms obtain secret os where
    "validate_webhook_secret (vars ''WEBHOOK_SECRET'') = Inr secret" "parse_origins x vars = Inr os"
    "c_webhook_secret c = secret" "c_cors_allowed_origins c = os"
    "c_network c = ''public'' \<longrightarrow> os \<noteq> []" "validate_addresses c = Inr ()" "validate_timing c = Inr ()"
    unfolding from_env_def by (auto simp: Let_def split: if_splits)
  then show ?thesis
    using origins validate_webhook_secret_ok by (auto simp: from_env_checks)
qed

definition vars0 :: env_vars where
  "vars0 = map_of [(''WEBHOOK_SECRET'', ''0123456789abcdef0123456789abcdef''), (''ACCEPTED_ASSETS'', ''XLM'')]"

lemma default_timing:
  assumes "c_poll_interval_secs c = 10" "c_cursor_staleness_multiple c = 3" "c_payment_ttl_secs c = 3600"
    and "c_expiry_batch_size c = 500" "c_webhook_retry_attempts c = 3" "c_webhook_retry_delay_ms c = 5000"
    and "c_webhook_retry_max_delay_ms c = 60000" "c_webhook_timeout_secs c = 10"
    and "c_webhook_redrive_grace_secs c = 60" "c_webhook_redrive_jitter_secs c = 30"
    and "c_request_timeout_secs c = 30" "c_webhook_redrive_backoff_initial_secs c = 30"
    and "c_webhook_redrive_backoff_max_secs c = 900"
  shows "worst_case_inline_delivery_secs c = 45" "validate_timing c = Inr ()"
proof -
  have up: "[Suc 0..<3] = [1, 2]" by (simp add: upt_rec)
  have "inline_step_ms c 1 = 5000" "inline_step_ms c 2 = 10000"
    using assms(6,7) by (simp_all add: inline_step_ms_def sat_u64_def u64_max_def)
  then show w: "worst_case_inline_delivery_secs c = 45"
    using assms(5,8) by (simp add: worst_case_inline_delivery_secs_def up sat_u64_def u64_max_def)
  show "validate_timing c = Inr ()"
    unfolding validate_timing_ok timing_ok_def assms w by (simp add: wrap_i64_def)
qed

lemma vars0_boots: "\<exists>c. from_env ext0 vars0 = Inr c"
proof -
  have unset: "parse_env parse vars0 key def = Inr def" "env_or vars0 key d = d"
    if "key \<noteq> ''WEBHOOK_SECRET''" "key \<noteq> ''ACCEPTED_ASSETS''" for parse :: "string \<Rightarrow> 'a option" and key def d
    using that by (simp_all add: parse_env_def env_or_def vars0_def)
  have secret: "validate_webhook_secret (vars0 ''WEBHOOK_SECRET'') = Inr ''0123456789abcdef0123456789abcdef''"
    unfolding vars0_def by code_simp
  have origins: "parse_origins ext0 vars0 = Inr []" and mode: "listener_mode_parse [] = Inr Stream"
    and cidrs: "parse_cidrs ext0 [] = Inr []" by code_simp+
  have assets: "parse_assets ext0 vars0 = [\<lparr>a_code = ''XLM'', a_issuer = None\<rparr>]" by code_simp
  have run: "bindE (Inr v) k = k v" for v and k :: "'b \<Rightarrow> 'c + 'd" by (simp add: bindE_def)
  have addresses: "validate_addresses c = Inr ()"
    if "c_gateway_public c = ''UNCONFIGURED''" "c_accepted_assets c = [\<lparr>a_code = ''XLM'', a_issuer = None\<rparr>]" for c
    using that by (simp add: validate_addresses_ok addresses_ok_def gateway_configured_def eq_ignore_ascii_case_def)
  have "\<not> isl (from_env ext0 vars0)"
    unfolding from_env_def secret origins assets run
    by (simp add: unset mode cidrs run Let_def addresses default_timing)
  then show ?thesis by (cases "from_env ext0 vars0") auto
qed

theorem boot_guarantees_witness: "\<exists>c. from_env ext0 vars0 = Inr c \<and> timing_ok c"
  using vars0_boots boot_guarantees by blast

section \<open>Debug output\<close>

text \<open>The fields \<open>fmt\<close> hands to the formatter, in order; the two secrets are replaced by stars.\<close>

datatype debug_value =
    D_Nat nat | D_Int int | D_Str string | D_Strs "string list" | D_Assets "accepted_asset list" | D_Bool bool
  | D_Mode listener_mode | D_Nets "ip_net list"

definition debug_fields :: "config \<Rightarrow> (string \<times> debug_value) list" where
  "debug_fields c =
     [(''port'', D_Nat (c_port c)), (''database_url'', D_Str (c_database_url c)), (''network'', D_Str (c_network c)),
      (''horizon_url'', D_Str (c_horizon_url c)), (''gateway_public'', D_Str (c_gateway_public c)),
      (''accepted_assets'', D_Assets (c_accepted_assets c)), (''webhook_secret'', D_Str ''***''),
      (''webhook_retry_attempts'', D_Nat (c_webhook_retry_attempts c)),
      (''webhook_retry_delay_ms'', D_Nat (c_webhook_retry_delay_ms c)),
      (''webhook_retry_max_delay_ms'', D_Nat (c_webhook_retry_max_delay_ms c)),
      (''webhook_timeout_secs'', D_Nat (c_webhook_timeout_secs c)),
      (''webhook_redrive_interval_secs'', D_Nat (c_webhook_redrive_interval_secs c)),
      (''webhook_redrive_concurrency'', D_Nat (c_webhook_redrive_concurrency c)),
      (''webhook_redrive_max_attempts'', D_Nat (c_webhook_redrive_max_attempts c)),
      (''webhook_redrive_grace_secs'', D_Int (c_webhook_redrive_grace_secs c)),
      (''webhook_redrive_backoff_initial_secs'', D_Int (c_webhook_redrive_backoff_initial_secs c)),
      (''webhook_redrive_backoff_max_secs'', D_Int (c_webhook_redrive_backoff_max_secs c)),
      (''webhook_redrive_jitter_secs'', D_Int (c_webhook_redrive_jitter_secs c)),
      (''poll_interval_secs'', D_Nat (c_poll_interval_secs c)),
      (''cursor_staleness_multiple'', D_Nat (c_cursor_staleness_multiple c)),
      (''payment_ttl_secs'', D_Nat (c_payment_ttl_secs c)), (''expiry_batch_size'', D_Int (c_expiry_batch_size c)),
      (''rate_limit_requests_per_sec'', D_Nat (c_rate_limit_requests_per_sec c)),
      (''db_pool_max_connections'', D_Nat (c_db_pool_max_connections c)),
      (''db_busy_timeout_ms'', D_Nat (c_db_busy_timeout_ms c)),
      (''cors_allowed_origins'', D_Strs (c_cors_allowed_origins c)), (''listener_mode'', D_Mode (c_listener_mode c)),
      (''webhook_allow_private_targets'', D_Bool (c_webhook_allow_private_targets c)),
      (''admin_provisioning_secret'', D_Str ''***''), (''request_timeout_secs'', D_Nat (c_request_timeout_secs c)),
      (''trusted_proxy_cidrs'', D_Nets (c_trusted_proxy_cidrs c))]"

text \<open>Configurations that differ in their secrets only print the same.\<close>

lemma debug_hides_secrets:
  "debug_fields (c\<lparr>c_webhook_secret := s, c_admin_provisioning_secret := t\<rparr>) = debug_fields c"
  by (simp add: debug_fields_def)

end
