(* ===== verification/Task_Health.thy ===== *)
theory Task_Health
  imports Metrics "HOL-Library.AList"
begin

text \<open>
  Background task health (\<open>TaskHealth\<close> in \<open>src/lib.rs\<close>). The mutex-guarded hash maps are
  association lists updated in place, the atomic counters words of their width. The lemmas relate
  the probes (\<open>dead_required_tasks\<close>, \<open>expected_tasks\<close>, \<open>live_tasks\<close>) to one another and show that
  the required set is partitioned into disabled, live and dead tasks.
\<close>

record task_health =
  th_started :: u64
  th_stopped :: u64
  th_failed :: u64
  th_running :: "(string \<times> bool) list"
  th_restarts :: "(string \<times> u64) list"
  th_consecutive :: "(string \<times> u32) list"
  th_disabled :: "(string \<times> string) list"
  th_required :: "string list"
  th_last_success_unix :: int

record task_snapshot =
  ts_name :: string
  ts_running :: bool
  ts_restarts :: u64
  ts_consecutive_failures :: u32
  ts_disabled_reason :: "string option"

definition CRASH_LOOP_THRESHOLD :: u32 where
  "CRASH_LOOP_THRESHOLD = 3"

definition task_health_new :: task_health where
  "task_health_new =
     \<lparr>th_started = 0, th_stopped = 0, th_failed = 0, th_running = [], th_restarts = [],
      th_consecutive = [], th_disabled = [], th_required = [], th_last_success_unix = 0\<rparr>"

definition get_or :: "'v \<Rightarrow> ('k \<times> 'v) list \<Rightarrow> 'k \<Rightarrow> 'v" where
  "get_or d m k = (case map_of m k of Some v \<Rightarrow> v | None \<Rightarrow> d)"

definition require :: "string \<Rightarrow> task_health \<Rightarrow> task_health" where
  "require name h = h\<lparr>th_required := th_required h @ [name]\<rparr>"

definition task_started :: "string \<Rightarrow> task_health \<Rightarrow> task_health" where
  "task_started name h =
     h\<lparr>th_started := th_started h + 1, th_running := AList.update name True (th_running h)\<rparr>"

definition task_stopped :: "string \<Rightarrow> task_health \<Rightarrow> task_health" where
  "task_stopped name h =
     h\<lparr>th_stopped := th_stopped h + 1, th_running := AList.update name False (th_running h)\<rparr>"

definition task_failed :: "string \<Rightarrow> task_health \<Rightarrow> task_health" where
  "task_failed name h =
     h\<lparr>th_failed := th_failed h + 1, th_running := AList.update name False (th_running h),
       th_consecutive :=
         AList.update name (get_or 0 (th_consecutive h) name + 1) (th_consecutive h)\<rparr>"

definition task_restarted :: "string \<Rightarrow> task_health \<Rightarrow> task_health" where
  "task_restarted name h =
     h\<lparr>th_restarts := AList.update name (get_or 0 (th_restarts h) name + 1) (th_restarts h)\<rparr>"

definition task_disabled :: "string \<Rightarrow> string \<Rightarrow> task_health \<Rightarrow> task_health" where
  "task_disabled name reason h =
     h\<lparr>th_stopped := th_stopped h + 1, th_running := AList.update name False (th_running h),
       th_disabled := AList.update name reason (th_disabled h)\<rparr>"

definition disabled_reason :: "task_health \<Rightarrow> string \<Rightarrow> string option" where
  "disabled_reason h name = map_of (th_disabled h) name"

definition note_stable :: "string \<Rightarrow> task_health \<Rightarrow> task_health" where
  "note_stable name h = h\<lparr>th_consecutive := AList.update name 0 (th_consecutive h)\<rparr>"

definition restarts :: "task_health \<Rightarrow> string \<Rightarrow> u64" where
  "restarts h name = get_or 0 (th_restarts h) name"

definition consecutive_failures :: "task_health \<Rightarrow> string \<Rightarrow> u32" where
  "consecutive_failures h name = get_or 0 (th_consecutive h) name"

definition expected_list :: "task_health \<Rightarrow> string list" where
  "expected_list h = filter (\<lambda>name. map_of (th_disabled h) name = None) (th_required h)"

definition expected_tasks :: "task_health \<Rightarrow> nat" where
  "expected_tasks h = length (expected_list h)"

definition live_tasks :: "task_health \<Rightarrow> nat" where
  "live_tasks h = length (filter (\<lambda>name. map_of (th_running h) name = Some True) (expected_list h))"

definition dead_required_tasks :: "task_health \<Rightarrow> string list" where
  "dead_required_tasks h =
     filter (\<lambda>name. map_of (th_running h) name \<noteq> Some True)
       (filter (\<lambda>name. map_of (th_disabled h) name = None) (th_required h))"

definition crash_looping_required_tasks :: "task_health \<Rightarrow> string list" where
  "crash_looping_required_tasks h =
     filter (\<lambda>name. CRASH_LOOP_THRESHOLD \<le> get_or 0 (th_consecutive h) name) (th_required h)"

text \<open>\<open>if !names.contains(name) { names.push(name) }\<close> over the chained key iterators.\<close>

definition push_new :: "string \<Rightarrow> string list \<Rightarrow> string list" where
  "push_new name names = (if name \<in> set names then names else names @ [name])"

definition snapshot :: "task_health \<Rightarrow> task_snapshot list" where
  "snapshot h =
     (let names = fold push_new
            (map fst (th_running h) @ map fst (th_restarts h) @ map fst (th_consecutive h) @
             map fst (th_disabled h)) (th_required h)
      in map (\<lambda>name. \<lparr>ts_name = name, ts_running = get_or False (th_running h) name,
                       ts_restarts = get_or 0 (th_restarts h) name,
                       ts_consecutive_failures = get_or 0 (th_consecutive h) name,
                       ts_disabled_reason = map_of (th_disabled h) name\<rparr>)
             (sort names))"

definition set_last_success_unix :: "int \<Rightarrow> task_health \<Rightarrow> task_health" where
  "set_last_success_unix unix_secs h = h\<lparr>th_last_success_unix := unix_secs\<rparr>"

definition note_success :: "int \<Rightarrow> task_health \<Rightarrow> task_health" where
  "note_success now h = set_last_success_unix now h"

text \<open>\<open>i64::saturating_sub\<close>.\<close>

definition sat_i64 :: "int \<Rightarrow> int" where
  "sat_i64 x = max i64_min (min x i64_max)"

definition last_success_age_secs :: "int \<Rightarrow> task_health \<Rightarrow> int" where
  "last_success_age_secs now h = sat_i64 (now - th_last_success_unix h)"

section \<open>Lemmas\<close>

lemma get_or_update: "get_or d (AList.update k v m) k' = (if k' = k then v else get_or d m k')"
  by (simp add: get_or_def update_conv')

lemmas task_defs = require_def task_started_def task_stopped_def task_failed_def task_restarted_def
  task_disabled_def note_stable_def set_last_success_unix_def note_success_def

lemma expected_partition:
  "expected_tasks h = live_tasks h + length (dead_required_tasks h)"
  unfolding expected_tasks_def live_tasks_def dead_required_tasks_def expected_list_def
  using sum_length_filter_compl [of "\<lambda>n. map_of (th_running h) n = Some True"] by metis

lemma dead_iff:
  "name \<in> set (dead_required_tasks h) \<longleftrightarrow>
     name \<in> set (th_required h) \<and> disabled_reason h name = None \<and>
     map_of (th_running h) name \<noteq> Some True"
  by (auto simp: dead_required_tasks_def disabled_reason_def)

lemma disabled_never_dead:
  "name \<notin> set (dead_required_tasks (task_disabled name reason h))"
  by (simp add: dead_iff disabled_reason_def task_disabled_def update_conv')

lemma started_not_dead: "name \<notin> set (dead_required_tasks (task_started name h))"
  by (simp add: dead_iff task_started_def update_conv')

lemma failed_dead:
  "name \<in> set (th_required h) \<Longrightarrow> disabled_reason h name = None \<Longrightarrow>
   name \<in> set (dead_required_tasks (task_failed name h)) \<and>
   name \<in> set (dead_required_tasks (task_stopped name h))"
  by (simp add: dead_iff disabled_reason_def task_failed_def task_stopped_def update_conv')

lemma set_push_new: "set (fold push_new xs ys) = set xs \<union> set ys"
  by (induction xs arbitrary: ys) (auto simp: push_new_def)

lemma snapshot_names:
  "sorted (map ts_name (snapshot h)) \<and>
   set (map ts_name (snapshot h)) =
     set (th_required h) \<union> fst ` set (th_running h) \<union> fst ` set (th_restarts h) \<union>
     fst ` set (th_consecutive h) \<union> fst ` set (th_disabled h)"
  by (auto simp: snapshot_def Let_def comp_def set_push_new)

end
