(* ===== verification/World.thy ===== *)
theory World
  imports Proc Timestamps Money Config Task_Health
begin

text \<open>
  The shared state of the gateway and the atomic effects of its handlers. \<open>db\<close> holds the SQLite
  tables of \<open>src/db.rs\<close> as row lists in rowid order; \<open>world\<close> adds the wall clock (nanoseconds since
  the epoch), the metrics and task health of \<open>AppState\<close> (\<open>src/lib.rs\<close>) and the logs of webhook requests
  sent and of other requests started. Everything outside the process is the record \<open>env\<close>: for each tick it says whether a statement
  fails and how long it takes, what DNS, the webhook receivers and Horizon answer, and which random
  values and UUIDs are drawn. All theorems hold for every \<open>env\<close>.
\<close>

section \<open>Rows\<close>

record payment =
  p_id :: string
  p_merchant_id :: string
  p_destination_address :: string
  p_memo :: string
  p_amount :: string
  p_asset :: string
  p_status :: string
  p_webhook_url :: "string option"
  p_tx_hash :: "string option"
  p_paid_amount :: "string option"
  p_created_at :: string
  p_updated_at :: string
  p_expires_at :: string
  p_asset_issuer :: "string option"

record webhook_delivery =
  d_id :: string
  d_payment_id :: string
  d_url :: string
  d_payload :: string
  d_event_type :: "string option"
  d_status :: string
  d_attempts :: int
  d_last_attempt :: "string option"
  d_acknowledged_at :: "string option"
  d_created_at :: string

record api_key =
  k_id :: string
  k_merchant_id :: string
  k_key_hash :: string
  k_prefix :: string
  k_label :: "string option"
  k_created_at :: string
  k_last_used_at :: "string option"
  k_revoked_at :: "string option"

record merchant =
  m_id :: string
  m_api_key_hash :: string
  m_created_at :: string

record idempotency_key =
  i_merchant_id :: string
  i_key :: string
  i_payment_id :: string
  i_created_at :: string

record processed_tx =
  t_payment_id :: string
  t_tx_hash :: string
  t_amount_stroops :: int
  t_created_at :: string

record kv_row =
  kv_key :: string
  kv_value :: string
  kv_updated_at :: string

record db =
  payments :: "payment list"
  webhook_deliveries :: "webhook_delivery list"
  api_keys :: "api_key list"
  merchants :: "merchant list"
  idempotency_keys :: "idempotency_key list"
  processed_transactions :: "processed_tx list"
  kv_state :: "kv_row list"

definition empty_db :: db where
  "empty_db =
     \<lparr>payments = [], webhook_deliveries = [], api_keys = [], merchants = [],
      idempotency_keys = [], processed_transactions = [], kv_state = []\<rparr>"

section \<open>Errors and the environment\<close>

datatype err =
    Db_Fault
  | Db_Constraint string
  | Db_Overflow
  | Msg string
  | Transport
  | Json_Error
  | Horizon_Http nat "nat option" string

record post =
  q_url :: string
  q_addr :: "ip_addr \<times> nat"
  q_signature :: string
  q_timestamp :: int
  q_event :: string
  q_body :: string
  q_redirects :: nat

text \<open>
  An HTTP client keeps \<open>reqwest\<close>'s redirect policy: it follows up to ten redirects. A followed request
  carries the headers of the first one; the body is sent again after 307 and 308 and dropped after the
  other redirects. The host a client is pinned to keeps its address, any other host is resolved anew.
  \<open>q_redirects\<close> counts the redirects that led to a request.
\<close>

record hop =
  hop_url :: string
  hop_host :: string
  hop_addr :: "ip_addr \<times> nat"
  hop_keeps_body :: bool

definition MAX_REDIRECTS :: nat where
  "MAX_REDIRECTS = 10"

fun follow_redirects :: "string \<Rightarrow> ip_addr \<times> nat \<Rightarrow> post \<Rightarrow> hop list \<Rightarrow> post list" where
  "follow_redirects host addr q [] = []"
| "follow_redirects host addr q (h # hs) =
     (let q' = q\<lparr>q_url := hop_url h, q_addr := (if hop_host h = host then addr else hop_addr h),
                 q_body := (if hop_keeps_body h then q_body q else []), q_redirects := Suc (q_redirects q)\<rparr>
      in q' # follow_redirects host addr q' hs)"

datatype get_reply = Get_Failed | Get_Reply nat "string option" string

text \<open>
  \<open>e_stmt n = (delay, True)\<close> makes statement \<open>n\<close> fail without effect. \<open>e_random n i\<close> is \<open>ABS(RANDOM())\<close>
  for the \<open>i\<close>th row of statement \<open>n\<close>, and the source of \<open>rand::random_range\<close>.
\<close>

record env =
  e_stmt :: "nat \<Rightarrow> nat \<times> bool"
  e_random :: "nat \<Rightarrow> nat \<Rightarrow> nat"
  e_uuid :: "nat \<Rightarrow> string"
  e_dns :: "nat \<Rightarrow> string \<Rightarrow> nat \<Rightarrow> (ip_addr \<times> nat) list option \<times> nat"
  e_post :: "nat \<Rightarrow> post \<Rightarrow> nat option \<times> hop list \<times> nat"
  e_get :: "nat \<Rightarrow> string \<Rightarrow> get_reply \<times> nat"
  e_key_bytes :: "nat \<Rightarrow> string"
  e_client :: "nat \<Rightarrow> bool"
  e_stream :: "nat \<Rightarrow> string \<Rightarrow> string option list option \<times> nat"

record world =
  w_db :: db
  w_clock :: nat
  w_tick :: nat
  w_env :: env
  w_webhook_metrics :: webhook_metrics
  w_auth_metrics :: auth_metrics
  w_horizon_metrics :: horizon_metrics
  w_task_health :: task_health
  w_posts :: "(post \<times> nat option) list"
  w_gets :: "string list"

type_synonym 'a io = "(world, 'a) proc"
type_synonym 'a result = "err + 'a"

definition now_secs :: "world \<Rightarrow> int" where
  "now_secs w = int (w_clock w div 1000000000)"

section \<open>Atomic effects\<close>

definition advance :: "nat \<Rightarrow> world \<Rightarrow> world" where
  "advance dt w = w\<lparr>w_clock := w_clock w + dt, w_tick := Suc (w_tick w)\<rparr>"

lemma advance_simps [simp]:
  "w_db (advance dt w) = w_db w" "w_env (advance dt w) = w_env w"
  "w_clock (advance dt w) = w_clock w + dt" "w_posts (advance dt w) = w_posts w" "w_gets (advance dt w) = w_gets w"
  "w_tick (advance dt w) = Suc (w_tick w)"
  "w_webhook_metrics (advance dt w) = w_webhook_metrics w"
  "w_auth_metrics (advance dt w) = w_auth_metrics w"
  "w_horizon_metrics (advance dt w) = w_horizon_metrics w"
  "w_task_health (advance dt w) = w_task_health w"
  by (simp_all add: advance_def)

text \<open>
  One SQL statement: it may fail, leaving the tables alone; otherwise it runs at the time its lock
  was obtained. \<open>f\<close> receives the row randomness, the current second and the tables. A statement that
  violates a constraint returns the error and the tables it was given.
\<close>

definition stmt_rnd :: "((nat \<Rightarrow> nat) \<Rightarrow> int \<Rightarrow> db \<Rightarrow> 'a result \<times> db) \<Rightarrow> 'a result io" where
  "stmt_rnd f = effect (\<lambda>w.
     let (dt, fault) = e_stmt (w_env w) (w_tick w); w' = advance dt w in
     if fault then (Inl Db_Fault, w')
     else (case f (e_random (w_env w) (w_tick w)) (now_secs w') (w_db w) of
             (r, d) \<Rightarrow> (r, w'\<lparr>w_db := d\<rparr>)))"

abbreviation stmt :: "(int \<Rightarrow> db \<Rightarrow> 'a result \<times> db) \<Rightarrow> 'a result io" where
  "stmt f \<equiv> stmt_rnd (\<lambda>_. f)"

text \<open>A statement that only reads.\<close>

abbreviation query :: "(int \<Rightarrow> db \<Rightarrow> 'a result) \<Rightarrow> 'a result io" where
  "query f \<equiv> stmt (\<lambda>now d. (f now d, d))"

definition new_uuid :: "string io" where
  "new_uuid = effect (\<lambda>w. (e_uuid (w_env w) (w_tick w), advance 0 w))"

text \<open>\<open>rand::random_range(0..=n)\<close>.\<close>

definition random_upto :: "nat \<Rightarrow> nat io" where
  "random_upto n = effect (\<lambda>w. (e_random (w_env w) (w_tick w) 0 mod Suc n, advance 0 w))"

definition sleep :: "nat \<Rightarrow> unit io" where
  "sleep ns = effect (\<lambda>w. ((), advance ns w))"

definition get_clock :: "nat io" where
  "get_clock = effect (\<lambda>w. (w_clock w, w))"

text \<open>\<open>tokio::time::timeout\<close> around \<open>lookup_host\<close>.\<close>

datatype dns_reply = Dns_Timeout | Dns_Error | Dns_Addrs "(ip_addr \<times> nat) list"

definition lookup_host :: "nat \<Rightarrow> string \<Rightarrow> nat \<Rightarrow> dns_reply io" where
  "lookup_host timeout_ns host port = effect (\<lambda>w.
     case e_dns (w_env w) (w_tick w) host port of
       (r, dt) \<Rightarrow>
         if dt < timeout_ns
         then (case r of None \<Rightarrow> Dns_Error | Some as \<Rightarrow> Dns_Addrs as, advance dt w)
         else (Dns_Timeout, advance timeout_ns w))"

text \<open>Building a \<open>reqwest\<close> client can fail.\<close>

definition build_client :: "bool io" where
  "build_client = effect (\<lambda>w. (e_client (w_env w) (w_tick w), advance 0 w))"

text \<open>
  A request with a timeout over all its redirects: no answer within it, or one redirect too many, is a
  failure. \<open>host\<close> is the host the client is pinned to.
\<close>

definition http_post :: "nat \<Rightarrow> string \<Rightarrow> post \<Rightarrow> nat option io" where
  "http_post timeout_ns host q = effect (\<lambda>w.
     let (r, hops, dt) = e_post (w_env w) (w_tick w) q;
         (r', dt') = (if dt < timeout_ns then (if length hops \<le> MAX_REDIRECTS then r else None, dt)
                      else (None, timeout_ns));
         qs = q # follow_redirects host (q_addr q) q (take MAX_REDIRECTS hops) in
     (r', advance dt' w\<lparr>w_posts := w_posts w @ map (\<lambda>q'. (q', r')) qs\<rparr>))"

text \<open>The requests to Horizon; \<open>w_gets\<close> logs the URL each is started with.\<close>

definition log_get :: "string \<Rightarrow> world \<Rightarrow> world" where
  "log_get url w = w\<lparr>w_gets := w_gets w @ [url]\<rparr>"

lemma log_get_simps [simp]:
  "w_db (log_get url w) = w_db w" "w_env (log_get url w) = w_env w" "w_clock (log_get url w) = w_clock w"
  "w_posts (log_get url w) = w_posts w" "w_tick (log_get url w) = w_tick w"
  "w_gets (log_get url w) = w_gets w @ [url]"
  by (simp_all add: log_get_def)

definition http_get :: "string \<Rightarrow> get_reply io" where
  "http_get url = effect (\<lambda>w. case e_get (w_env w) (w_tick w) url of (r, dt) \<Rightarrow> (r, advance dt (log_get url w)))"

text \<open>A streaming response: the chunks that arrive until it ends, \<open>None\<close> for a broken read.\<close>

definition http_stream :: "string \<Rightarrow> string option list option io" where
  "http_stream url =
     effect (\<lambda>w. case e_stream (w_env w) (w_tick w) url of (r, dt) \<Rightarrow> (r, advance dt (log_get url w)))"

definition on_webhook_metrics :: "(webhook_metrics \<Rightarrow> webhook_metrics) \<Rightarrow> unit io" where
  "on_webhook_metrics f = effect (\<lambda>w. ((), w\<lparr>w_webhook_metrics := f (w_webhook_metrics w)\<rparr>))"

definition on_auth_metrics :: "(auth_metrics \<Rightarrow> auth_metrics) \<Rightarrow> unit io" where
  "on_auth_metrics f = effect (\<lambda>w. ((), w\<lparr>w_auth_metrics := f (w_auth_metrics w)\<rparr>))"

definition on_horizon_metrics :: "(horizon_metrics \<Rightarrow> horizon_metrics) \<Rightarrow> unit io" where
  "on_horizon_metrics f = effect (\<lambda>w. ((), w\<lparr>w_horizon_metrics := f (w_horizon_metrics w)\<rparr>))"

definition on_task_health :: "(int \<Rightarrow> task_health \<Rightarrow> task_health) \<Rightarrow> unit io" where
  "on_task_health f =
     effect (\<lambda>w. ((), w\<lparr>w_task_health := f (now_secs w) (w_task_health w)\<rparr>))"

abbreviation seqP :: "'a io \<Rightarrow> 'b io \<Rightarrow> 'b io" where
  "seqP p q \<equiv> bindP p (\<lambda>_. q)"

lemmas effect_defs = stmt_rnd_def new_uuid_def random_upto_def sleep_def get_clock_def
  lookup_host_def build_client_def http_post_def http_get_def http_stream_def on_webhook_metrics_def on_auth_metrics_def
  on_horizon_metrics_def on_task_health_def

text \<open>Running a statement: either the environment makes it fail, or the tables change by \<open>f\<close>.\<close>

lemma run_stmt:
  "run (stmt_rnd f) w =
     (let (dt, fault) = e_stmt (w_env w) (w_tick w); w' = advance dt w in
      if fault then (Inl Db_Fault, w')
      else (case f (e_random (w_env w) (w_tick w)) (now_secs w') (w_db w) of
              (r, d) \<Rightarrow> (r, w'\<lparr>w_db := d\<rparr>)))"
  by (simp add: stmt_rnd_def)

lemma now_secs_db [simp]: "now_secs (w\<lparr>w_db := d\<rparr>) = now_secs w"
  by (simp add: now_secs_def)

text \<open>Inversion: a result that is not a fault comes from \<open>f\<close> at the time the statement ran.\<close>

lemma run_stmtD:
  assumes "run (stmt f) w = (r, w')"
  shows "r = Inl Db_Fault \<and> w_db w' = w_db w \<or> f (now_secs w') (w_db w) = (r, w_db w')"
proof -
  obtain dt fault where "e_stmt (w_env w) (w_tick w) = (dt, fault)" by fastforce
  with assms show ?thesis
    by (auto simp: run_stmt Let_def split: if_splits prod.splits)
qed

lemma run_stmt_Inr:
  assumes "run (stmt f) w = (Inr v, w')"
  shows "f (now_secs w') (w_db w) = (Inr v, w_db w')"
  using run_stmtD [OF assms] by simp

lemma run_query:
  assumes "run (query f) w = (r, w')"
  shows "w_db w' = w_db w" "r = Inr v \<Longrightarrow> f (now_secs w') (w_db w) = Inr v"
  using run_stmtD [OF assms] by auto

lemma run_time:
  assumes "run (stmt f) w = (r, w')"
  shows "w_posts w' = w_posts w" "w_clock w \<le> w_clock w'"
  using assms by (auto simp: run_stmt Let_def split: prod.splits if_splits)

end
