(* ===== verification/Db.thy ===== *)
theory Db
  imports World "HOL-Library.Product_Lexorder"
begin

text \<open>
  Persistence (\<open>src/db.rs\<close>). Every function of the module is a procedure whose SQL statements are
  atomic effects on the row lists. The SQL semantics used: \<open>UPDATE\<close> maps the rows that satisfy its
  \<open>WHERE\<close>, \<open>INSERT\<close> appends after checking the declared keys and \<open>NOT NULL\<close> columns, a negative \<open>LIMIT\<close>
  is no limit, text compares bytewise, \<open>strftime\<close> outside the years 0 to 9999 is \<open>NULL\<close> and a comparison
  with \<open>NULL\<close> is not true. Where SQL leaves the order of equal keys open, rows keep rowid order.
\<close>

section \<open>SQL building blocks\<close>

definition update_where :: "('a \<Rightarrow> bool) \<Rightarrow> ('a \<Rightarrow> 'a) \<Rightarrow> 'a list \<Rightarrow> 'a list" where
  "update_where P f rows = map (\<lambda>r. if P r then f r else r) rows"

definition count_where :: "('a \<Rightarrow> bool) \<Rightarrow> 'a list \<Rightarrow> nat" where
  "count_where P rows = length (filter P rows)"

definition sql_limit :: "int \<Rightarrow> 'a list \<Rightarrow> 'a list" where
  "sql_limit n rows = (if n < 0 then rows else take (nat n) rows)"

definition sql_offset :: "int \<Rightarrow> 'a list \<Rightarrow> 'a list" where
  "sql_offset n rows = drop (nat n) rows"

definition order_desc :: "('a \<Rightarrow> 'k :: linorder) \<Rightarrow> 'a list \<Rightarrow> 'a list" where
  "order_desc key rows = rev (sort_key key (rev rows))"

text \<open>Apply \<open>g\<close> to the first \<open>n\<close> rows that satisfy \<open>P\<close>; \<open>None\<close> deletes the row.\<close>

fun on_first :: "nat \<Rightarrow> ('a \<Rightarrow> bool) \<Rightarrow> ('a \<Rightarrow> 'a option) \<Rightarrow> 'a list \<Rightarrow> 'a list" where
  "on_first n P g [] = []"
| "on_first 0 P g rows = rows"
| "on_first (Suc n) P g (r # rows) =
     (if P r then (case g r of None \<Rightarrow> on_first n P g rows | Some r' \<Rightarrow> r' # on_first n P g rows)
      else r # on_first (Suc n) P g rows)"

text \<open>Comparison of a stored text with a possibly \<open>NULL\<close> timestamp.\<close>

definition sql_lt :: "string \<Rightarrow> string option \<Rightarrow> bool" where
  "sql_lt s t = (case t of None \<Rightarrow> False | Some u \<Rightarrow> s < u)"

definition sql_le :: "string \<Rightarrow> string option \<Rightarrow> bool" where
  "sql_le s t = (case t of None \<Rightarrow> False | Some u \<Rightarrow> s \<le> u)"

definition sql_gt :: "string \<Rightarrow> string option \<Rightarrow> bool" where
  "sql_gt s t = (case t of None \<Rightarrow> False | Some u \<Rightarrow> u < s)"

definition watchable :: "string \<Rightarrow> bool" where
  "watchable s \<longleftrightarrow> s = ''pending'' \<or> s = ''underpaid''"

section \<open>Payments\<close>

definition row_to_payment :: "payment \<Rightarrow> payment" where
  "row_to_payment p =
     p\<lparr>p_created_at := normalize_ts (p_created_at p), p_updated_at := normalize_ts (p_updated_at p),
       p_expires_at := normalize_ts (p_expires_at p)\<rparr>"

record new_payment =
  n_id :: string
  n_merchant_id :: string
  n_destination_address :: string
  n_memo :: string
  n_amount :: string
  n_asset :: string
  n_asset_issuer :: "string option"
  n_webhook_url :: "string option"
  n_ttl_secs :: int

definition insert_payment :: "new_payment \<Rightarrow> string \<Rightarrow> int \<Rightarrow> db \<Rightarrow> unit result \<times> db" where
  "insert_payment n amount now d =
     (case (strftime_z now, strftime_z (now + n_ttl_secs n)) of
        (Some ts, Some expires) \<Rightarrow>
          if \<exists>p\<in>set (payments d). p_id p = n_id n then (Inl (Db_Constraint ''payments.id''), d)
          else if \<exists>p\<in>set (payments d). p_memo p = n_memo n
            then (Inl (Db_Constraint ''payments.memo''), d)
          else (Inr (), d\<lparr>payments := payments d @
            [\<lparr>p_id = n_id n, p_merchant_id = n_merchant_id n,
              p_destination_address = n_destination_address n, p_memo = n_memo n,
              p_amount = amount, p_asset = n_asset n, p_status = ''pending'',
              p_webhook_url = n_webhook_url n, p_tx_hash = None, p_paid_amount = None,
              p_created_at = ts, p_updated_at = ts, p_expires_at = expires,
              p_asset_issuer = n_asset_issuer n\<rparr>]\<rparr>)
      | _ \<Rightarrow> (Inl (Db_Constraint ''NOT NULL''), d))"

definition get_payment :: "string \<Rightarrow> payment option result io" where
  "get_payment i = query (\<lambda>now d.
     Inr (map_option row_to_payment (find (\<lambda>p. p_id p = i) (payments d))))"

definition create_payment :: "new_payment \<Rightarrow> payment result io" where
  "create_payment n =
     (case parse_stroops (n_amount n) of
        None \<Rightarrow> err (Msg ''Invalid amount'')
      | Some stroops \<Rightarrow>
          and_then (stmt (insert_payment n (stroops_to_string stroops))) (\<lambda>_.
          and_then (get_payment (n_id n)) (\<lambda>found.
            case found of
              Some p \<Rightarrow> ok p
            | None \<Rightarrow> err (Msg ''Payment not found after insert''))))"

definition find_payment_id_by_idempotency_key :: "string \<Rightarrow> string \<Rightarrow> string option result io" where
  "find_payment_id_by_idempotency_key merchant key = query (\<lambda>now d.
     Inr (map_option i_payment_id
       (find (\<lambda>i. i_merchant_id i = merchant \<and> i_key i = key) (idempotency_keys d))))"

definition insert_idempotency_key ::
  "string \<Rightarrow> string \<Rightarrow> string \<Rightarrow> int \<Rightarrow> db \<Rightarrow> unit result \<times> db" where
  "insert_idempotency_key merchant key pid now d =
     (case strftime_z now of
        None \<Rightarrow> (Inl (Db_Constraint ''NOT NULL''), d)
      | Some ts \<Rightarrow>
          if \<exists>i\<in>set (idempotency_keys d). i_merchant_id i = merchant \<and> i_key i = key
          then (Inr (), d)
          else (Inr (), d\<lparr>idempotency_keys := idempotency_keys d @
            [\<lparr>i_merchant_id = merchant, i_key = key, i_payment_id = pid, i_created_at = ts\<rparr>]\<rparr>))"

definition save_idempotency_key :: "string \<Rightarrow> string \<Rightarrow> string \<Rightarrow> string result io" where
  "save_idempotency_key merchant key pid =
     and_then (stmt (insert_idempotency_key merchant key pid)) (\<lambda>_.
     and_then (find_payment_id_by_idempotency_key merchant key) (\<lambda>stored.
       ok (case stored of Some s \<Rightarrow> s | None \<Rightarrow> pid)))"

definition payment_order :: "payment \<Rightarrow> string \<times> string" where
  "payment_order p = (p_created_at p, p_id p)"

definition status_is :: "string option \<Rightarrow> string \<Rightarrow> bool" where
  "status_is want s = (case want of None \<Rightarrow> True | Some f \<Rightarrow> s = f)"

definition before_cursor :: "(string \<times> string) option \<Rightarrow> string \<times> string \<Rightarrow> bool" where
  "before_cursor cursor k =
     (case cursor of
        None \<Rightarrow> True
      | Some (ts, cid) \<Rightarrow> fst k < ts \<or> fst k = ts \<and> snd k < cid)"

definition list_payments ::
  "string \<Rightarrow> string option \<Rightarrow> int \<Rightarrow> int \<Rightarrow> payment list result io" where
  "list_payments merchant status limit offset = query (\<lambda>now d.
     Inr (map row_to_payment (sql_limit limit (sql_offset offset
       (order_desc payment_order
         (filter (\<lambda>p. p_merchant_id p = merchant \<and> status_is status (p_status p)) (payments d)))))))"

definition count_payments :: "string \<Rightarrow> string option \<Rightarrow> int result io" where
  "count_payments merchant status = query (\<lambda>now d.
     Inr (int (count_where (\<lambda>p. p_merchant_id p = merchant \<and> status_is status (p_status p))
       (payments d))))"

definition select_keyset ::
  "string \<Rightarrow> string option \<Rightarrow> int \<Rightarrow> (string \<times> string) option \<Rightarrow> db \<Rightarrow> payment list" where
  "select_keyset merchant status limit cursor d =
     sql_limit limit (order_desc payment_order
       (filter (\<lambda>p. p_merchant_id p = merchant \<and> status_is status (p_status p) \<and>
                    before_cursor cursor (payment_order p)) (payments d)))"

definition list_payments_keyset ::
  "string \<Rightarrow> string option \<Rightarrow> int \<Rightarrow> (string \<times> string) option \<Rightarrow> payment list result io" where
  "list_payments_keyset merchant status limit cursor = query (\<lambda>now d.
     Inr (map row_to_payment (select_keyset merchant status limit cursor d)))"

definition list_pending :: "payment list result io" where
  "list_pending = query (\<lambda>now d.
     Inr (map row_to_payment (sort_key p_created_at
       (filter (\<lambda>p. watchable (p_status p) \<and> sql_gt (p_expires_at p) (strftime_z now))
         (payments d)))))"

definition overdue :: "int \<Rightarrow> payment \<Rightarrow> bool" where
  "overdue now p \<longleftrightarrow> watchable (p_status p) \<and> sql_le (p_expires_at p) (strftime_z now)"

definition expire_rows :: "int \<Rightarrow> int \<Rightarrow> db \<Rightarrow> payment list result \<times> db" where
  "expire_rows batch now d =
     (let ids = map p_id (sql_limit batch (sort_key p_created_at (filter (overdue now) (payments d)))) in
      case strftime_z now of
        None \<Rightarrow> (Inr [], d)
      | Some ts \<Rightarrow>
          let f = (\<lambda>p. p\<lparr>p_status := ''expired'', p_updated_at := ts\<rparr>) in
          (Inr (map (row_to_payment \<circ> f) (filter (\<lambda>p. p_id p \<in> set ids) (payments d))),
           d\<lparr>payments := update_where (\<lambda>p. p_id p \<in> set ids) f (payments d)\<rparr>))"

definition expire_overdue :: "int \<Rightarrow> payment list result io" where
  "expire_overdue batch = stmt (expire_rows batch)"

definition find_pending_by_memo :: "string \<Rightarrow> payment option result io" where
  "find_pending_by_memo memo = query (\<lambda>now d.
     Inr (map_option row_to_payment (find
       (\<lambda>p. p_memo p = memo \<and> watchable (p_status p) \<and> sql_gt (p_expires_at p) (strftime_z now))
       (payments d))))"

definition settle_row :: "string \<Rightarrow> string \<Rightarrow> string \<Rightarrow> string \<Rightarrow> payment \<Rightarrow> payment" where
  "settle_row status tx paid ts p =
     p\<lparr>p_status := status, p_tx_hash := Some tx, p_paid_amount := Some paid, p_updated_at := ts\<rparr>"

definition update_status_rows ::
  "string \<Rightarrow> string \<Rightarrow> string \<Rightarrow> string \<Rightarrow> int \<Rightarrow> db \<Rightarrow> bool result \<times> db" where
  "update_status_rows i status tx paid now d =
     (let P = (\<lambda>p. p_id p = i \<and> watchable (p_status p)); n = count_where P (payments d) in
      case strftime_z now of
        None \<Rightarrow> (if n = 0 then Inr False else Inl (Db_Constraint ''NOT NULL''), d)
      | Some ts \<Rightarrow>
          (Inr (n = 1), d\<lparr>payments := update_where P (settle_row status tx paid ts) (payments d)\<rparr>))"

definition update_payment_status ::
  "string \<Rightarrow> string \<Rightarrow> string \<Rightarrow> string \<Rightarrow> bool result io" where
  "update_payment_status i status tx paid = stmt (update_status_rows i status tx paid)"

definition memo_exists :: "string \<Rightarrow> bool result io" where
  "memo_exists memo = query (\<lambda>now d. Inr (0 < count_where (\<lambda>p. p_memo p = memo) (payments d)))"

section \<open>The ledger of processed transactions\<close>

definition insert_processed :: "string \<Rightarrow> string \<Rightarrow> int \<Rightarrow> int \<Rightarrow> db \<Rightarrow> bool result \<times> db" where
  "insert_processed pid tx amount now d =
     (case strftime_z now of
        None \<Rightarrow> (Inl (Db_Constraint ''NOT NULL''), d)
      | Some ts \<Rightarrow>
          if \<exists>t\<in>set (processed_transactions d). t_payment_id t = pid \<and> t_tx_hash t = tx
          then (Inr False, d)
          else (Inr True, d\<lparr>processed_transactions := processed_transactions d @
            [\<lparr>t_payment_id = pid, t_tx_hash = tx, t_amount_stroops = amount, t_created_at = ts\<rparr>]\<rparr>))"

definition record_processed_tx :: "string \<Rightarrow> string \<Rightarrow> int \<Rightarrow> bool result io" where
  "record_processed_tx pid tx amount = stmt (insert_processed pid tx amount)"

text \<open>\<open>SUM\<close> over integers is an error as soon as a partial sum leaves 64 bits.\<close>

fun sql_sum :: "int \<Rightarrow> int list \<Rightarrow> int option" where
  "sql_sum acc [] = Some acc"
| "sql_sum acc (x # xs) = (if in_i64 (acc + x) then sql_sum (acc + x) xs else None)"

definition amounts_of :: "string \<Rightarrow> db \<Rightarrow> int list" where
  "amounts_of pid d =
     map t_amount_stroops (filter (\<lambda>t. t_payment_id t = pid) (processed_transactions d))"

definition sum_processed_stroops :: "string \<Rightarrow> int result io" where
  "sum_processed_stroops pid = query (\<lambda>now d.
     case sql_sum 0 (amounts_of pid d) of Some s \<Rightarrow> Inr s | None \<Rightarrow> Inl Db_Overflow)"

section \<open>Key/value state\<close>

definition get_state :: "string \<Rightarrow> string option result io" where
  "get_state key = query (\<lambda>now d.
     Inr (map_option kv_value (find (\<lambda>r. kv_key r = key) (kv_state d))))"

definition upsert_state :: "string \<Rightarrow> string \<Rightarrow> int \<Rightarrow> db \<Rightarrow> unit result \<times> db" where
  "upsert_state key v now d =
     (case strftime_z now of
        None \<Rightarrow> (Inl (Db_Constraint ''NOT NULL''), d)
      | Some ts \<Rightarrow>
          if \<exists>r\<in>set (kv_state d). kv_key r = key
          then (Inr (), d\<lparr>kv_state := update_where (\<lambda>r. kv_key r = key)
                  (\<lambda>r. r\<lparr>kv_value := v, kv_updated_at := ts\<rparr>) (kv_state d)\<rparr>)
          else (Inr (), d\<lparr>kv_state := kv_state d @
                  [\<lparr>kv_key = key, kv_value = v, kv_updated_at = ts\<rparr>]\<rparr>))"

definition set_state :: "string \<Rightarrow> string \<Rightarrow> unit result io" where
  "set_state key v = stmt (upsert_state key v)"

section \<open>Webhook deliveries\<close>

definition insert_delivery ::
  "string \<Rightarrow> string \<Rightarrow> string \<Rightarrow> string \<Rightarrow> string \<Rightarrow> int \<Rightarrow> db \<Rightarrow> unit result \<times> db" where
  "insert_delivery i pid url payload event now d =
     (case strftime_z now of
        None \<Rightarrow> (Inl (Db_Constraint ''NOT NULL''), d)
      | Some ts \<Rightarrow>
          if \<exists>r\<in>set (webhook_deliveries d). d_id r = i
          then (Inl (Db_Constraint ''webhook_deliveries.id''), d)
          else (Inr (), d\<lparr>webhook_deliveries := webhook_deliveries d @
            [\<lparr>d_id = i, d_payment_id = pid, d_url = url, d_payload = payload,
              d_event_type = Some event, d_status = ''pending'', d_attempts = 0,
              d_last_attempt = None, d_acknowledged_at = None, d_created_at = ts\<rparr>]\<rparr>))"

definition save_webhook_delivery ::
  "string \<Rightarrow> string \<Rightarrow> string \<Rightarrow> string \<Rightarrow> string \<Rightarrow> unit result io" where
  "save_webhook_delivery i pid url payload event = stmt (insert_delivery i pid url payload event)"

definition update_delivery_rows :: "string \<Rightarrow> string \<Rightarrow> int \<Rightarrow> int \<Rightarrow> db \<Rightarrow> unit result \<times> db" where
  "update_delivery_rows i status attempts now d =
     (Inr (), d\<lparr>webhook_deliveries := update_where (\<lambda>r. d_id r = i)
        (\<lambda>r. r\<lparr>d_status := status, d_attempts := attempts, d_last_attempt := strftime_z now\<rparr>)
        (webhook_deliveries d)\<rparr>)"

definition update_webhook_delivery :: "string \<Rightarrow> string \<Rightarrow> int \<Rightarrow> unit result io" where
  "update_webhook_delivery i status attempts = stmt (update_delivery_rows i status attempts)"

definition FALLBACK_EVENT :: string where
  "FALLBACK_EVENT = ''payment.completed''"

fun json_event :: "json option \<Rightarrow> string option" where
  "json_event (Some (JObj kvs)) =
     (case map_of (rev kvs) ''event'' of Some (JStr s) \<Rightarrow> Some s | _ \<Rightarrow> None)"
| "json_event _ = None"

definition delivery_event :: "ext \<Rightarrow> webhook_delivery \<Rightarrow> string" where
  "delivery_event x r =
     (case d_event_type r of
        Some e \<Rightarrow> e
      | None \<Rightarrow>
          (case json_event (x_json_parse x (d_payload r)) of Some e \<Rightarrow> e | None \<Rightarrow> FALLBACK_EVENT))"

definition row_to_webhook_delivery :: "webhook_delivery \<Rightarrow> webhook_delivery" where
  "row_to_webhook_delivery r = r\<lparr>d_created_at := normalize_ts (d_created_at r)\<rparr>"

text \<open>\<open>1 << n\<close>; a negative count shifts right.\<close>

definition sql_shl1 :: "int \<Rightarrow> int" where
  "sql_shl1 n = (if n < 0 then 0 else 2 ^ nat n)"

definition redrive_wait :: "int \<Rightarrow> int \<Rightarrow> int \<Rightarrow> int \<Rightarrow> nat \<Rightarrow> int \<Rightarrow> int" where
  "redrive_wait grace backoff_initial backoff_max jitter rnd attempts =
     (if attempts = 0 then grace
      else max grace (min (backoff_initial * sql_shl1 (min (attempts - 1) 32)) backoff_max))
     + (if 0 < jitter then int rnd mod (jitter + 1) else 0)"

definition redrivable ::
  "int \<Rightarrow> int \<Rightarrow> int \<Rightarrow> int \<Rightarrow> int \<Rightarrow> int \<Rightarrow> nat \<Rightarrow> webhook_delivery \<Rightarrow> bool" where
  "redrivable max_attempts grace backoff_initial backoff_max jitter now rnd r \<longleftrightarrow>
     (d_status r = ''pending'' \<or> d_status r = ''failed'') \<and> d_attempts r < max_attempts \<and>
     (case (sql_datetime_plus (case d_last_attempt r of Some t \<Rightarrow> t | None \<Rightarrow> d_created_at r)
              (redrive_wait grace backoff_initial backoff_max jitter rnd (d_attempts r)),
            sql_datetime now) of
        (Some due, Some t) \<Rightarrow> due \<le> t
      | _ \<Rightarrow> False)"

definition list_redrivable_deliveries ::
  "int \<Rightarrow> int \<Rightarrow> int \<Rightarrow> int \<Rightarrow> int \<Rightarrow> webhook_delivery list result io" where
  "list_redrivable_deliveries max_attempts grace backoff_initial backoff_max jitter =
     stmt_rnd (\<lambda>rnd now d.
       (Inr (map row_to_webhook_delivery (sort_key d_created_at
          (map snd (filter
            (\<lambda>(i, r). redrivable max_attempts grace backoff_initial backoff_max jitter now (rnd i) r)
            (enumerate 0 (webhook_deliveries d)))))), d))"

definition delivery_order :: "webhook_delivery \<Rightarrow> string \<times> string" where
  "delivery_order r = (d_created_at r, d_id r)"

definition list_webhook_deliveries :: "string \<Rightarrow> webhook_delivery list result io" where
  "list_webhook_deliveries pid = query (\<lambda>now d.
     Inr (map row_to_webhook_delivery (order_desc d_created_at
       (filter (\<lambda>r. d_payment_id r = pid) (webhook_deliveries d)))))"

definition list_webhook_deliveries_keyset ::
  "string \<Rightarrow> string option \<Rightarrow> int \<Rightarrow> (string \<times> string) option \<Rightarrow> webhook_delivery list result io" where
  "list_webhook_deliveries_keyset pid status limit cursor = query (\<lambda>now d.
     Inr (map row_to_webhook_delivery (sql_limit limit (order_desc delivery_order
       (filter (\<lambda>r. d_payment_id r = pid \<and> status_is status (d_status r) \<and>
                    before_cursor cursor (delivery_order r)) (webhook_deliveries d))))))"

definition owned_by :: "string \<Rightarrow> db \<Rightarrow> webhook_delivery \<Rightarrow> bool" where
  "owned_by merchant d r \<longleftrightarrow>
     (\<exists>p\<in>set (payments d). p_id p = d_payment_id r \<and> p_merchant_id p = merchant)"

definition list_deliveries_for_merchant ::
  "string \<Rightarrow> string \<Rightarrow> int \<Rightarrow> (string \<times> string) option \<Rightarrow> webhook_delivery list result io" where
  "list_deliveries_for_merchant merchant status limit cursor = query (\<lambda>now d.
     Inr (map row_to_webhook_delivery (sql_limit limit (order_desc delivery_order
       (filter (\<lambda>r. owned_by merchant d r \<and> d_status r = status \<and>
                    before_cursor cursor (delivery_order r)) (webhook_deliveries d))))))"

definition requeue_rows :: "string \<Rightarrow> string list \<Rightarrow> int \<Rightarrow> db \<Rightarrow> nat result \<times> db" where
  "requeue_rows merchant ids now d =
     (let P = (\<lambda>r. d_status r = ''failed'' \<and> owned_by merchant d r \<and> (ids \<noteq> [] \<longrightarrow> d_id r \<in> set ids)) in
      (Inr (count_where P (webhook_deliveries d)),
       d\<lparr>webhook_deliveries := update_where P
          (\<lambda>r. r\<lparr>d_status := ''pending'', d_attempts := 0, d_acknowledged_at := strftime_z now\<rparr>)
          (webhook_deliveries d)\<rparr>))"

definition requeue_failed_deliveries :: "string \<Rightarrow> string list \<Rightarrow> nat result io" where
  "requeue_failed_deliveries merchant ids = stmt (requeue_rows merchant ids)"

definition get_webhook_delivery :: "string \<Rightarrow> webhook_delivery option result io" where
  "get_webhook_delivery i = query (\<lambda>now d.
     Inr (map_option row_to_webhook_delivery (find (\<lambda>r. d_id r = i) (webhook_deliveries d))))"

definition ping :: "unit result io" where
  "ping = query (\<lambda>now d. Inr ())"

section \<open>Retention\<close>

definition PRUNE_BATCH :: nat where
  "PRUNE_BATCH = 500"

definition cutoff :: "int \<Rightarrow> int \<Rightarrow> string option" where
  "cutoff now days = strftime_z (now - days * 86400)"

definition prune_idempotency_rows :: "int \<Rightarrow> int \<Rightarrow> db \<Rightarrow> nat result \<times> db" where
  "prune_idempotency_rows days now d =
     (let P = (\<lambda>i. sql_lt (i_created_at i) (cutoff now days)) in
      (Inr (min PRUNE_BATCH (count_where P (idempotency_keys d))),
       d\<lparr>idempotency_keys := on_first PRUNE_BATCH P (\<lambda>_. None) (idempotency_keys d)\<rparr>))"

definition prune_idempotency_keys :: "int \<Rightarrow> nat result io" where
  "prune_idempotency_keys days = stmt (prune_idempotency_rows days)"

definition prunable :: "int \<Rightarrow> int \<Rightarrow> webhook_delivery \<Rightarrow> bool" where
  "prunable days now r \<longleftrightarrow>
     (d_status r = ''delivered'' \<or> d_status r = ''failed'' \<and> d_acknowledged_at r \<noteq> None) \<and>
     sql_lt (d_created_at r) (cutoff now days)"

definition prune_delivery_rows :: "int \<Rightarrow> int \<Rightarrow> db \<Rightarrow> nat result \<times> db" where
  "prune_delivery_rows days now d =
     (Inr (min PRUNE_BATCH (count_where (prunable days now) (webhook_deliveries d))),
      d\<lparr>webhook_deliveries :=
         on_first PRUNE_BATCH (prunable days now) (\<lambda>_. None) (webhook_deliveries d)\<rparr>)"

definition prune_webhook_deliveries :: "int \<Rightarrow> nat result io" where
  "prune_webhook_deliveries days = stmt (prune_delivery_rows days)"

definition compactable :: "int \<Rightarrow> int \<Rightarrow> webhook_delivery \<Rightarrow> bool" where
  "compactable days now r \<longleftrightarrow>
     d_status r = ''failed'' \<and> d_acknowledged_at r = None \<and> d_payload r \<noteq> [] \<and>
     sql_lt (d_created_at r) (cutoff now days)"

definition compact_delivery_rows :: "int \<Rightarrow> int \<Rightarrow> db \<Rightarrow> nat result \<times> db" where
  "compact_delivery_rows days now d =
     (Inr (min PRUNE_BATCH (count_where (compactable days now) (webhook_deliveries d))),
      d\<lparr>webhook_deliveries :=
         on_first PRUNE_BATCH (compactable days now) (\<lambda>r. Some (r\<lparr>d_payload := []\<rparr>))
           (webhook_deliveries d)\<rparr>)"

definition compact_stale_failed_deliveries :: "int \<Rightarrow> nat result io" where
  "compact_stale_failed_deliveries days = stmt (compact_delivery_rows days)"

section \<open>Merchants and API keys\<close>

definition hash_api_key :: "ext \<Rightarrow> string \<Rightarrow> string" where
  "hash_api_key x raw = x_sha256_hex x raw"

definition insert_api_key ::
  "string \<Rightarrow> string \<Rightarrow> string \<Rightarrow> string \<Rightarrow> string option \<Rightarrow> int \<Rightarrow> db \<Rightarrow> unit result \<times> db" where
  "insert_api_key i merchant hash prefix label now d =
     (case strftime_z now of
        None \<Rightarrow> (Inl (Db_Constraint ''NOT NULL''), d)
      | Some ts \<Rightarrow>
          if \<exists>k\<in>set (api_keys d). k_id k = i \<or> k_key_hash k = hash
          then (Inl (Db_Constraint ''api_keys''), d)
          else (Inr (), d\<lparr>api_keys := api_keys d @
            [\<lparr>k_id = i, k_merchant_id = merchant, k_key_hash = hash, k_prefix = prefix,
              k_label = label, k_created_at = ts, k_last_used_at = None, k_revoked_at = None\<rparr>]\<rparr>))"

definition insert_merchant :: "string \<Rightarrow> string \<Rightarrow> int \<Rightarrow> db \<Rightarrow> unit result \<times> db" where
  "insert_merchant i hash now d =
     (case strftime_z now of
        None \<Rightarrow> (Inl (Db_Constraint ''NOT NULL''), d)
      | Some ts \<Rightarrow>
          if \<exists>m\<in>set (merchants d). m_id m = i \<or> m_api_key_hash m = hash
          then (Inl (Db_Constraint ''merchants''), d)
          else (Inr (), d\<lparr>merchants := merchants d @
            [\<lparr>m_id = i, m_api_key_hash = hash, m_created_at = ts\<rparr>]\<rparr>))"

text \<open>The transaction of \<open>create_merchant\<close>: both inserts take effect at the commit, or neither does.\<close>

definition merchant_transaction ::
  "string \<Rightarrow> string \<Rightarrow> string \<Rightarrow> string \<Rightarrow> int \<Rightarrow> db \<Rightarrow> unit result \<times> db" where
  "merchant_transaction i key_id hash prefix now d =
     (case insert_merchant i hash now d of
        (Inl e, _) \<Rightarrow> (Inl e, d)
      | (Inr _, d1) \<Rightarrow>
          (case insert_api_key key_id i hash prefix (Some ''initial'') now d1 of
             (Inl e, _) \<Rightarrow> (Inl e, d)
           | (Inr _, d2) \<Rightarrow> (Inr (), d2)))"

definition create_merchant :: "ext \<Rightarrow> string \<Rightarrow> string \<Rightarrow> string \<Rightarrow> string result io" where
  "create_merchant x i raw prefix =
     bindP new_uuid (\<lambda>key_id.
     and_then (stmt (merchant_transaction i key_id (hash_api_key x raw) prefix)) (\<lambda>_. ok key_id))"

definition KEY_PREFIX_LEN :: nat where
  "KEY_PREFIX_LEN = 12"

text \<open>\<open>rng.fill_bytes\<close> is the environment's; the rest is the formatting.\<close>

definition api_key_of_bytes :: "ext \<Rightarrow> string \<Rightarrow> string \<times> string" where
  "api_key_of_bytes x bytes =
     (let raw = ''sg_'' @ x_hex_encode x bytes in (raw, take KEY_PREFIX_LEN raw))"

definition generate_api_key :: "ext \<Rightarrow> (string \<times> string) io" where
  "generate_api_key x =
     effect (\<lambda>w. (api_key_of_bytes x (e_key_bytes (w_env w) (w_tick w)), advance 0 w))"

definition create_api_key ::
  "ext \<Rightarrow> string \<Rightarrow> string \<Rightarrow> string \<Rightarrow> string option \<Rightarrow> string result io" where
  "create_api_key x merchant raw prefix label =
     bindP new_uuid (\<lambda>i.
     and_then (stmt (insert_api_key i merchant (hash_api_key x raw) prefix label)) (\<lambda>_. ok i))"

definition touch_key_rows :: "string \<Rightarrow> int \<Rightarrow> db \<Rightarrow> unit result \<times> db" where
  "touch_key_rows i now d =
     (Inr (), d\<lparr>api_keys := update_where
        (\<lambda>k. k_id k = i \<and> (case k_last_used_at k of None \<Rightarrow> True | Some t \<Rightarrow> sql_lt t (strftime_z (now - 60))))
        (\<lambda>k. k\<lparr>k_last_used_at := strftime_z now\<rparr>) (api_keys d)\<rparr>)"

definition live_key :: "string \<Rightarrow> db \<Rightarrow> api_key option" where
  "live_key hash d = find (\<lambda>k. k_key_hash k = hash \<and> k_revoked_at k = None) (api_keys d)"

definition find_merchant_by_key :: "ext \<Rightarrow> string \<Rightarrow> string option result io" where
  "find_merchant_by_key x raw =
     and_then (query (\<lambda>now d. Inr (live_key (hash_api_key x raw) d))) (\<lambda>row.
       case row of
         None \<Rightarrow> ok None
       | Some k \<Rightarrow> and_then (stmt (touch_key_rows (k_id k))) (\<lambda>_. ok (Some (k_merchant_id k))))"

record api_key_info =
  ki_id :: string
  ki_prefix :: string
  ki_label :: "string option"
  ki_created_at :: string
  ki_last_used_at :: "string option"
  ki_revoked_at :: "string option"

definition key_info :: "api_key \<Rightarrow> api_key_info" where
  "key_info k =
     \<lparr>ki_id = k_id k, ki_prefix = k_prefix k, ki_label = k_label k, ki_created_at = k_created_at k,
      ki_last_used_at = k_last_used_at k, ki_revoked_at = k_revoked_at k\<rparr>"

definition list_api_keys :: "string \<Rightarrow> api_key_info list result io" where
  "list_api_keys merchant = query (\<lambda>now d.
     Inr (map key_info (order_desc (\<lambda>k. (k_created_at k, k_id k))
       (filter (\<lambda>k. k_merchant_id k = merchant) (api_keys d)))))"

definition revoke_rows :: "string \<Rightarrow> string \<Rightarrow> int \<Rightarrow> db \<Rightarrow> bool result \<times> db" where
  "revoke_rows merchant i now d =
     (let P = (\<lambda>k. k_id k = i \<and> k_merchant_id k = merchant \<and> k_revoked_at k = None) in
      (Inr (0 < count_where P (api_keys d)),
       d\<lparr>api_keys := update_where P (\<lambda>k. k\<lparr>k_revoked_at := strftime_z now\<rparr>) (api_keys d)\<rparr>))"

definition revoke_api_key :: "string \<Rightarrow> string \<Rightarrow> bool result io" where
  "revoke_api_key merchant i = stmt (revoke_rows merchant i)"

definition active_keys :: "string \<Rightarrow> db \<Rightarrow> nat" where
  "active_keys merchant d =
     count_where (\<lambda>k. k_merchant_id k = merchant \<and> k_revoked_at k = None) (api_keys d)"

definition count_active_api_keys :: "string \<Rightarrow> int result io" where
  "count_active_api_keys merchant = query (\<lambda>now d. Inr (int (active_keys merchant d)))"

definition merchant_exists :: "string \<Rightarrow> bool result io" where
  "merchant_exists i = query (\<lambda>now d. Inr (0 < count_where (\<lambda>m. m_id m = i) (merchants d)))"

end
