(* ===== verification/Db_Inv.thy ===== *)
theory Db_Inv
  imports Db
begin

text \<open>
  What the tables always satisfy and how they may change. \<open>db_inv now d\<close> is the invariant: unique keys,
  valid statuses, canonical amounts and timestamps, every completed payment covered by the ledger,
  every expired one past its deadline. \<open>evolves d d'\<close> is the guarantee of every statement of the
  running gateway: payments keep their terms and leave a terminal status never, the ledger and the
  merchants only grow, a revoked key stays revoked. Both are shown statement by statement, then lifted
  to procedures and interleavings by interpreting \<open>rely_guarantee\<close>.
\<close>

section \<open>Invariant\<close>

definition is_ts :: "string \<Rightarrow> bool" where
  "is_ts s \<longleftrightarrow> (case sqlite_parse s of Some t \<Rightarrow> strftime_z t = Some s | None \<Rightarrow> False)"

lemma is_ts_strftime [simp]: "strftime_z t = Some s \<Longrightarrow> is_ts s"
  by (simp add: is_ts_def sqlite_parse_strftime)

lemma is_ts_normal: "is_ts s \<Longrightarrow> normalize_ts s = s"
  by (auto simp: is_ts_def normalize_ts_stored split: option.splits)

definition statuses :: "string list" where
  "statuses = [''pending'', ''underpaid'', ''completed'', ''expired'']"

definition delivery_statuses :: "string list" where
  "delivery_statuses = [''pending'', ''delivered'', ''failed'']"

definition payment_ok :: "payment \<Rightarrow> bool" where
  "payment_ok p \<longleftrightarrow>
     p_status p \<in> set statuses \<and> canonical (p_amount p) = Some (p_amount p) \<and>
     is_ts (p_created_at p) \<and> is_ts (p_updated_at p) \<and> is_ts (p_expires_at p) \<and>
     (p_status p = ''pending'' \<longrightarrow> p_tx_hash p = None \<and> p_paid_amount p = None)"

definition delivery_ok :: "webhook_delivery \<Rightarrow> bool" where
  "delivery_ok r \<longleftrightarrow> d_status r \<in> set delivery_statuses \<and> is_ts (d_created_at r) \<and> 0 \<le> d_attempts r"

definition processed_ok :: "processed_tx \<Rightarrow> bool" where
  "processed_ok t \<longleftrightarrow> 0 < t_amount_stroops t \<and> t_amount_stroops t \<le> i64_max"

definition db_ok :: "db \<Rightarrow> bool" where
  "db_ok d \<longleftrightarrow>
     (\<forall>p\<in>set (payments d). payment_ok p) \<and>
     distinct (map p_id (payments d)) \<and> distinct (map p_memo (payments d)) \<and>
     (\<forall>r\<in>set (webhook_deliveries d). delivery_ok r) \<and> distinct (map d_id (webhook_deliveries d)) \<and>
     (\<forall>t\<in>set (processed_transactions d). processed_ok t) \<and>
     distinct (map (\<lambda>t. (t_payment_id t, t_tx_hash t)) (processed_transactions d)) \<and>
     distinct (map (\<lambda>i. (i_merchant_id i, i_key i)) (idempotency_keys d)) \<and>
     distinct (map k_id (api_keys d)) \<and> distinct (map k_key_hash (api_keys d)) \<and>
     distinct (map m_id (merchants d)) \<and> distinct (map kv_key (kv_state d))"

definition ledger_total :: "string \<Rightarrow> db \<Rightarrow> int" where
  "ledger_total pid d = sum_list (amounts_of pid d)"

definition covered :: "db \<Rightarrow> payment \<Rightarrow> bool" where
  "covered d p \<longleftrightarrow>
     (case parse_stroops (p_amount p) of Some e \<Rightarrow> e \<le> ledger_total (p_id p) d | None \<Rightarrow> False)"

definition deadline_passed :: "int \<Rightarrow> payment \<Rightarrow> bool" where
  "deadline_passed now p \<longleftrightarrow> (case sqlite_parse (p_expires_at p) of Some t \<Rightarrow> t \<le> now | None \<Rightarrow> False)"

definition db_inv :: "int \<Rightarrow> db \<Rightarrow> bool" where
  "db_inv now d \<longleftrightarrow>
     db_ok d \<and>
     (\<forall>p\<in>set (payments d). p_status p = ''completed'' \<longrightarrow> covered d p) \<and>
     (\<forall>p\<in>set (payments d). p_status p = ''expired'' \<longrightarrow> deadline_passed now p)"

lemma inv_later: "db_inv now d \<Longrightarrow> now \<le> now' \<Longrightarrow> db_inv now' d"
  by (fastforce simp: db_inv_def deadline_passed_def split: option.splits)

section \<open>Guarantee\<close>

definition same_terms :: "payment \<Rightarrow> payment \<Rightarrow> bool" where
  "same_terms p q \<longleftrightarrow>
     p_id p = p_id q \<and> p_merchant_id p = p_merchant_id q \<and>
     p_destination_address p = p_destination_address q \<and> p_memo p = p_memo q \<and>
     p_amount p = p_amount q \<and> p_asset p = p_asset q \<and> p_webhook_url p = p_webhook_url q \<and>
     p_created_at p = p_created_at q \<and> p_expires_at p = p_expires_at q \<and>
     p_asset_issuer p = p_asset_issuer q"

definition payment_evolves :: "payment \<Rightarrow> payment \<Rightarrow> bool" where
  "payment_evolves p q \<longleftrightarrow> same_terms p q \<and> (p = q \<or> watchable (p_status p) \<and> p_status q \<noteq> ''pending'')"

definition key_evolves :: "api_key \<Rightarrow> api_key \<Rightarrow> bool" where
  "key_evolves k l \<longleftrightarrow>
     k_id k = k_id l \<and> k_merchant_id k = k_merchant_id l \<and> k_key_hash k = k_key_hash l \<and>
     (k_revoked_at k \<noteq> None \<longrightarrow> k_revoked_at l = k_revoked_at k)"

text \<open>Rows change pointwise by \<open>E\<close> and new rows are appended.\<close>

definition grows :: "('a \<Rightarrow> 'a \<Rightarrow> bool) \<Rightarrow> 'a list \<Rightarrow> 'a list \<Rightarrow> bool" where
  "grows E xs ys \<longleftrightarrow> length xs \<le> length ys \<and> (\<forall>i<length xs. E (xs ! i) (ys ! i))"

definition evolves :: "db \<Rightarrow> db \<Rightarrow> bool" where
  "evolves d d' \<longleftrightarrow>
     grows payment_evolves (payments d) (payments d') \<and>
     grows (=) (processed_transactions d) (processed_transactions d') \<and>
     grows key_evolves (api_keys d) (api_keys d') \<and>
     grows (=) (merchants d) (merchants d')"

lemma payment_evolves_refl [simp]: "payment_evolves p p"
  by (simp add: payment_evolves_def same_terms_def)

lemma key_evolves_refl [simp]: "key_evolves k k"
  by (simp add: key_evolves_def)

lemma payment_evolves_trans: "payment_evolves p q \<Longrightarrow> payment_evolves q r \<Longrightarrow> payment_evolves p r"
  by (auto simp: payment_evolves_def same_terms_def)

lemma key_evolves_trans: "key_evolves k l \<Longrightarrow> key_evolves l m \<Longrightarrow> key_evolves k m"
  by (auto simp: key_evolves_def)

lemma grows_refl: "(\<And>x. E x x) \<Longrightarrow> grows E xs xs"
  by (simp add: grows_def)

lemma grows_trans:
  assumes "\<And>x y z. E x y \<Longrightarrow> E y z \<Longrightarrow> E x z" "grows E xs ys" "grows E ys zs"
  shows "grows E xs zs"
  using assms(2,3) unfolding grows_def by (meson assms(1) le_trans less_le_trans)

lemma grows_append [simp]: "(\<And>x. E x x) \<Longrightarrow> grows E xs (xs @ ys)"
  by (simp add: grows_def nth_append)

lemma grows_update_where [simp]:
  "(\<And>x. x \<in> set xs \<Longrightarrow> P x \<Longrightarrow> E x (f x)) \<Longrightarrow> (\<And>x. E x x) \<Longrightarrow> grows E xs (update_where P f xs)"
  by (auto simp: grows_def update_where_def)

lemma grows_nth: "grows E xs ys \<Longrightarrow> i < length xs \<Longrightarrow> i < length ys \<and> E (xs ! i) (ys ! i)"
  by (auto simp: grows_def)

lemma grows_mem: "grows E xs ys \<Longrightarrow> x \<in> set xs \<Longrightarrow> \<exists>y\<in>set ys. E x y"
  by (metis grows_nth in_set_conv_nth nth_mem)

lemma grows_eq: "grows (=) xs ys \<longleftrightarrow> (\<exists>zs. ys = xs @ zs)"
proof
  assume g: "grows (=) xs ys"
  then have "take (length xs) ys = xs" by (intro nth_equalityI) (auto simp: grows_def)
  then show "\<exists>zs. ys = xs @ zs" by (metis append_take_drop_id)
qed (auto simp: grows_def nth_append)

lemma grows_eq_refl [simp]: "grows (=) xs xs"
  by (simp add: grows_eq)

lemma evolves_refl [simp]: "evolves d d"
  by (simp add: evolves_def grows_refl)

lemma evolves_trans: "evolves d d' \<Longrightarrow> evolves d' d'' \<Longrightarrow> evolves d d''"
  using grows_trans [of payment_evolves, OF payment_evolves_trans]
    grows_trans [of key_evolves, OF key_evolves_trans]
  by (auto simp: evolves_def grows_eq)

lemma amounts_of_evolves:
  assumes "evolves d d'"
  shows "\<exists>xs. amounts_of pid d' = amounts_of pid d @ xs \<and>
              (db_ok d' \<longrightarrow> (\<forall>x\<in>set xs. 0 < x))"
proof -
  obtain ts where ts: "processed_transactions d' = processed_transactions d @ ts"
    using assms by (auto simp: evolves_def grows_eq)
  then have "db_ok d' \<Longrightarrow> \<forall>t\<in>set ts. processed_ok t" by (simp add: db_ok_def)
  with ts show ?thesis by (auto simp: amounts_of_def processed_ok_def)
qed

text \<open>The total received for an intent never shrinks.\<close>

lemma ledger_total_mono:
  assumes "evolves d d'" "db_ok d'"
  shows "ledger_total pid d \<le> ledger_total pid d'"
proof -
  obtain xs where xs: "amounts_of pid d' = amounts_of pid d @ xs" "\<forall>x\<in>set xs. 0 < x"
    using amounts_of_evolves [OF assms(1)] assms(2) by blast
  have "0 \<le> sum_list xs" using xs(2) by (intro sum_list_nonneg) fastforce
  with xs(1) show ?thesis by (simp add: ledger_total_def)
qed

section \<open>Statements\<close>

definition safe_stmt :: "((nat \<Rightarrow> nat) \<Rightarrow> int \<Rightarrow> db \<Rightarrow> 'a result \<times> db) \<Rightarrow> bool" where
  "safe_stmt f \<longleftrightarrow>
     (\<forall>rnd now d. db_inv now d \<longrightarrow> evolves d (snd (f rnd now d)) \<and> db_inv now (snd (f rnd now d)))"

lemma safe_stmtI:
  assumes "\<And>rnd now d. db_inv now d \<Longrightarrow> evolves d (snd (f rnd now d))"
    and "\<And>rnd now d. db_inv now d \<Longrightarrow> db_inv now (snd (f rnd now d))"
  shows "safe_stmt f"
  using assms by (simp add: safe_stmt_def)

lemma safe_query: "safe_stmt (\<lambda>rnd now d. (f now d, d))" "safe_stmt (\<lambda>rnd now d. (g rnd now d, d))"
  by (simp_all add: safe_stmt_def)

lemma set_update_where: "x \<in> set (update_where P f rows) \<Longrightarrow> \<exists>r\<in>set rows. x = (if P r then f r else r)"
  by (auto simp: update_where_def)

lemma map_update_where: "(\<And>r. g (f r) = g r) \<Longrightarrow> map g (update_where P f rows) = map g rows"
  by (simp add: update_where_def)

lemma set_on_first:
  "r \<in> set (on_first n P g rows) \<Longrightarrow> r \<in> set rows \<or> (\<exists>q\<in>set rows. P q \<and> g q = Some r)"
  by (induction n P g rows rule: on_first.induct) (auto split: if_splits option.splits)

lemma distinct_on_first:
  assumes "\<And>r r'. g r = Some r' \<Longrightarrow> h r' = h r" "distinct (map h rows)"
  shows "distinct (map h (on_first n P g rows)) \<and> h ` set (on_first n P g rows) \<subseteq> h ` set rows"
  using assms
  by (induction n P g rows rule: on_first.induct) (auto split: option.splits, (metis image_eqI subsetD)+)

lemma covered_cong: "processed_transactions d' = processed_transactions d \<Longrightarrow> covered d' p = covered d p"
  by (simp add: covered_def ledger_total_def amounts_of_def split: option.split)

lemma covered_mono: "covered d p \<Longrightarrow> evolves d d' \<Longrightarrow> db_ok d' \<Longrightarrow> covered d' p"
  using ledger_total_mono [of d d' "p_id p"] by (auto simp: covered_def split: option.splits)

lemma covered_same: "same_terms p q \<Longrightarrow> covered d q = covered d p"
  by (simp add: covered_def same_terms_def split: option.split)

lemma deadline_same: "same_terms p q \<Longrightarrow> deadline_passed now q = deadline_passed now p"
  by (simp add: deadline_passed_def same_terms_def split: option.split)

text \<open>Statements that leave payments and the ledger alone need only keep \<open>db_ok\<close>.\<close>

lemma inv_other:
  assumes "db_inv now d" "payments d' = payments d"
    "processed_transactions d' = processed_transactions d" "db_ok d'"
  shows "db_inv now d'"
  using assms by (simp add: db_inv_def covered_cong [of d' d])

lemma safe_insert_payment:
  assumes "canonical amount = Some amount"
  shows "safe_stmt (\<lambda>_. insert_payment n amount)"
proof (rule safe_stmtI)
  fix rnd now d
  show "evolves d (snd (insert_payment n amount now d))"
    by (simp add: insert_payment_def evolves_def grows_refl split: option.split)
next
  fix now d assume i: "db_inv now d"
  show "db_inv now (snd (insert_payment n amount now d))"
    using i assms
    by (auto simp: insert_payment_def db_inv_def db_ok_def payment_ok_def statuses_def covered_def
        ledger_total_def amounts_of_def split: option.splits)
qed

lemma safe_insert_idempotency_key: "safe_stmt (\<lambda>_. insert_idempotency_key m k pid)"
proof (rule safe_stmtI)
  fix rnd now d
  show "evolves d (snd (insert_idempotency_key m k pid now d))"
    by (simp add: insert_idempotency_key_def evolves_def grows_refl split: option.split)
next
  fix now d assume i: "db_inv now d"
  then have ok: "db_ok (snd (insert_idempotency_key m k pid now d))"
    by (auto simp: insert_idempotency_key_def db_inv_def db_ok_def split: option.splits)
  show "db_inv now (snd (insert_idempotency_key m k pid now d))"
    by (rule inv_other [OF i _ _ ok]) (simp_all add: insert_idempotency_key_def split: option.split)
qed

lemma safe_insert_processed:
  assumes "0 < amount" "amount \<le> i64_max"
  shows "safe_stmt (\<lambda>_. insert_processed pid tx amount)"
proof (rule safe_stmtI)
  fix rnd now d
  show "evolves d (snd (insert_processed pid tx amount now d))"
    by (simp add: insert_processed_def evolves_def grows_refl split: option.split)
next
  fix now d assume i: "db_inv now d"
  let ?d' = "snd (insert_processed pid tx amount now d)"
  have e: "evolves d ?d'"
    by (simp add: insert_processed_def evolves_def grows_refl split: option.split)
  have ok: "db_ok ?d'" using i assms
    by (auto simp: insert_processed_def db_inv_def db_ok_def processed_ok_def split: option.splits)
  have "payments ?d' = payments d" by (simp add: insert_processed_def split: option.split)
  with i e ok covered_mono show "db_inv now ?d'" by (auto simp: db_inv_def)
qed

lemma safe_upsert_state: "safe_stmt (\<lambda>_. upsert_state k v)"
proof (rule safe_stmtI)
  fix rnd now d
  show "evolves d (snd (upsert_state k v now d))"
    by (simp add: upsert_state_def evolves_def grows_refl split: option.split)
next
  fix now d assume i: "db_inv now d"
  then have ok: "db_ok (snd (upsert_state k v now d))"
    by (auto simp: upsert_state_def db_inv_def db_ok_def map_update_where split: option.splits)
  show "db_inv now (snd (upsert_state k v now d))"
    by (rule inv_other [OF i _ _ ok]) (simp_all add: upsert_state_def split: option.split)
qed

lemma safe_insert_delivery: "safe_stmt (\<lambda>_. insert_delivery i pid url payload event)"
proof (rule safe_stmtI)
  fix rnd now d
  show "evolves d (snd (insert_delivery i pid url payload event now d))"
    by (simp add: insert_delivery_def evolves_def grows_refl split: option.split)
next
  fix now d assume i: "db_inv now d"
  then have ok: "db_ok (snd (insert_delivery i pid url payload event now d))"
    by (auto simp: insert_delivery_def db_inv_def db_ok_def delivery_ok_def delivery_statuses_def
        split: option.splits)
  show "db_inv now (snd (insert_delivery i pid url payload event now d))"
    by (rule inv_other [OF i _ _ ok]) (simp_all add: insert_delivery_def split: option.split)
qed

lemma safe_deliveries:
  assumes "\<And>rnd now d. snd (f rnd now d) = d\<lparr>webhook_deliveries := g now d (webhook_deliveries d)\<rparr>"
    and "\<And>now d rows. \<forall>r\<in>set rows. delivery_ok r \<Longrightarrow> \<forall>r\<in>set (g now d rows). delivery_ok r"
    and "\<And>now d rows. distinct (map d_id rows) \<Longrightarrow> distinct (map d_id (g now d rows))"
  shows "safe_stmt f"
proof (rule safe_stmtI)
  fix rnd now d
  show "evolves d (snd (f rnd now d))" by (simp add: assms(1) evolves_def grows_refl)
next
  fix rnd now d assume i: "db_inv now d"
  then have ok: "db_ok (snd (f rnd now d))" using assms(2,3) by (auto simp: assms(1) db_inv_def db_ok_def)
  show "db_inv now (snd (f rnd now d))" by (rule inv_other [OF i _ _ ok]) (simp_all add: assms(1))
qed

lemma delivery_ok_update:
  assumes "\<forall>r\<in>set rows. delivery_ok r" "\<And>r. delivery_ok r \<Longrightarrow> delivery_ok (f r)"
  shows "\<forall>r\<in>set (update_where P f rows). delivery_ok r"
  using assms by (auto simp: update_where_def)

lemma safe_update_delivery:
  assumes "status \<in> set delivery_statuses" "0 \<le> attempts"
  shows "safe_stmt (\<lambda>_. update_delivery_rows i status attempts)"
  using assms
  by (intro safe_deliveries [where g = "\<lambda>now d. update_where (\<lambda>r. d_id r = i)
        (\<lambda>r. r\<lparr>d_status := status, d_attempts := attempts, d_last_attempt := strftime_z now\<rparr>)"])
    (auto simp: update_delivery_rows_def map_update_where delivery_ok_def dest!: set_update_where)

lemma safe_requeue: "safe_stmt (\<lambda>_. requeue_rows m ids)"
proof (rule safe_deliveries [where g = "\<lambda>now d. update_where
        (\<lambda>r. d_status r = ''failed'' \<and> owned_by m d r \<and> (ids \<noteq> [] \<longrightarrow> d_id r \<in> set ids))
        (\<lambda>r. r\<lparr>d_status := ''pending'', d_attempts := 0, d_acknowledged_at := strftime_z now\<rparr>)"],
      goal_cases)
  case (2 now d rows)
  then show ?case by (rule delivery_ok_update) (simp add: delivery_ok_def delivery_statuses_def)
qed (simp_all add: requeue_rows_def Let_def map_update_where)

lemma safe_prune_deliveries: "safe_stmt (\<lambda>_. prune_delivery_rows days)"
  by (rule safe_deliveries [where g = "\<lambda>now d. on_first PRUNE_BATCH (prunable days now) (\<lambda>_. None)"])
    (auto simp: prune_delivery_rows_def dest!: set_on_first intro: distinct_on_first [THEN conjunct1])

lemma safe_compact_deliveries: "safe_stmt (\<lambda>_. compact_delivery_rows days)"
  by (rule safe_deliveries [where g = "\<lambda>now d. on_first PRUNE_BATCH (compactable days now)
        (\<lambda>r. Some (r\<lparr>d_payload := []\<rparr>))"])
    (auto simp: compact_delivery_rows_def delivery_ok_def dest!: set_on_first
      intro: distinct_on_first [THEN conjunct1])

lemma safe_prune_idempotency: "safe_stmt (\<lambda>_. prune_idempotency_rows days)"
proof (rule safe_stmtI)
  fix rnd now d
  show "evolves d (snd (prune_idempotency_rows days now d))"
    by (simp add: prune_idempotency_rows_def evolves_def grows_refl Let_def)
next
  fix now d assume i: "db_inv now d"
  then have ok: "db_ok (snd (prune_idempotency_rows days now d))"
    using distinct_on_first [of "\<lambda>_. None" "\<lambda>i. (i_merchant_id i, i_key i)" "idempotency_keys d"]
    by (simp add: prune_idempotency_rows_def db_inv_def db_ok_def Let_def)
  show "db_inv now (snd (prune_idempotency_rows days now d))"
    by (rule inv_other [OF i _ _ ok]) (simp_all add: prune_idempotency_rows_def Let_def)
qed

lemma inv_payments:
  assumes "db_inv now d" "d' = d\<lparr>payments := update_where P f (payments d)\<rparr>"
    and f: "\<And>p. p \<in> set (payments d) \<Longrightarrow> P p \<Longrightarrow>
      payment_ok (f p) \<and> payment_evolves p (f p) \<and>
      (p_status (f p) = ''completed'' \<longrightarrow> covered d p) \<and>
      (p_status (f p) = ''expired'' \<longrightarrow> deadline_passed now p)"
    and id: "\<And>p. same_terms p (f p)"
  shows "evolves d d' \<and> db_inv now d'"
proof
  show "evolves d d'" using f by (simp add: assms(2) evolves_def grows_refl)
  have ids: "map p_id (payments d') = map p_id (payments d)"
    "map p_memo (payments d') = map p_memo (payments d)"
    using id by (simp_all add: assms(2) map_update_where same_terms_def)
  have row: "payment_ok q \<and> (p_status q = ''completed'' \<longrightarrow> covered d q) \<and>
      (p_status q = ''expired'' \<longrightarrow> deadline_passed now q)" if q: "q \<in> set (payments d')" for q
  proof -
    obtain p where p: "p \<in> set (payments d)" "q = (if P p then f p else p)"
      using q set_update_where [of q P f "payments d"] by (simp add: assms(2)) blast
    have "payment_ok p \<and> (p_status p = ''completed'' \<longrightarrow> covered d p) \<and>
      (p_status p = ''expired'' \<longrightarrow> deadline_passed now p)"
      using assms(1) p(1) by (simp add: db_inv_def db_ok_def)
    then show ?thesis
      using f [OF p(1)] id [of p] p(2) covered_same [of p "f p"] deadline_same [of p "f p"] by auto
  qed
  have "db_ok d'" using assms(1) row ids by (simp add: db_inv_def db_ok_def assms(2))
  moreover have "covered d' q = covered d q" for q by (rule covered_cong) (simp add: assms(2))
  ultimately show "db_inv now d'" using row by (simp add: db_inv_def)
qed

lemma evolves_settle:
  assumes "watchable (p_status p)" "status \<noteq> ''pending''"
  shows "payment_evolves p (settle_row status tx paid ts p)"
  using assms by (simp add: payment_evolves_def same_terms_def settle_row_def)

text \<open>
  The settlement statement is safe when what it is told is true: a status that is not \<open>pending\<close>, and a
  ledger that covers every intent with this id that it would complete.
\<close>

lemma update_status_safe:
  assumes "db_inv now d" "status = ''completed'' \<or> status = ''underpaid''"
    and "\<And>p. p \<in> set (payments d) \<Longrightarrow> p_id p = i \<Longrightarrow> status = ''completed'' \<Longrightarrow> covered d p"
  shows "evolves d (snd (update_status_rows i status tx paid now d)) \<and>
         db_inv now (snd (update_status_rows i status tx paid now d))"
proof (cases "strftime_z now")
  case None
  with assms(1) show ?thesis by (simp add: update_status_rows_def)
next
  case (Some ts)
  let ?P = "\<lambda>p. p_id p = i \<and> watchable (p_status p)"
  have "payment_ok p" if "p \<in> set (payments d)" for p
    using assms(1) that by (simp add: db_inv_def db_ok_def)
  then have "evolves d (d\<lparr>payments := update_where ?P (settle_row status tx paid ts) (payments d)\<rparr>) \<and>
      db_inv now (d\<lparr>payments := update_where ?P (settle_row status tx paid ts) (payments d)\<rparr>)"
    using Some assms evolves_settle
    by (intro inv_payments [OF assms(1) refl])
      (auto simp: settle_row_def payment_ok_def statuses_def same_terms_def)
  with Some show ?thesis by (simp add: update_status_rows_def Let_def)
qed

lemma overdue_deadline:
  assumes "overdue now p" "payment_ok p"
  shows "deadline_passed now p"
proof -
  obtain u where u: "strftime_z now = Some u" "p_expires_at p \<le> u"
    using assms(1) by (auto simp: overdue_def sql_le_def split: option.splits)
  obtain t where t: "sqlite_parse (p_expires_at p) = Some t" "strftime_z t = Some (p_expires_at p)"
    using assms(2) by (auto simp: payment_ok_def is_ts_def split: option.splits)
  with strftime_z_le_iff [OF t(2) u(1)] u(2) show ?thesis by (simp add: deadline_passed_def)
qed

lemma set_sql_limit: "x \<in> set (sql_limit n xs) \<Longrightarrow> x \<in> set xs"
  by (auto simp: sql_limit_def dest: in_set_takeD split: if_splits)

lemma selected_overdue:
  assumes "db_ok d" "p \<in> set (payments d)"
    and "p_id p \<in> set (map p_id (sql_limit n (sort_key p_created_at (filter (overdue now) (payments d)))))"
  shows "overdue now p"
proof -
  obtain q where q: "q \<in> set (payments d)" "overdue now q" "p_id q = p_id p"
    using assms(3) by (auto dest!: set_sql_limit)
  moreover have "inj_on p_id (set (payments d))" using assms(1) by (simp add: db_ok_def distinct_map)
  ultimately have "q = p" using assms(2) by (meson inj_onD)
  with q(2) show ?thesis by simp
qed

lemma safe_expire: "safe_stmt (\<lambda>_. expire_rows batch)"
proof -
  have "evolves d (snd (expire_rows batch now d)) \<and> db_inv now (snd (expire_rows batch now d))"
    if i: "db_inv now d" for now d
  proof (cases "strftime_z now")
    case None
    with i show ?thesis by (simp add: expire_rows_def)
  next
    case (Some ts)
    let ?P = "\<lambda>p. p_id p \<in> set (map p_id
      (sql_limit batch (sort_key p_created_at (filter (overdue now) (payments d)))))"
    have ok: "db_ok d" "p \<in> set (payments d) \<Longrightarrow> payment_ok p" for p
      using i by (simp_all add: db_inv_def db_ok_def)
    let ?f = "\<lambda>p. p\<lparr>p_status := ''expired'', p_updated_at := ts\<rparr>"
    have "payment_ok (?f p) \<and> payment_evolves p (?f p) \<and>
        (p_status (?f p) = ''completed'' \<longrightarrow> covered d p) \<and>
        (p_status (?f p) = ''expired'' \<longrightarrow> deadline_passed now p)"
      if "p \<in> set (payments d)" "?P p" for p
    proof -
      have o: "overdue now p" using selected_overdue [OF ok(1) that] .
      then show ?thesis
        using ok(2) [OF that(1)] overdue_deadline [OF o] Some
        by (simp add: payment_ok_def statuses_def payment_evolves_def same_terms_def overdue_def)
    qed
    then have "evolves d (d\<lparr>payments := update_where ?P ?f (payments d)\<rparr>) \<and>
        db_inv now (d\<lparr>payments := update_where ?P ?f (payments d)\<rparr>)"
      by (rule inv_payments [OF i refl]) (simp_all add: same_terms_def)
    with Some show ?thesis by (simp add: expire_rows_def Let_def)
  qed
  then show ?thesis by (simp add: safe_stmt_def)
qed

lemma safe_keys:
  assumes "\<And>rnd now d. snd (f rnd now d) = d\<lparr>api_keys := g now d, merchants := h now d\<rparr>"
    and "\<And>now d. grows key_evolves (api_keys d) (g now d)"
    and "\<And>now d. grows (=) (merchants d) (h now d)"
    and "\<And>now d. db_ok d \<Longrightarrow> distinct (map k_id (g now d)) \<and> distinct (map k_key_hash (g now d)) \<and>
           distinct (map m_id (h now d))"
  shows "safe_stmt f"
proof (rule safe_stmtI)
  fix rnd now d
  show "evolves d (snd (f rnd now d))" using assms(2,3) by (simp add: assms(1) evolves_def grows_refl)
next
  fix rnd now d assume i: "db_inv now d"
  then have ok: "db_ok (snd (f rnd now d))"
    using assms(4) [of d now] by (simp add: assms(1) db_inv_def db_ok_def)
  show "db_inv now (snd (f rnd now d))" by (rule inv_other [OF i _ _ ok]) (simp_all add: assms(1))
qed

lemma safe_insert_api_key: "safe_stmt (\<lambda>_. insert_api_key i m hash prefix label)"
  by (rule safe_keys [where h = "\<lambda>_ d. merchants d"
        and g = "\<lambda>now d. api_keys (snd (insert_api_key i m hash prefix label now d))"])
    (auto simp: insert_api_key_def db_ok_def grows_refl split: option.split)

lemma safe_merchant_transaction: "safe_stmt (\<lambda>_. merchant_transaction i k hash prefix)"
  by (rule safe_keys [where h = "\<lambda>now d. merchants (snd (merchant_transaction i k hash prefix now d))"
        and g = "\<lambda>now d. api_keys (snd (merchant_transaction i k hash prefix now d))"])
    (auto simp: merchant_transaction_def insert_merchant_def insert_api_key_def db_ok_def grows_refl
      split: option.split)

lemma safe_touch_key: "safe_stmt (\<lambda>_. touch_key_rows i)"
  by (rule safe_keys [where h = "\<lambda>_ d. merchants d" and g = "\<lambda>now d. api_keys (snd (touch_key_rows i now d))"])
    (simp_all add: touch_key_rows_def db_ok_def key_evolves_def map_update_where)

lemma safe_revoke: "safe_stmt (\<lambda>_. revoke_rows m i)"
  by (rule safe_keys [where h = "\<lambda>_ d. merchants d" and g = "\<lambda>now d. api_keys (snd (revoke_rows m i now d))"])
    (auto simp: revoke_rows_def db_ok_def key_evolves_def map_update_where Let_def intro!: grows_update_where)

section \<open>Worlds\<close>

text \<open>The guarantee and the invariant of a running gateway: the clock does not go back.\<close>

definition world_evolves :: "world \<Rightarrow> world \<Rightarrow> bool" where
  "world_evolves w w' \<longleftrightarrow> evolves (w_db w) (w_db w') \<and> w_clock w \<le> w_clock w' \<and> w_env w' = w_env w"

definition world_inv :: "world \<Rightarrow> bool" where
  "world_inv w \<longleftrightarrow> db_inv (now_secs w) (w_db w)"

interpretation gateway: rely_guarantee world_evolves world_inv
  by unfold_locales (auto simp: world_evolves_def intro: evolves_trans)

abbreviation safeP :: "'a io \<Rightarrow> bool" where
  "safeP p \<equiv> obeys (guarded world_evolves world_inv) p"

lemma now_secs_mono: "w_clock w \<le> w_clock w' \<Longrightarrow> now_secs w \<le> now_secs w'"
  by (simp add: now_secs_def div_le_mono)

lemma guarded_same_db:
  assumes "w_db w' = w_db w" "w_clock w \<le> w_clock w'" "w_env w' = w_env w"
  shows "guarded world_evolves world_inv w w'"
  using assms inv_later [of "now_secs w" "w_db w" "now_secs w'"] now_secs_mono
  by (simp add: guarded_def world_evolves_def world_inv_def)

lemma safe_effects [proc_safe]:
  "safeP new_uuid" "safeP (random_upto n)" "safeP (sleep n)" "safeP get_clock"
  "safeP (lookup_host n h p)" "safeP build_client" "safeP (http_post n hst q)" "safeP (http_get u)" "safeP (http_stream u)"
  "safeP (on_webhook_metrics f1)" "safeP (on_auth_metrics f2)" "safeP (on_horizon_metrics f3)"
  "safeP (on_task_health f4)" "safeP (generate_api_key x)"
  by (auto simp: effect_defs generate_api_key_def Let_def intro!: obeys_effect guarded_same_db
      split: prod.split)

text \<open>One statement: what it may assume of the tables, and what it leaves behind.\<close>

lemma stmt_step:
  assumes "world_inv w"
    and "\<And>rnd now. now_secs w \<le> now \<Longrightarrow> db_inv now (w_db w) \<Longrightarrow>
      evolves (w_db w) (snd (f rnd now (w_db w))) \<and> db_inv now (snd (f rnd now (w_db w)))"
    and "\<And>rnd now. now_secs w \<le> now \<Longrightarrow> Q (fst (f rnd now (w_db w))) (snd (f rnd now (w_db w)))"
    and "Q (Inl Db_Fault) (w_db w)"
  shows "world_evolves w (snd (run (stmt_rnd f) w)) \<and> world_inv (snd (run (stmt_rnd f) w)) \<and>
         Q (fst (run (stmt_rnd f) w)) (w_db (snd (run (stmt_rnd f) w)))"
proof -
  obtain dt fault where e: "e_stmt (w_env w) (w_tick w) = (dt, fault)" by fastforce
  let ?w = "advance dt w" let ?r = "e_random (w_env w) (w_tick w)"
  obtain r d where f: "f ?r (now_secs ?w) (w_db w) = (r, d)" by fastforce
  have n: "now_secs w \<le> now_secs ?w" by (rule now_secs_mono) simp
  with assms(1) have i: "db_inv (now_secs ?w) (w_db w)" by (simp add: world_inv_def inv_later)
  have "now_secs (?w\<lparr>w_db := d\<rparr>) = now_secs ?w" by (simp add: now_secs_def)
  with n i assms(2) [OF n i, of ?r] assms(3) [OF n, of ?r] assms(4) f show ?thesis
    by (cases fault) (simp_all add: run_stmt e world_evolves_def world_inv_def Let_def)
qed

lemma safe_stmt_safeP [proc_safe]:
  assumes "safe_stmt f"
  shows "safeP (stmt_rnd f)"
proof -
  have "guarded world_evolves world_inv w (snd (run (stmt_rnd f) w))" for w
    using stmt_step [of w f "\<lambda>_ _. True"] assms by (simp add: guarded_def safe_stmt_def)
  then show ?thesis by (simp add: stmt_rnd_def obeys_effect)
qed

lemma rg_stmt:
  assumes "\<And>now d rnd. evolves (w_db w) d \<Longrightarrow> db_inv now d \<Longrightarrow> now_secs w \<le> now \<Longrightarrow>
      evolves d (snd (f rnd now d)) \<and> db_inv now (snd (f rnd now d)) \<and>
      (\<forall>d'. evolves (snd (f rnd now d)) d' \<and> db_ok d' \<longrightarrow> Q (fst (f rnd now d)) d')"
    and "\<And>d. Q (Inl Db_Fault) d"
  shows "rg world_evolves world_inv (stmt_rnd f) (\<lambda>r w'. Q r (w_db w')) w"
proof -
  have eq: "effect (run (stmt_rnd f)) = stmt_rnd f"
    unfolding stmt_rnd_def by (rule arg_cong [where f = effect]) (simp add: fun_eq_iff)
  have "rg world_evolves world_inv (effect (run (stmt_rnd f))) (\<lambda>r w'. Q r (w_db w')) w"
  proof (rule gateway.rg_effect)
    fix w' assume w': "world_evolves w w'" "world_inv w'"
    let ?Q = "\<lambda>r d. \<forall>d'. evolves d d' \<and> db_ok d' \<longrightarrow> Q r d'"
    have "now_secs w \<le> now_secs w'" using w'(1) by (simp add: world_evolves_def now_secs_mono)
    moreover have "evolves (w_db w) (w_db w')" using w'(1) by (simp add: world_evolves_def)
    ultimately have *: "evolves (w_db w') (snd (f rnd now (w_db w'))) \<and> db_inv now (snd (f rnd now (w_db w'))) \<and>
        ?Q (fst (f rnd now (w_db w'))) (snd (f rnd now (w_db w')))"
      if "now_secs w' \<le> now" "db_inv now (w_db w')" for rnd now
      using assms(1) that by (meson order_trans)
    have "db_inv now (w_db w')" if "now_secs w' \<le> now" for now
      using w'(2) that by (simp add: world_inv_def inv_later)
    then have "world_evolves w' (snd (run (stmt_rnd f) w')) \<and> world_inv (snd (run (stmt_rnd f) w')) \<and>
        ?Q (fst (run (stmt_rnd f) w')) (w_db (snd (run (stmt_rnd f) w')))"
      using * assms(2) by (intro stmt_step [OF w'(2)]) blast+
    then show "world_evolves w' (snd (run (stmt_rnd f) w')) \<and> world_inv (snd (run (stmt_rnd f) w')) \<and>
        (\<forall>w''. world_evolves (snd (run (stmt_rnd f) w')) w'' \<and> world_inv w'' \<longrightarrow>
           Q (fst (run (stmt_rnd f) w')) (w_db w''))"
      by (simp add: world_evolves_def world_inv_def db_inv_def)
  qed
  with eq show ?thesis by simp
qed

end
