(* ===== verification/Ssrf.thy ===== *)
theory Ssrf
  imports Db_Inv
begin

text \<open>
  The guard on outbound webhook requests (\<open>validate\<close> and \<open>pinned_client\<close> of \<open>src/ssrf.rs\<close>, \<open>safe_client\<close>
  of \<open>src/webhook.rs\<close>). A client is bound to the address that was checked, so a request made with it
  goes to that address. The client keeps the default redirect policy: where a receiver redirects it is
  not checked. \<open>target_ok\<close> states what a sender may rely on.
\<close>

definition RESOLVE_TIMEOUT :: nat where
  "RESOLVE_TIMEOUT = 3000000000"

record safe_target =
  st_host :: string
  st_addr :: "ip_addr \<times> nat"

fun first_addr :: "string \<Rightarrow> bool \<Rightarrow> dns_reply \<Rightarrow> safe_target result" where
  "first_addr host allow_private Dns_Timeout = Inl (Msg ''timed out resolving webhook host'')"
| "first_addr host allow_private Dns_Error = Inl (Msg ''failed to resolve webhook host'')"
| "first_addr host allow_private (Dns_Addrs []) =
     Inl (Msg ''webhook host did not resolve to any address'')"
| "first_addr host allow_private (Dns_Addrs (addr # _)) =
     (if \<not> allow_private \<and> is_blocked_ip (fst addr)
      then Inl (Msg ''webhook_url host resolves to a disallowed address'')
      else Inr \<lparr>st_host = host, st_addr = addr\<rparr>)"

fun_cases first_addr_InrE: "first_addr host allow_private reply = Inr t"

definition validate :: "ext \<Rightarrow> string \<Rightarrow> bool \<Rightarrow> safe_target result io" where
  "validate x url allow_private =
     (case x_url_parse x url of
        None \<Rightarrow> err (Msg ''invalid URL'')
      | Some u \<Rightarrow>
          if u_scheme u \<noteq> ''http'' \<and> u_scheme u \<noteq> ''https''
          then err (Msg ''webhook_url must be an http(s) URL'')
          else (case u_host_str u of
            None \<Rightarrow> err (Msg ''webhook_url has no host'')
          | Some host \<Rightarrow>
              (case u_port_or_known_default u of
                 None \<Rightarrow> err (Msg ''webhook_url has no resolvable port'')
               | Some port \<Rightarrow>
                   bindP (lookup_host RESOLVE_TIMEOUT host port) (\<lambda>reply.
                     Ret (first_addr host allow_private reply)))))"

record client =
  cl_host :: string
  cl_addr :: "ip_addr \<times> nat"
  cl_timeout_ns :: nat

definition pinned_client :: "safe_target \<Rightarrow> nat \<Rightarrow> client result io" where
  "pinned_client t timeout_ns =
     bindP build_client (\<lambda>b.
       if b then ok \<lparr>cl_host = st_host t, cl_addr = st_addr t, cl_timeout_ns = timeout_ns\<rparr>
       else err (Msg ''failed to build client''))"

definition safe_client :: "ext \<Rightarrow> config \<Rightarrow> string \<Rightarrow> client result io" where
  "safe_client x c url =
     and_then (validate x url (c_webhook_allow_private_targets c)) (\<lambda>t.
       pinned_client t (c_webhook_timeout_secs c * 1000000000))"

lemma safeP_validate [proc_safe]: "safeP (validate x url b)"
  unfolding validate_def by (intro proc_safe)

lemma safeP_safe_client [proc_safe]: "safeP (safe_client x c url)"
  unfolding safe_client_def pinned_client_def by (intro proc_safe)

text \<open>What \<open>validate\<close> promises of its result.\<close>

definition target_ok :: "ext \<Rightarrow> string \<Rightarrow> bool \<Rightarrow> string \<Rightarrow> ip_addr \<times> nat \<Rightarrow> bool" where
  "target_ok x url allow_private host addr \<longleftrightarrow>
     (\<exists>u. x_url_parse x url = Some u \<and> (u_scheme u = ''http'' \<or> u_scheme u = ''https'') \<and>
          u_host_str u = Some host) \<and>
     (\<not> allow_private \<longrightarrow> \<not> is_blocked_ip (fst addr))"

lemma validate_results:
  "Inr t \<in> results (validate x url b) \<Longrightarrow> target_ok x url b (st_host t) (st_addr t)"
  by (auto simp: validate_def target_ok_def elim!: first_addr_InrE dest!: sym [of "Inr t"]
      split: option.splits if_splits)

lemma safe_client_results:
  assumes "Inr cl \<in> results (safe_client x c url)"
  shows "target_ok x url (c_webhook_allow_private_targets c) (cl_host cl) (cl_addr cl) \<and>
         cl_timeout_ns cl = c_webhook_timeout_secs c * 1000000000"
  using assms
  by (auto simp: safe_client_def pinned_client_def results_and_then split: if_splits
      dest!: validate_results)

text \<open>The lookup never takes longer than its timeout.\<close>

lemma safe_client_time:
  "w_clock (snd (run (safe_client x c url) w)) \<le> w_clock w + RESOLVE_TIMEOUT"
  by (auto simp: safe_client_def pinned_client_def validate_def lookup_host_def build_client_def
      split: option.splits prod.splits sum.splits if_splits)

end
