(* ===== verification/Webhook.thy ===== *)
theory Webhook
  imports Ssrf
begin

text \<open>
  Webhook delivery (\<open>src/webhook.rs\<close>): signing, the event payload, the retry schedule, inline
  delivery (\<open>dispatch\<close>) and the redrive worker (\<open>redrive_once\<close>, \<open>redrive_one\<close>). A \<open>Duration\<close> is a number of
  nanoseconds. The lemmas bound every retry delay and the time one dispatch can take, and show that a
  request is only ever started, signed, to an address the SSRF guard accepted.
\<close>

section \<open>Signing and payload\<close>

definition sign :: "ext \<Rightarrow> string \<Rightarrow> int \<Rightarrow> string \<Rightarrow> string" where
  "sign x secret timestamp body = x_hmac_sha256_hex x secret (show_int timestamp @ ''.'' @ body)"

definition current_timestamp :: "int io" where
  "current_timestamp = bindP get_clock (\<lambda>t. Ret (wrap_i64 (int (t div 1000000000))))"

definition json_opt :: "string option \<Rightarrow> json" where
  "json_opt s = (case s of None \<Rightarrow> JNull | Some v \<Rightarrow> JStr v)"

definition build_payload :: "payment \<Rightarrow> string \<Rightarrow> string option \<Rightarrow> json" where
  "build_payload p event delta =
     JObj ([(''event'', JStr event),
            (''payment_id'', JStr (p_id p)),
            (''merchant_id'', JStr (p_merchant_id p)),
            (''tx_hash'', json_opt (p_tx_hash p)),
            (''amount'', JStr (canonical_or_self (p_amount p))),
            (''paid_amount'', json_opt (Option.bind (p_paid_amount p) canonical)),
            (''asset'', JStr (p_asset p)),
            (''asset_issuer'', json_opt (p_asset_issuer p)),
            (''status'', JStr (p_status p))] @
           (case Option.bind delta canonical of None \<Rightarrow> [] | Some d \<Rightarrow> [(''delta'', JStr d)]))"

section \<open>The retry schedule\<close>

definition duration_max :: nat where
  "duration_max = u64_max * 1000000000 + 999999999"

definition from_millis :: "nat \<Rightarrow> nat" where
  "from_millis ms = ms * 1000000"

definition delay_ceiling :: "nat \<Rightarrow> nat \<Rightarrow> nat \<Rightarrow> nat" where
  "delay_ceiling attempt base maxd =
     (let factor = sat_u32 (2 ^ (attempt - 1)) in min (min (base * factor) duration_max) maxd)"

definition retry_delay :: "nat \<Rightarrow> nat \<Rightarrow> nat \<Rightarrow> nat io" where
  "retry_delay attempt base maxd =
     (let ceiling_ms = (delay_ceiling attempt base maxd div 1000000) mod 2 ^ 64 in
      if ceiling_ms = 0 then Ret 0
      else (let half = ceiling_ms div 2 in
            bindP (random_upto (ceiling_ms - half)) (\<lambda>r. Ret (from_millis (half + r)))))"

section \<open>Inline delivery\<close>

definition is_success :: "nat option \<Rightarrow> bool" where
  "is_success status = (case status of None \<Rightarrow> False | Some s \<Rightarrow> 200 \<le> s \<and> s \<le> 299)"

definition elapsed_ms :: "nat \<Rightarrow> nat io" where
  "elapsed_ms start = bindP get_clock (\<lambda>t. Ret ((t - start) div 1000000))"

definition record_latency :: "nat \<Rightarrow> unit io" where
  "record_latency start = bindP (elapsed_ms start) (\<lambda>ms. on_webhook_metrics (record_latency_ms ms))"

text \<open>
  The attempts of one dispatch; the last argument counts those left, so the current one is
  \<open>attempts - left\<close>. The result is the attempt that succeeded, if any.
\<close>

fun attempt_loop :: "config \<Rightarrow> client \<Rightarrow> post \<Rightarrow> nat \<Rightarrow> nat \<Rightarrow> nat option io" where
  "attempt_loop c cl q attempts 0 = Ret None"
| "attempt_loop c cl q attempts (Suc left) =
     (let attempt = attempts - left in
      seqP (if 1 < attempt then on_webhook_metrics record_retry else Ret ())
      (bindP (http_post (cl_timeout_ns cl) (cl_host cl) q) (\<lambda>result.
       if is_success result then Ret (Some attempt)
       else if attempt < attempts
       then bindP (retry_delay attempt (from_millis (c_webhook_retry_delay_ms c))
                    (from_millis (c_webhook_retry_max_delay_ms c))) (\<lambda>d.
            seqP (sleep d) (attempt_loop c cl q attempts left))
       else attempt_loop c cl q attempts left)))"

definition dispatch_with ::
  "config \<Rightarrow> client \<Rightarrow> post \<Rightarrow> string \<Rightarrow> unit io" where
  "dispatch_with c cl q delivery_id =
     (let attempts = max (c_webhook_retry_attempts c) 1 in
      bindP get_clock (\<lambda>start.
      bindP (attempt_loop c cl q attempts attempts) (\<lambda>outcome.
      case outcome of
        Some attempt \<Rightarrow>
          seqP (on_webhook_metrics record_delivered)
          (seqP (record_latency start)
          (seqP (update_webhook_delivery delivery_id ''delivered'' (int attempt)) (Ret ())))
      | None \<Rightarrow>
          seqP (on_webhook_metrics record_failed)
          (seqP (record_latency start)
          (seqP (update_webhook_delivery delivery_id ''failed'' (int attempts)) (Ret ()))))))"

definition post_of ::
  "ext \<Rightarrow> config \<Rightarrow> client \<Rightarrow> string \<Rightarrow> int \<Rightarrow> string \<Rightarrow> string \<Rightarrow> post" where
  "post_of x c cl url timestamp event body =
     \<lparr>q_url = url, q_addr = cl_addr cl,
      q_signature = sign x (c_webhook_secret c) timestamp body, q_timestamp = timestamp,
      q_event = event, q_body = body, q_redirects = 0\<rparr>"

definition dispatch_to ::
  "ext \<Rightarrow> config \<Rightarrow> string \<Rightarrow> int \<Rightarrow> string \<Rightarrow> string \<Rightarrow> string \<Rightarrow> unit io" where
  "dispatch_to x c url timestamp event body delivery_id =
     bindP (safe_client x c url) (\<lambda>r.
       case r of
         Inl e \<Rightarrow>
           seqP (on_webhook_metrics record_failed)
           (seqP (update_webhook_delivery delivery_id ''failed'' 0) (Ret ()))
       | Inr cl \<Rightarrow>
           dispatch_with c cl (post_of x c cl url timestamp event body) delivery_id)"

definition dispatch :: "ext \<Rightarrow> config \<Rightarrow> payment \<Rightarrow> string \<Rightarrow> string option \<Rightarrow> unit io" where
  "dispatch x c p event delta =
     (case p_webhook_url p of
        None \<Rightarrow> Ret ()
      | Some url \<Rightarrow>
          let body = x_json_to_string x (build_payload p event delta) in
          bindP current_timestamp (\<lambda>timestamp.
          bindP new_uuid (\<lambda>delivery_id.
          seqP (save_webhook_delivery delivery_id (p_id p) url (x_utf8_lossy x body) event)
          (dispatch_to x c url timestamp event body delivery_id))))"

section \<open>Redrive\<close>

definition redrive_with :: "ext \<Rightarrow> config \<Rightarrow> client \<Rightarrow> webhook_delivery \<Rightarrow> unit io" where
  "redrive_with x c cl r =
     bindP current_timestamp (\<lambda>timestamp.
     bindP get_clock (\<lambda>start.
     seqP (on_webhook_metrics record_retry)
     (bindP (http_post (cl_timeout_ns cl) (cl_host cl)
              (post_of x c cl (d_url r) timestamp (delivery_event x r) (d_payload r))) (\<lambda>result.
      if is_success result
      then seqP (on_webhook_metrics record_delivered)
           (seqP (record_latency start)
           (seqP (update_webhook_delivery (d_id r) ''delivered'' (d_attempts r + 1)) (Ret ())))
      else if int (c_webhook_redrive_max_attempts c) \<le> d_attempts r + 1
      then seqP (on_webhook_metrics record_failed)
           (seqP (record_latency start)
           (seqP (update_webhook_delivery (d_id r) ''failed'' (d_attempts r + 1)) (Ret ())))
      else seqP (update_webhook_delivery (d_id r) ''pending'' (d_attempts r + 1)) (Ret ())))))"

definition redrive_one :: "ext \<Rightarrow> config \<Rightarrow> webhook_delivery \<Rightarrow> unit io" where
  "redrive_one x c r =
     bindP (safe_client x c (d_url r)) (\<lambda>res.
       case res of
         Inl e \<Rightarrow>
           seqP (on_webhook_metrics record_failed)
           (seqP (update_webhook_delivery (d_id r) ''failed'' (d_attempts r)) (Ret ()))
       | Inr cl \<Rightarrow> redrive_with x c cl r)"

primrec forP :: "('a \<Rightarrow> unit io) \<Rightarrow> 'a list \<Rightarrow> unit io" where
  "forP f [] = Ret ()"
| "forP f (a # as) = seqP (f a) (forP f as)"

text \<open>
  The tasks of one redrive pass. The worker spawns them all and the semaphore admits them in order;
  \<open>redrive_once\<close> is the schedule with one permit, and the tasks are also threads of \<open>interleave\<close>.
\<close>

definition redrive_tasks :: "ext \<Rightarrow> config \<Rightarrow> webhook_delivery list \<Rightarrow> unit io list" where
  "redrive_tasks x c candidates = map (redrive_one x c) candidates"

definition redrive_candidates :: "config \<Rightarrow> webhook_delivery list result io" where
  "redrive_candidates c =
     list_redrivable_deliveries (int (c_webhook_redrive_max_attempts c))
       (c_webhook_redrive_grace_secs c) (c_webhook_redrive_backoff_initial_secs c)
       (c_webhook_redrive_backoff_max_secs c) (c_webhook_redrive_jitter_secs c)"

definition redrive_once :: "ext \<Rightarrow> config \<Rightarrow> nat io" where
  "redrive_once x c =
     bindP (redrive_candidates c) (\<lambda>r.
       case r of
         Inl e \<Rightarrow> Ret 0
       | Inr candidates \<Rightarrow> seqP (forP id (redrive_tasks x c candidates)) (Ret (length candidates)))"

section \<open>Bounds of the retry schedule\<close>

lemma delay_ceiling_le: "delay_ceiling attempt base maxd \<le> maxd" "delay_ceiling attempt base maxd \<le> base * 2 ^ (attempt - 1)"
proof -
  show "delay_ceiling attempt base maxd \<le> maxd" by (simp add: delay_ceiling_def Let_def)
  have "delay_ceiling attempt base maxd \<le> base * sat_u32 (2 ^ (attempt - 1))"
    by (simp add: delay_ceiling_def Let_def)
  also have "\<dots> \<le> base * 2 ^ (attempt - 1)" by (rule mult_left_mono) (simp_all add: sat_u32_def)
  finally show "delay_ceiling attempt base maxd \<le> base * 2 ^ (attempt - 1)" .
qed

lemma retry_delay_bounds:
  assumes "d \<in> results (retry_delay attempt base maxd)" "maxd < 2 ^ 64 * 1000000"
  shows "delay_ceiling attempt base maxd div 2000000 * 1000000 \<le> d" "d \<le> delay_ceiling attempt base maxd"
proof -
  let ?c = "delay_ceiling attempt base maxd"
  have "?c < 2 ^ 64 * 1000000" using delay_ceiling_le(1) assms(2) by (rule le_less_trans)
  then have m: "?c div 1000000 mod 2 ^ 64 = ?c div 1000000"
    by (simp add: less_mult_imp_div_less)
  define k where "k = ?c div 1000000"
  have k2: "?c div 2000000 = k div 2" by (simp add: k_def div_mult2_eq [symmetric])
  have "k = 0 \<and> d = 0 \<or> (\<exists>r. d = (k div 2 + r) * 1000000 \<and> r \<le> k - k div 2)"
    using assms(1) m
    by (auto simp: retry_delay_def Let_def random_upto_def results_effect from_millis_def k_def
        less_Suc_eq_le [symmetric] split: if_splits)
  then obtain r where r: "d = (k div 2 + r) * 1000000" "k div 2 + r \<le> k" by auto
  have "d \<le> k * 1000000" using r(2) unfolding r(1) by (rule mult_le_mono1)
  moreover have "k div 2 * 1000000 \<le> d" by (simp add: r(1))
  ultimately have d: "?c div 2000000 * 1000000 \<le> d \<and> d \<le> ?c div 1000000 * 1000000"
    by (simp only: k2 k_def [symmetric] simp_thms)
  then show "?c div 2000000 * 1000000 \<le> d" by simp
  have "?c div 1000000 * 1000000 \<le> ?c" by simp
  with d show "d \<le> ?c" by linarith
qed

section \<open>Every handler keeps the invariant\<close>

lemma safeP_update_webhook_delivery:
  "status \<in> set delivery_statuses \<Longrightarrow> 0 \<le> attempts \<Longrightarrow>
   safeP (update_webhook_delivery i status attempts)"
  unfolding update_webhook_delivery_def by (intro proc_safe safe_update_delivery)

lemma safeP_save_webhook_delivery [proc_safe]:
  "safeP (save_webhook_delivery i pid url payload event)"
  unfolding save_webhook_delivery_def by (intro proc_safe safe_insert_delivery)

lemma safeP_small [proc_safe]:
  "safeP (record_latency start)" "safeP current_timestamp" "safeP (retry_delay n base maxd)"
  unfolding record_latency_def elapsed_ms_def current_timestamp_def retry_delay_def
  by (intro proc_safe)+

lemma safeP_attempt_loop [proc_safe]: "safeP (attempt_loop c cl q attempts left)"
proof (induction left)
  case (Suc left)
  then show ?case unfolding attempt_loop.simps by (intro proc_safe)
qed simp

lemma safeP_dispatch_with [proc_safe]: "safeP (dispatch_with c cl q i)"
  unfolding dispatch_with_def
  by (intro proc_safe safeP_update_webhook_delivery) (simp_all add: delivery_statuses_def)

lemma safeP_dispatch [proc_safe]: "safeP (dispatch x c p event delta)"
  unfolding dispatch_def dispatch_to_def
  by (intro proc_safe safeP_update_webhook_delivery) (simp_all add: delivery_statuses_def)

lemma safeP_redrive_one: "0 \<le> d_attempts r \<Longrightarrow> safeP (redrive_one x c r)"
  unfolding redrive_one_def redrive_with_def
  by (intro proc_safe safeP_update_webhook_delivery) (simp_all add: delivery_statuses_def)

lemma safeP_forP: "(\<And>a. a \<in> set as \<Longrightarrow> safeP (f a)) \<Longrightarrow> safeP (forP f as)"
  by (induction as) (auto intro!: proc_safe)

section \<open>What is sent\<close>

text \<open>
  A request is the origin itself or was sent by following redirects from it: same headers, the same body
  or none.
\<close>

definition derived_from :: "post \<Rightarrow> post \<Rightarrow> bool" where
  "derived_from origin q \<longleftrightarrow>
     q_signature q = q_signature origin \<and> q_timestamp q = q_timestamp origin \<and> q_event q = q_event origin \<and>
     (q_body q = q_body origin \<or> q_body q = []) \<and> q_redirects q \<le> MAX_REDIRECTS \<and>
     (q_redirects q = 0 \<longrightarrow> q = origin)"

definition sends :: "(post \<Rightarrow> bool) \<Rightarrow> world \<Rightarrow> world \<Rightarrow> bool" where
  "sends good w w' \<longleftrightarrow>
     (\<exists>qs. w_posts w' = w_posts w @ qs \<and>
        (\<forall>q\<in>set qs. \<exists>origin\<in>set qs. good (fst origin) \<and> derived_from (fst origin) (fst q)))"

lemma follow_redirects_derived:
  "q' \<in> set (follow_redirects host addr q hops) \<Longrightarrow>
   q_signature q' = q_signature q \<and> q_timestamp q' = q_timestamp q \<and> q_event q' = q_event q \<and>
   (q_body q' = q_body q \<or> q_body q' = []) \<and>
   q_redirects q < q_redirects q' \<and> q_redirects q' \<le> q_redirects q + length hops"
  by (induction host addr q hops rule: follow_redirects.induct) (fastforce simp: Let_def split: if_splits)+

interpretation sends: step_guarantee "sends good" for good
  by unfold_locales (fastforce simp: sends_def)+

lemma sends_same: "w_posts w' = w_posts w \<Longrightarrow> sends good w w'"
  by (simp add: sends_def)

lemma sends_stmt [proc_safe]: "obeys (sends good) (stmt_rnd f)"
  unfolding stmt_rnd_def
  by (intro obeys_effect sends_same) (simp add: Let_def split: prod.split)

lemma sends_effects [proc_safe]:
  "obeys (sends good) new_uuid" "obeys (sends good) (random_upto n)" "obeys (sends good) (sleep n)"
  "obeys (sends good) get_clock" "obeys (sends good) (lookup_host n h p)"
  "obeys (sends good) build_client" "obeys (sends good) (http_get u)" "obeys (sends good) (http_stream u)"
  "obeys (sends good) (on_webhook_metrics f1)" "obeys (sends good) (on_auth_metrics f2)"
  "obeys (sends good) (on_horizon_metrics f3)" "obeys (sends good) (on_task_health f4)"
  by (auto simp: effect_defs Let_def intro!: obeys_effect sends_same split: prod.split)

lemma sends_http_post [proc_safe]:
  assumes "good q" "q_redirects q = 0"
  shows "obeys (sends good) (http_post n host q)"
proof -
  have d: "derived_from q q'" if "q' \<in> set (q # follow_redirects host (q_addr q) q (take MAX_REDIRECTS hops))" for q' hops
    using that assms(2) follow_redirects_derived [of q' host "q_addr q" q "take MAX_REDIRECTS hops"]
    by (auto simp: derived_from_def)
  have "sends good w (advance dt w\<lparr>w_posts := w_posts w @
      map (\<lambda>q'. (q', r)) (q # follow_redirects host (q_addr q) q (take MAX_REDIRECTS hops))\<rparr>)" for w hops r dt
    using assms(1) d [of _ hops] unfolding sends_def
    by (intro exI [of _ "map (\<lambda>q'. (q', r)) (q # follow_redirects host (q_addr q) q (take MAX_REDIRECTS hops))"]) force
  note log = this
  show ?thesis
    unfolding http_post_def
  proof (rule obeys_effect)
    fix w :: world
    obtain r hops dt where e: "e_post (w_env w) (w_tick w) q = (r, hops, dt)" by (metis prod.collapse)
    show "sends good w (snd (let (r, hops, dt) = e_post (w_env w) (w_tick w) q;
         (r', dt') = (if dt < n then (if length hops \<le> MAX_REDIRECTS then r else None, dt) else (None, n));
         qs = q # follow_redirects host (q_addr q) q (take MAX_REDIRECTS hops) in
       (r', advance dt' w\<lparr>w_posts := w_posts w @ map (\<lambda>q'. (q', r')) qs\<rparr>)))"
      using log [where w = w and hops = hops] unfolding e Let_def by (simp del: list.map)
  qed
qed

text \<open>
  An acceptable request to start: signed over its own timestamp and body, and addressed to a place the guard
  accepts for its URL.
\<close>

definition good_post :: "ext \<Rightarrow> config \<Rightarrow> post \<Rightarrow> bool" where
  "good_post x c q \<longleftrightarrow>
     q_redirects q = 0 \<and>
     q_signature q = sign x (c_webhook_secret c) (q_timestamp q) (q_body q) \<and>
     (\<exists>host. target_ok x (q_url q) (c_webhook_allow_private_targets c) host (q_addr q))"

lemma post_of_redirects [simp, proc_safe]: "q_redirects (post_of x c cl url ts event body) = 0"
  by (simp add: post_of_def)

lemma good_post_of:
  "Inr cl \<in> results (safe_client x c url) \<Longrightarrow> good_post x c (post_of x c cl url ts event body)"
  using safe_client_results [of cl x c url] by (auto simp: good_post_def post_of_def)

lemma sends_attempt_loop [proc_safe]:
  "good q \<Longrightarrow> q_redirects q = 0 \<Longrightarrow> obeys (sends good) (attempt_loop c cl q attempts left)"
proof (induction left)
  case (Suc left)
  then show ?case unfolding attempt_loop.simps retry_delay_def by (intro proc_safe)
qed simp

lemma sends_safe_client [proc_safe]: "obeys (sends good) (safe_client x c url)"
  unfolding safe_client_def validate_def pinned_client_def by (intro proc_safe)

lemma sends_updates [proc_safe]:
  "obeys (sends good) (update_webhook_delivery i status n)"
  "obeys (sends good) (save_webhook_delivery i pid url payload event)"
  "obeys (sends good) (record_latency start)" "obeys (sends good) current_timestamp"
  unfolding update_webhook_delivery_def save_webhook_delivery_def record_latency_def elapsed_ms_def
    current_timestamp_def
  by (intro proc_safe)+

lemma sends_dispatch_to [proc_safe]:
  "obeys (sends (good_post x c)) (dispatch_to x c url ts event body i)"
  unfolding dispatch_to_def
proof (rule obeys_bind_results)
  fix r assume "r \<in> results (safe_client x c url)"
  then show "obeys (sends (good_post x c)) (case r of
        Inl e \<Rightarrow> seqP (on_webhook_metrics record_failed)
                  (seqP (update_webhook_delivery i ''failed'' 0) (Ret ()))
      | Inr cl \<Rightarrow> dispatch_with c cl (post_of x c cl url ts event body) i)"
    using good_post_of [of _ x c url ts event body] unfolding dispatch_with_def
    by (cases r) (auto simp only: sum.case intro!: proc_safe)
qed (rule proc_safe)

lemma sends_dispatch [proc_safe]: "obeys (sends (good_post x c)) (dispatch x c p event delta)"
  unfolding dispatch_def by (intro proc_safe)

lemma sends_redrive_one [proc_safe]: "obeys (sends (good_post x c)) (redrive_one x c r)"
  unfolding redrive_one_def
proof (rule obeys_bind_results)
  fix res assume "res \<in> results (safe_client x c (d_url r))"
  then show "obeys (sends (good_post x c)) (case res of
        Inl e \<Rightarrow>
          seqP (on_webhook_metrics record_failed)
          (seqP (update_webhook_delivery (d_id r) ''failed'' (d_attempts r)) (Ret ()))
      | Inr cl \<Rightarrow> redrive_with x c cl r)"
    using good_post_of [of _ x c "d_url r"] unfolding redrive_with_def
    by (cases res) (auto simp only: sum.case intro!: proc_safe)
qed (rule proc_safe)

section \<open>How long a dispatch can take\<close>

lemma fold_sat:
  "s \<le> u64_max \<Longrightarrow> fold (\<lambda>a acc. sat_u64 (acc + f a)) xs s = sat_u64 (s + sum_list (map f xs))"
proof (induction xs arbitrary: s)
  case Nil
  then show ?case by (simp add: sat_u64_def)
next
  case (Cons a xs)
  have "sat_u64 (s + f a) \<le> u64_max" by (simp add: sat_u64_def)
  from Cons.IH [OF this] show ?case by (simp add: sat_u64_def)
qed

lemma delay_le_step:
  assumes "c_webhook_retry_max_delay_ms c \<le> u64_max"
    and "d \<in> results (retry_delay a (from_millis (c_webhook_retry_delay_ms c))
                  (from_millis (c_webhook_retry_max_delay_ms c)))"
  shows "d \<le> inline_step_ms c a * 1000000"
proof -
  let ?b = "c_webhook_retry_delay_ms c" let ?m = "c_webhook_retry_max_delay_ms c"
  have "from_millis ?m < 2 ^ 64 * 1000000"
    using assms(1) by (simp add: from_millis_def u64_max_def)
  then have "d \<le> delay_ceiling a (from_millis ?b) (from_millis ?m)"
    by (rule retry_delay_bounds(2) [OF assms(2)])
  then have d: "d \<le> ?m * 1000000" "d \<le> ?b * 2 ^ (a - 1) * 1000000"
    using delay_ceiling_le [of a "from_millis ?b" "from_millis ?m"]
    by (simp_all add: from_millis_def mult_ac)
  have "min (?b * 2 ^ (a - 1)) ?m \<le> inline_step_ms c a"
  proof (cases "?b = 0 \<or> 2 ^ (a - 1) \<le> u64_max")
    case True
    then show ?thesis using assms(1) by (auto simp: inline_step_ms_def sat_u64_def min_def)
  next
    case False
    then have "u64_max \<le> ?b * u64_max" "sat_u64 (2 ^ (a - 1)) = u64_max"
      by (simp_all add: sat_u64_def)
    then have "sat_u64 (?b * sat_u64 (2 ^ (a - 1))) = u64_max" by (simp add: sat_u64_def)
    then show ?thesis using assms(1) by (simp add: inline_step_ms_def)
  qed
  then have "min (?b * 2 ^ (a - 1)) ?m * 1000000 \<le> inline_step_ms c a * 1000000" by simp
  with d show ?thesis by (simp add: min_def split: if_splits)
qed

lemma clock_attempt_loop:
  assumes "c_webhook_retry_max_delay_ms c \<le> u64_max" "left \<le> attempts"
  shows "w_clock (snd (run (attempt_loop c cl q attempts left) w)) \<le>
    w_clock w + left * cl_timeout_ns cl +
      sum_list (map (inline_step_ms c) [Suc (attempts - left)..<attempts]) * 1000000"
  using assms(2)
proof (induction left arbitrary: w)
  case (Suc left)
  let ?a = "attempts - left"
  have a: "Suc (attempts - Suc left) = ?a" using Suc.prems by simp
  define w1 where "w1 = snd (run (if 1 < ?a then on_webhook_metrics record_retry else Ret ()) w)"
  have w1: "w_clock w1 = w_clock w" by (simp add: w1_def on_webhook_metrics_def)
  obtain r w2 where p: "run (http_post (cl_timeout_ns cl) (cl_host cl) q) w1 = (r, w2)" by fastforce
  have w2: "w_clock w2 \<le> w_clock w + cl_timeout_ns cl"
    using p w1 by (auto simp: http_post_def split: prod.splits if_splits)
  obtain d w3 where d: "run (retry_delay ?a (from_millis (c_webhook_retry_delay_ms c))
      (from_millis (c_webhook_retry_max_delay_ms c))) w2 = (d, w3)" by fastforce
  have w3: "w_clock w3 = w_clock w2"
    using d by (auto simp: retry_delay_def random_upto_def Let_def split: if_splits)
  have dle: "d \<le> inline_step_ms c ?a * 1000000"
    using delay_le_step [OF assms(1)] run_results d by (metis fst_conv)
  have eq: "run (attempt_loop c cl q attempts (Suc left)) w =
    (if is_success r then (Some ?a, w2)
     else if ?a < attempts then run (attempt_loop c cl q attempts left) (advance d w3)
     else run (attempt_loop c cl q attempts left) w2)"
    unfolding attempt_loop.simps Let_def run_bind split_beta w1_def [symmetric] p fst_conv snd_conv
    using d by (simp add: split_beta sleep_def)
  show ?case
  proof (cases "?a < attempts")
    case True
    then have "[?a..<attempts] = ?a # [Suc ?a..<attempts]" by (simp add: upt_conv_Cons)
    then show ?thesis unfolding eq a
      using Suc.IH [of "advance d w3"] Suc.prems w2 w3 dle True
      by (auto simp: add_mult_distrib)
  next
    case False
    then have "left = 0" using Suc.prems by simp
    then show ?thesis unfolding eq a using w2 by auto
  qed
qed simp


lemma clock_dispatch_attempts:
  assumes "c_webhook_retry_max_delay_ms c \<le> u64_max"
    and "cl_timeout_ns cl = c_webhook_timeout_secs c * 1000000000"
    and "sum_list (map (inline_step_ms c) [1..<attempts]) \<le> u64_max"
    and "worst_case_inline_delivery_secs c < u64_max"
    and "attempts = max (c_webhook_retry_attempts c) 1"
  shows "w_clock (snd (run (attempt_loop c cl q attempts attempts) w)) \<le>
    w_clock w + worst_case_inline_delivery_secs c * 1000000000"
proof -
  let ?S = "sum_list (map (inline_step_ms c) [1..<attempts])"
  define T where "T = attempts * c_webhook_timeout_secs c"
  define D where "D = (?S + 999) div 1000"
  have "fold (\<lambda>a acc. sat_u64 (acc + inline_step_ms c a)) [1..<attempts] 0 = ?S"
    using assms(3) fold_sat [of 0 "inline_step_ms c" "[1..<attempts]"] by (simp add: sat_u64_def)
  then have "worst_case_inline_delivery_secs c = sat_u64 (sat_u64 T + D)"
    unfolding worst_case_inline_delivery_secs_def Let_def assms(5) [symmetric] T_def D_def by simp
  then have W: "worst_case_inline_delivery_secs c = T + D"
    using assms(4) by (simp add: sat_u64_def split: if_splits)
  have "?S + 999 < D * 1000 + 1000"
    unfolding D_def using div_mult_mod_eq [of "?S + 999" 1000] mod_less_divisor [of 1000 "?S + 999"]
    by linarith
  then have "?S * 1000000 \<le> D * 1000000000" by linarith
  then show ?thesis
    using clock_attempt_loop [OF assms(1) order_refl, of cl q attempts w]
    unfolding W T_def assms(2) by (simp add: add_mult_distrib mult.assoc)
qed

text \<open>A row is only redriven once it has been idle for the whole grace window.\<close>

lemma redrivable_after_grace:
  assumes "redrivable maxa grace init maxb jitter now rnd r"
    and "sqlite_parse (case d_last_attempt r of Some t \<Rightarrow> t | None \<Rightarrow> d_created_at r) = Some t0"
    and "0 \<le> jitter"
  shows "t0 + grace \<le> now"
proof -
  let ?n = "redrive_wait grace init maxb jitter rnd (d_attempts r)"
  have "0 \<le> int rnd mod (jitter + 1)" using assms(3) by simp
  then have n: "grace \<le> ?n" by (auto simp: redrive_wait_def intro: add_increasing2)
  from assms(1,2) obtain due t where d: "sql_datetime (t0 + ?n) = Some due" "sql_datetime now = Some t" "due \<le> t"
    by (auto simp: redrivable_def sql_datetime_plus_def split: option.splits if_splits)
  have "t0 + ?n \<le> now"
  proof (rule ccontr)
    assume "\<not> t0 + ?n \<le> now"
    then have "t < due" using d(1,2) by (intro sql_datetime_less [of now t _ due]) auto
    with d(3) show False by simp
  qed
  with n show ?thesis by simp
qed

end
