(* ===== verification/Horizon.thy ===== *)
theory Horizon
  imports Webhook
begin

text \<open>
  Detecting and settling on-chain payments (\<open>src/horizon.rs\<close>, except the event stream, which is in
  the theory \<open>Sse\<close>): \<open>verify\<close>, \<open>reconcile_payment\<close>, \<open>settle\<close>, the paging of \<open>poll_once\<close>, the failure backoff
  of \<open>run_poller\<close> and the trustline check. The rely-guarantee proof at the end shows that a
  reconciliation only completes an intent whose ledger covers it, whatever runs beside it.
\<close>

definition PAYMENT_CURSOR_KEY :: string where
  "PAYMENT_CURSOR_KEY = ''horizon_payment_cursor''"

definition PAGE_LIMIT :: nat where
  "PAGE_LIMIT = 200"

definition MAX_PAGES_PER_CYCLE :: nat where
  "MAX_PAGES_PER_CYCLE = 25"

section \<open>Matching\<close>

datatype verdict =
    Completed (v_tx_hash: string) (v_paid_amount: string)
  | Overpaid (v_tx_hash: string) (v_paid_amount: string)
  | Underpaid (v_tx_hash: string) (v_paid_amount: string)

definition hp_memo :: "horizon_payment \<Rightarrow> string option" where
  "hp_memo hp =
     (case hp_transaction hp of
        None \<Rightarrow> None
      | Some t \<Rightarrow> if tr_memo_type t \<noteq> Some ''text'' then None else tr_memo t)"

definition is_successful :: "horizon_payment \<Rightarrow> bool" where
  "is_successful hp \<longleftrightarrow> Option.bind (hp_transaction hp) tr_successful = Some True"

definition asset_matches :: "payment \<Rightarrow> horizon_payment \<Rightarrow> bool" where
  "asset_matches p hp =
     (case p_asset_issuer p of
        Some issuer \<Rightarrow>
          if issuer \<noteq> [] then hp_asset_code hp = Some (p_asset p) \<and> hp_asset_issuer hp = Some issuer
          else eq_ignore_ascii_case (p_asset p) ''XLM'' \<and> hp_asset_type hp = Some ''native''
      | None \<Rightarrow> eq_ignore_ascii_case (p_asset p) ''XLM'' \<and> hp_asset_type hp = Some ''native'')"

definition hash_or_empty :: "horizon_payment \<Rightarrow> string" where
  "hash_or_empty hp = (case hp_transaction_hash hp of Some h \<Rightarrow> h | None \<Rightarrow> [])"

definition verify :: "payment \<Rightarrow> horizon_payment \<Rightarrow> int \<Rightarrow> verdict option" where
  "verify p hp already_paid =
     (if hp_kind hp \<noteq> ''payment'' then None
      else if hp_to hp \<noteq> Some (p_destination_address p) then None
      else if hp_memo hp \<noteq> Some (p_memo p) then None
      else if \<not> is_successful hp then None
      else if \<not> asset_matches p hp then None
      else
        Option.bind (hp_amount hp) (\<lambda>raw_amount.
        Option.bind (parse_stroops raw_amount) (\<lambda>new_paid.
        Option.bind (parse_stroops (p_amount p)) (\<lambda>expected.
          let total_paid = wrap_i64 (already_paid + new_paid);
              tx_hash = hash_or_empty hp;
              paid_amount = stroops_to_string total_paid
          in Some (if total_paid = expected then Completed tx_hash paid_amount
                   else if expected < total_paid then Overpaid tx_hash paid_amount
                   else Underpaid tx_hash paid_amount)))))"

section \<open>Horizon requests\<close>

definition trim_end_slashes :: "string \<Rightarrow> string" where
  "trim_end_slashes s = rev (dropWhile (\<lambda>c. c = CHR ''/'') (rev s))"

definition status_success :: "nat \<Rightarrow> bool" where
  "status_success s \<longleftrightarrow> 200 \<le> s \<and> s \<le> 299"

definition is_rate_limited :: "err \<Rightarrow> bool" where
  "is_rate_limited e = (case e of Horizon_Http s _ _ \<Rightarrow> s = 429 \<or> s = 503 | _ \<Rightarrow> False)"

definition error_retry_after :: "err \<Rightarrow> nat option" where
  "error_retry_after e = (case e of Horizon_Http _ r _ \<Rightarrow> r | _ \<Rightarrow> None)"

definition parse_retry_after :: "string option \<Rightarrow> nat option" where
  "parse_retry_after header =
     Option.bind header (\<lambda>v. map_option (\<lambda>s. s * 1000000000) (parse_u64 (trim v)))"

definition fetch_recent_payments ::
  "ext \<Rightarrow> config \<Rightarrow> string \<Rightarrow> nat \<Rightarrow> horizon_payment list result io" where
  "fetch_recent_payments x c cursor limit =
     bindP (http_get (trim_end_slashes (c_horizon_url c) @ ''/accounts/'' @ c_gateway_public c @
              ''/payments?order=asc&cursor='' @ cursor @ ''&limit='' @ show_nat limit @
              ''&join=transactions'')) (\<lambda>reply.
       case reply of
         Get_Failed \<Rightarrow> err Transport
       | Get_Reply status retry_after body \<Rightarrow>
           if \<not> status_success status
           then err (Horizon_Http status (parse_retry_after retry_after) body)
           else (case x_decode_page x body of Some page \<Rightarrow> ok page | None \<Rightarrow> err Json_Error))"

text \<open>\<open>error_for_status()?.json()?\<close>: a 4xx or 5xx answer is an opaque transport error.\<close>

definition get_json :: "(string \<Rightarrow> 'a option) \<Rightarrow> string \<Rightarrow> 'a result io" where
  "get_json decode url =
     bindP (http_get url) (\<lambda>reply.
       case reply of
         Get_Failed \<Rightarrow> err Transport
       | Get_Reply status _ body \<Rightarrow>
           if 400 \<le> status \<and> status \<le> 599 then err Transport
           else (case decode body of Some v \<Rightarrow> ok v | None \<Rightarrow> err Json_Error))"

definition missing_trustlines ::
  "accepted_asset list \<Rightarrow> account_balance list \<Rightarrow> accepted_asset list" where
  "missing_trustlines accepted balances =
     filter (\<lambda>a. case a_issuer a of
         None \<Rightarrow> False
       | Some issuer \<Rightarrow>
           \<not> (\<exists>b\<in>set balances. ab_asset_code b = Some (a_code a) \<and> ab_asset_issuer b = Some issuer))
       accepted"

definition check_trustlines :: "ext \<Rightarrow> config \<Rightarrow> string list result io" where
  "check_trustlines x c =
     and_then (get_json (x_decode_account x)
       (trim_end_slashes (c_horizon_url c) @ ''/accounts/'' @ c_gateway_public c)) (\<lambda>balances.
       ok (map a_code (missing_trustlines (c_accepted_assets c) balances)))"

definition starting_cursor :: "ext \<Rightarrow> config \<Rightarrow> string result io" where
  "starting_cursor x c =
     and_then (get_state PAYMENT_CURSOR_KEY) (\<lambda>saved.
       case saved of
         Some cursor \<Rightarrow> ok cursor
       | None \<Rightarrow>
           and_then (get_json (x_decode_page x)
             (trim_end_slashes (c_horizon_url c) @ ''/accounts/'' @ c_gateway_public c @
              ''/payments?order=desc&limit=1'')) (\<lambda>page.
             case (case page of [] \<Rightarrow> None | hp # _ \<Rightarrow> hp_paging_token hp) of
               Some token \<Rightarrow> and_then (set_state PAYMENT_CURSOR_KEY token) (\<lambda>_. ok token)
             | None \<Rightarrow> ok ''0''))"

section \<open>Reconciliation\<close>

definition settle ::
  "ext \<Rightarrow> config \<Rightarrow> payment \<Rightarrow> string \<Rightarrow> string \<Rightarrow> string \<Rightarrow> string \<Rightarrow> string option \<Rightarrow> bool io" where
  "settle x c p status tx_hash paid_amount event delta =
     bindP (update_payment_status (p_id p) status tx_hash paid_amount) (\<lambda>r.
       case r of
         Inl e \<Rightarrow> Ret False
       | Inr changed \<Rightarrow>
           if \<not> changed then Ret False
           else seqP (dispatch x c
                  (p\<lparr>p_status := status, p_tx_hash := Some tx_hash, p_paid_amount := Some paid_amount\<rparr>)
                  event delta) (Ret True))"

definition resolution :: "int \<Rightarrow> int \<Rightarrow> string \<times> string \<times> string option" where
  "resolution total_paid expected =
     (if total_paid = expected then (''completed'', ''payment.completed'', None)
      else if expected < total_paid
      then (''completed'', ''payment.overpaid'', Some (stroops_to_string (total_paid - expected)))
      else (''underpaid'', ''payment.underpaid'', Some (stroops_to_string (expected - total_paid))))"

definition stroops_or_zero :: "string option \<Rightarrow> int" where
  "stroops_or_zero s = (case Option.bind s parse_stroops of Some n \<Rightarrow> n | None \<Rightarrow> 0)"

definition reconcile_matched ::
  "ext \<Rightarrow> config \<Rightarrow> payment \<Rightarrow> horizon_payment \<Rightarrow> bool result io" where
  "reconcile_matched x c p hp =
     and_then (record_processed_tx (p_id p) (hash_or_empty hp) (stroops_or_zero (hp_amount hp)))
     (\<lambda>fresh.
       if \<not> fresh then ok False
       else
         and_then (sum_processed_stroops (p_id p)) (\<lambda>total_paid.
           case resolution total_paid (stroops_or_zero (Some (p_amount p))) of
             (status, event, delta) \<Rightarrow>
               bindP (settle x c p status (hash_or_empty hp) (stroops_to_string total_paid) event delta)
                 (\<lambda>did. ok did)))"

definition reconcile_payment :: "ext \<Rightarrow> config \<Rightarrow> horizon_payment \<Rightarrow> bool result io" where
  "reconcile_payment x c hp =
     (case hp_memo hp of
        None \<Rightarrow> ok False
      | Some memo \<Rightarrow>
          and_then (find_pending_by_memo memo) (\<lambda>found.
            case found of
              None \<Rightarrow> ok False
            | Some p \<Rightarrow>
                and_then (sum_processed_stroops (p_id p)) (\<lambda>already_paid.
                  if verify p hp already_paid = None then ok False
                  else reconcile_matched x c p hp)))"

section \<open>Polling\<close>

primrec reconcile_page ::
  "ext \<Rightarrow> config \<Rightarrow> horizon_payment list \<Rightarrow> string \<Rightarrow> nat \<Rightarrow> (string \<times> nat) io" where
  "reconcile_page x c [] cursor settled = Ret (cursor, settled)"
| "reconcile_page x c (hp # hps) cursor settled =
     (let cursor' = (case hp_paging_token hp of Some t \<Rightarrow> t | None \<Rightarrow> cursor) in
      bindP (reconcile_payment x c hp) (\<lambda>r.
        reconcile_page x c hps cursor' (if r = Inr True then settled + 1 else settled)))"

text \<open>The page loop; the first argument is how many more pages this cycle may fetch.\<close>

primrec poll_pages :: "nat \<Rightarrow> ext \<Rightarrow> config \<Rightarrow> string \<Rightarrow> nat \<Rightarrow> nat result io" where
  "poll_pages 0 x c cursor settled = ok settled"
| "poll_pages (Suc left) x c cursor settled =
     and_then (fetch_recent_payments x c cursor PAGE_LIMIT) (\<lambda>page.
     bindP (reconcile_page x c page cursor settled) (\<lambda>(cursor', settled').
     and_then (set_state PAYMENT_CURSOR_KEY cursor') (\<lambda>_.
       if length page < PAGE_LIMIT then ok settled' else poll_pages left x c cursor' settled')))"

definition poll_once :: "ext \<Rightarrow> config \<Rightarrow> nat result io" where
  "poll_once x c =
     and_then (starting_cursor x c) (\<lambda>cursor.
     and_then (poll_pages MAX_PAGES_PER_CYCLE x c cursor 0) (\<lambda>settled.
     seqP (on_task_health note_success) (ok settled)))"

definition POLL_BACKOFF_BASE :: nat where
  "POLL_BACKOFF_BASE = 1000000000"

definition POLL_BACKOFF_MAX :: nat where
  "POLL_BACKOFF_MAX = 120000000000"

definition next_poll_delay :: "nat \<Rightarrow> nat option \<Rightarrow> nat io" where
  "next_poll_delay failures retry_after =
     (case retry_after of
        Some d \<Rightarrow> Ret d
      | None \<Rightarrow> retry_delay failures POLL_BACKOFF_BASE POLL_BACKOFF_MAX)"

text \<open>One iteration of \<open>run_poller\<close> after its sleep: the failures in a row and the next delay.\<close>

definition poll_cycle :: "ext \<Rightarrow> config \<Rightarrow> nat \<Rightarrow> (nat \<times> nat) io" where
  "poll_cycle x c failures =
     bindP (poll_once x c) (\<lambda>r.
       case r of
         Inr n \<Rightarrow>
           seqP (on_horizon_metrics horizon_record_success)
             (Ret (0, max (c_poll_interval_secs c) 1 * 1000000000))
       | Inl e \<Rightarrow>
           let failures' = sat_u32 (failures + 1) in
           seqP (on_horizon_metrics (if is_rate_limited e then record_rate_limited else record_error))
             (bindP (next_poll_delay failures' (error_retry_after e)) (\<lambda>d. Ret (failures', d))))"

section \<open>Safety of reconciliation beside other tasks\<close>

lemma verify_SomeD:
  assumes "verify p hp paid \<noteq> None"
  shows "\<exists>n e. hp_amount hp \<noteq> None \<and> Option.bind (hp_amount hp) parse_stroops = Some n \<and>
           parse_stroops (p_amount p) = Some e \<and> hp_kind hp = ''payment'' \<and>
           hp_to hp = Some (p_destination_address p) \<and> hp_memo hp = Some (p_memo p) \<and>
           is_successful hp \<and> asset_matches p hp"
  using assms by (auto simp: verify_def bind_eq_Some_conv split: if_splits)

lemma sql_sum_Some: "sql_sum acc xs = Some s \<Longrightarrow> s = acc + sum_list xs"
  by (induction acc xs rule: sql_sum.induct) (auto split: if_splits)

text \<open>What a reconciler knows of the intent it found: it exists and was priced at this amount.\<close>

definition known :: "payment \<Rightarrow> db \<Rightarrow> bool" where
  "known p d \<longleftrightarrow> (\<exists>q\<in>set (payments d). p_id q = p_id p \<and> p_amount q = p_amount p)"

lemma known_stable: "known p d \<Longrightarrow> evolves d d' \<Longrightarrow> known p d'"
  unfolding known_def evolves_def
  by (metis grows_mem payment_evolves_def same_terms_def)

lemma known_amount:
  assumes "known p d" "db_ok d" "q \<in> set (payments d)" "p_id q = p_id p"
  shows "p_amount q = p_amount p"
proof -
  obtain r where r: "r \<in> set (payments d)" "p_id r = p_id p" "p_amount r = p_amount p"
    using assms(1) by (auto simp: known_def)
  have "inj_on p_id (set (payments d))" using assms(2) by (simp add: db_ok_def distinct_map)
  with r assms(3,4) have "r = q" by (metis inj_onD)
  with r show ?thesis by simp
qed

lemma rg_find_pending:
  "rg world_evolves world_inv (find_pending_by_memo memo)
     (\<lambda>r w'. \<forall>p. r = Inr (Some p) \<longrightarrow> known p (w_db w')) w"
  unfolding find_pending_by_memo_def
proof (rule rg_stmt, goal_cases)
  case (1 now d rnd)
  have "known (row_to_payment q) d'" if "q \<in> set (payments d)" "evolves d d'" for q d'
    using that by (intro known_stable [OF _ that(2)]) (auto simp: known_def row_to_payment_def)
  with 1 show ?case by (auto dest!: find_eq_SomeD)
qed simp

lemma rg_sum_processed:
  "rg world_evolves world_inv (sum_processed_stroops i)
     (\<lambda>r w'. \<forall>s. r = Inr s \<longrightarrow> s \<le> ledger_total i (w_db w')) w"
  unfolding sum_processed_stroops_def
proof (rule rg_stmt, goal_cases)
  case (1 now d rnd)
  have "s \<le> ledger_total i d'" if "sql_sum 0 (amounts_of i d) = Some s" "evolves d d'" "db_ok d'" for s d'
    using sql_sum_Some [OF that(1)] ledger_total_mono [OF that(2,3), of i]
    by (simp add: ledger_total_def)
  with 1 show ?case by (auto split: option.splits)
qed simp

lemma resolution_status:
  "resolution t e = (status, event, delta) \<Longrightarrow>
     (status = ''completed'' \<or> status = ''underpaid'') \<and> (status = ''completed'' \<longleftrightarrow> e \<le> t)"
  by (auto simp: resolution_def split: if_splits)

lemma rg_update_status:
  assumes "status = ''completed'' \<or> status = ''underpaid''"
    and "status = ''completed'' \<Longrightarrow> parse_stroops (p_amount p) = Some e \<and> e \<le> t"
    and "known p (w_db w)" "t \<le> ledger_total (p_id p) (w_db w)"
  shows "rg world_evolves world_inv (update_payment_status (p_id p) status tx paid) (\<lambda>_ _. True) w"
  unfolding update_payment_status_def
proof (rule rg_stmt [where Q = "\<lambda>_ _. True"], goal_cases)
  case (1 now d rnd)
  then have ok: "db_ok d" by (simp add: db_inv_def)
  have k: "known p d" using assms(3) 1(1) by (rule known_stable)
  have l: "t \<le> ledger_total (p_id p) d"
    using ledger_total_mono [OF 1(1) ok, of "p_id p"] assms(4) by simp
  have "evolves d (snd (update_status_rows (p_id p) status tx paid now d)) \<and>
        db_inv now (snd (update_status_rows (p_id p) status tx paid now d))"
    using assms(2) l known_amount [OF k ok]
    by (intro update_status_safe [OF 1(2) assms(1)]) (auto simp: covered_def)
  then show ?case by simp
qed simp

abbreviation rgP :: "'a io \<Rightarrow> world \<Rightarrow> bool" where
  "rgP p w \<equiv> rg world_evolves world_inv p (\<lambda>_ _. True) w"

lemma rgP_safe: "safeP p \<Longrightarrow> rgP p w"
  by (rule gateway.rg_obeys)

lemma rgP_bind:
  assumes "rg world_evolves world_inv p Q w"
    and "\<And>a w'. world_evolves w w' \<Longrightarrow> world_inv w' \<Longrightarrow> Q a w' \<Longrightarrow> rgP (k a) w'"
  shows "rgP (bindP p k) w"
  using assms by (rule gateway.rg_bind)

lemma rgP_and_then:
  assumes "rg world_evolves world_inv p Q w"
    and "\<And>a w'. world_evolves w w' \<Longrightarrow> world_inv w' \<Longrightarrow> Q (Inr a) w' \<Longrightarrow> rgP (k a) w'"
  shows "rgP (and_then p k) w"
  unfolding and_then_def using assms(1)
  by (rule rgP_bind) (auto split: sum.split intro: assms(2))

lemma rgP_settle:
  assumes "resolution t e = (status, event, delta)" "parse_stroops (p_amount p) = Some e"
    and "known p (w_db w)" "t \<le> ledger_total (p_id p) (w_db w)"
  shows "rgP (settle x c p status tx paid event delta) w"
  unfolding settle_def
proof (rule rgP_bind)
  show "rgP (update_payment_status (p_id p) status tx paid) w"
    using resolution_status [OF assms(1)] assms(2-4) by (intro rg_update_status [of status p e t]) auto
qed (intro rgP_safe proc_safe)

lemma rgP_reconcile_matched:
  assumes "verify p hp paid \<noteq> None" "known p (w_db w)"
  shows "rgP (reconcile_matched x c p hp) w"
proof -
  obtain n e where v: "Option.bind (hp_amount hp) parse_stroops = Some n" "parse_stroops (p_amount p) = Some e"
    using verify_SomeD [OF assms(1)] by blast
  then have n: "0 < n \<and> n \<le> i64_max" by (auto simp: bind_eq_Some_conv dest: parse_stroops_range)
  have known: "known p (w_db w')" if "world_evolves w w'" for w'
    using assms(2) that by (auto simp: world_evolves_def intro: known_stable)
  show ?thesis
    unfolding reconcile_matched_def
  proof (rule rgP_and_then)
    show "rgP (record_processed_tx (p_id p) (hash_or_empty hp) (stroops_or_zero (hp_amount hp))) w"
      unfolding record_processed_tx_def stroops_or_zero_def v(1) using n
      by (auto intro!: rgP_safe proc_safe safe_insert_processed)
  next
    fix fresh w' assume w': "world_evolves w w'"
    show "rgP (if \<not> fresh then ok False else and_then (sum_processed_stroops (p_id p)) (\<lambda>total_paid.
        case resolution total_paid (stroops_or_zero (Some (p_amount p))) of (status, event, delta) \<Rightarrow>
          bindP (settle x c p status (hash_or_empty hp) (stroops_to_string total_paid) event delta) ok)) w'"
    proof (cases fresh)
      case True
      have "rgP (case resolution t e of (status, event, delta) \<Rightarrow>
          bindP (settle x c p status (hash_or_empty hp) (stroops_to_string t) event delta) ok) w''"
        if "world_evolves w' w''" "t \<le> ledger_total (p_id p) (w_db w'')" for t w''
        using known [OF gateway.R_trans [OF w' that(1)]] that(2) v(2)
        by (auto intro: rgP_bind [OF rgP_settle] split: prod.split)
      then show ?thesis
        using True v(2) by (auto simp: stroops_or_zero_def intro: rgP_and_then [OF rg_sum_processed])
    qed simp
  qed
qed

lemma rgP_reconcile: "rgP (reconcile_payment x c hp) w"
proof (cases "hp_memo hp")
  case (Some memo)
  have "rgP (case found of None \<Rightarrow> ok False | Some p \<Rightarrow> and_then (sum_processed_stroops (p_id p))
      (\<lambda>paid. if verify p hp paid = None then ok False else reconcile_matched x c p hp)) w'"
    if "\<forall>p. Inr found = (Inr (Some p) :: payment option result) \<longrightarrow> known p (w_db w')" for found w'
  proof (cases found)
    case f: (Some p)
    have "rgP (if verify p hp paid = None then ok False else reconcile_matched x c p hp) w''"
      if "world_evolves w' w''" for paid w''
      using that \<open>\<forall>p. _\<close> f by (auto intro!: rgP_reconcile_matched intro: known_stable simp: world_evolves_def)
    then show ?thesis unfolding f option.case by (rule rgP_and_then [OF rg_sum_processed])
  qed simp
  then show ?thesis
    unfolding reconcile_payment_def Some option.case
    by (intro rgP_and_then [OF rg_find_pending]) blast
qed (simp add: reconcile_payment_def)

text \<open>The poller: pages, checkpoints and heartbeats keep the invariant too.\<close>

lemma safeP_state [proc_safe]: "safeP (get_state k)" "safeP (set_state k v)"
  unfolding get_state_def set_state_def by (intro proc_safe safe_query safe_upsert_state)+

lemma obeys_case_get_reply [proc_safe]:
  "obeys R p \<Longrightarrow> (\<And>s h b. obeys R (k s h b)) \<Longrightarrow>
   obeys R (case y of Get_Failed \<Rightarrow> p | Get_Reply s h b \<Rightarrow> k s h b)"
  by (cases y) auto

lemma safeP_requests [proc_safe]:
  "safeP (fetch_recent_payments x c cursor limit)" "safeP (get_json decode url)"
  unfolding fetch_recent_payments_def get_json_def by (intro proc_safe)+

lemma safeP_starting_cursor [proc_safe]: "safeP (starting_cursor x c)"
  unfolding starting_cursor_def by (intro proc_safe)

lemma rgP_reconcile_page: "rgP (reconcile_page x c hps cursor settled) w"
proof (induction hps arbitrary: cursor settled w)
  case (Cons hp hps)
  then show ?case
    by (auto simp: Let_def intro: rgP_bind [OF rgP_reconcile])
qed simp

lemma rgP_poll_pages: "rgP (poll_pages n x c cursor settled) w"
proof (induction n arbitrary: cursor settled w)
  case (Suc n cursor settled w)
  have next_page: "rgP (and_then (set_state PAYMENT_CURSOR_KEY v)
      (\<lambda>_. if length page < PAGE_LIMIT then ok s else poll_pages n x c v s)) w'" for page v s w'
    using Suc by (intro rgP_and_then [OF rgP_safe]) (auto intro: proc_safe)
  show ?case unfolding poll_pages.simps
    by (intro rgP_and_then [OF rgP_safe [OF safeP_requests(1)]] rgP_bind [OF rgP_reconcile_page])
      (simp only: split_beta next_page)
qed simp

lemma rgP_poll_once: "rgP (poll_once x c) w"
  unfolding poll_once_def
  by (intro rgP_and_then [OF rgP_safe [OF safeP_starting_cursor]] rgP_and_then [OF rgP_poll_pages]
      rgP_safe proc_safe)

end
