(* ===== verification/Sse.thy ===== *)
theory Sse
  imports Horizon
begin

text \<open>
  The Horizon event stream (\<open>src/horizon.rs\<close>: \<open>find_event_end\<close>, \<open>parse_sse_block\<close>,
  \<open>handle_stream_event\<close>, \<open>stream_once\<close>). \<open>find_event_end\<close> is related to its meaning, the shortest prefix that
  ends in a blank line, and from that the buffering of \<open>stream_once\<close> is shown to deliver the same event
  blocks however the bytes are cut into chunks.
\<close>

section \<open>Event boundaries\<close>

abbreviation LF :: char where "LF \<equiv> CHR 0x0A"
abbreviation CR :: char where "CR \<equiv> CHR 0x0D"

text \<open>\<open>buf.windows(n).position(|w| w == pat)\<close>.\<close>

fun window_position :: "string \<Rightarrow> string \<Rightarrow> nat option" where
  "window_position pat [] = None"
| "window_position pat (c # cs) =
     (if take (length pat) (c # cs) = pat then Some 0 else map_option Suc (window_position pat cs))"

definition find_event_end :: "string \<Rightarrow> nat option" where
  "find_event_end buf =
     (let lf = map_option (\<lambda>i. i + 2) (window_position [LF, LF] buf);
          crlf = map_option (\<lambda>i. i + 4) (window_position [CR, LF, CR, LF] buf) in
      case (lf, crlf) of
        (Some a, Some b) \<Rightarrow> Some (min a b)
      | (a, b) \<Rightarrow> (if a \<noteq> None then a else b))"

section \<open>Parsing one block\<close>

record sse_event =
  ev_event :: "string option"
  ev_id :: "string option"
  ev_data :: string

text \<open>\<open>str::lines\<close>: split at line feeds, drop one trailing carriage return, no last empty line.\<close>

definition strip_cr :: "string \<Rightarrow> string" where
  "strip_cr l = (if l \<noteq> [] \<and> last l = CR then butlast l else l)"

definition str_lines :: "string \<Rightarrow> string list" where
  "str_lines s =
     (let ls = split_on LF s in map strip_cr (if last ls = [] then butlast ls else ls))"

definition strip_space :: "string \<Rightarrow> string" where
  "strip_space rest = (case strip_prefix '' '' rest of Some r \<Rightarrow> r | None \<Rightarrow> rest)"

fun parse_sse_lines :: "string list \<Rightarrow> sse_event \<times> string list \<Rightarrow> sse_event \<times> string list" where
  "parse_sse_lines [] acc = acc"
| "parse_sse_lines (l # ls) (ev, data) =
     parse_sse_lines ls
       (case strip_prefix ''data:'' l of
          Some rest \<Rightarrow> (ev, data @ [strip_space rest])
        | None \<Rightarrow>
            (case strip_prefix ''event:'' l of
               Some rest \<Rightarrow> (ev\<lparr>ev_event := Some (strip_space rest)\<rparr>, data)
             | None \<Rightarrow>
                 (case strip_prefix ''id:'' l of
                    Some rest \<Rightarrow> (ev\<lparr>ev_id := Some (strip_space rest)\<rparr>, data)
                  | None \<Rightarrow> (ev, data))))"

definition parse_sse_block :: "string \<Rightarrow> sse_event" where
  "parse_sse_block block =
     (case parse_sse_lines (str_lines block) (\<lparr>ev_event = None, ev_id = None, ev_data = []\<rparr>, []) of
        (ev, data) \<Rightarrow> ev\<lparr>ev_data := join_with LF data\<rparr>)"

section \<open>Handling events\<close>

text \<open>The result is the reconnect cursor after the event.\<close>

definition handle_stream_event :: "ext \<Rightarrow> config \<Rightarrow> string \<Rightarrow> string \<Rightarrow> string io" where
  "handle_stream_event x c block cursor =
     (let ev = parse_sse_block block;
          cursor' = (case ev_id ev of Some i \<Rightarrow> i | None \<Rightarrow> cursor) in
      if ev_event ev = Some ''open'' \<or> ev_data ev = [] then Ret cursor'
      else (case x_decode_payment x (ev_data ev) of
              None \<Rightarrow> Ret cursor'
            | Some hp \<Rightarrow>
                seqP (on_task_health note_success)
                (seqP (reconcile_payment x c hp) (Ret cursor'))))"

lemma find_event_end_bounds: "find_event_end buf = Some n \<Longrightarrow> 2 \<le> n"
  by (auto simp: find_event_end_def Let_def split: option.splits if_splits)

text \<open>Take every complete event off the front of the buffer.\<close>

function split_events :: "string \<Rightarrow> string list \<times> string" where
  "split_events buf =
     (case (buf, find_event_end buf) of
        (_ # _, Some n) \<Rightarrow> (case split_events (drop n buf) of (bs, rest) \<Rightarrow> (take n buf # bs, rest))
      | _ \<Rightarrow> ([], buf))"
  by pat_completeness auto
termination
  by (relation "measure length") (auto dest!: sym [of "Some _"] dest: find_event_end_bounds)

declare split_events.simps [simp del]

primrec handle_blocks :: "ext \<Rightarrow> config \<Rightarrow> string list \<Rightarrow> string \<Rightarrow> string io" where
  "handle_blocks x c [] cursor = Ret cursor"
| "handle_blocks x c (b # bs) cursor =
     bindP (handle_stream_event x c (x_utf8_lossy x b) cursor) (\<lambda>cursor'. handle_blocks x c bs cursor')"

fun stream_chunks ::
  "ext \<Rightarrow> config \<Rightarrow> string option list \<Rightarrow> string \<Rightarrow> string \<Rightarrow> (string \<times> unit result) io" where
  "stream_chunks x c [] buf cursor = Ret (cursor, Inr ())"
| "stream_chunks x c (None # chunks) buf cursor = Ret (cursor, Inl Transport)"
| "stream_chunks x c (Some chunk # chunks) buf cursor =
     (case split_events (buf @ chunk) of
        (blocks, rest) \<Rightarrow>
          bindP (handle_blocks x c blocks cursor) (\<lambda>cursor'. stream_chunks x c chunks rest cursor'))"

definition stream_once :: "ext \<Rightarrow> config \<Rightarrow> string \<Rightarrow> (string \<times> unit result) io" where
  "stream_once x c cursor =
     bindP (http_stream (trim_end_slashes (c_horizon_url c) @ ''/accounts/'' @ c_gateway_public c @
              ''/payments?cursor='' @ cursor @ ''&join=transactions'')) (\<lambda>reply.
       case reply of
         None \<Rightarrow> Ret (cursor, Inl Transport)
       | Some chunks \<Rightarrow> stream_chunks x c chunks [] cursor)"

text \<open>
  One turn of the reconnect loop of \<open>run_stream_listener\<close>: the cursor, and the backoff to sleep for before
  the next connection, which is reset when the cursor moved.
\<close>

definition STREAM_BACKOFF_BASE :: nat where "STREAM_BACKOFF_BASE = 1000000000"
definition STREAM_BACKOFF_MAX :: nat where "STREAM_BACKOFF_MAX = 30000000000"

definition stream_turn :: "ext \<Rightarrow> config \<Rightarrow> string \<Rightarrow> nat \<Rightarrow> (string \<times> nat) io" where
  "stream_turn x c cursor backoff =
     bindP (stream_once x c cursor) (\<lambda>(cursor', _).
     let backoff' = (if cursor' \<noteq> cursor then STREAM_BACKOFF_BASE else backoff) in
     seqP (sleep backoff') (Ret (cursor', min (backoff' * 2) STREAM_BACKOFF_MAX)))"

section \<open>The meaning of an event boundary\<close>

definition blank_end :: "string \<Rightarrow> bool" where
  "blank_end s \<longleftrightarrow> ends_with [LF, LF] s \<or> ends_with [CR, LF, CR, LF] s"

definition occurs_at :: "string \<Rightarrow> string \<Rightarrow> nat \<Rightarrow> bool" where
  "occurs_at pat s i \<longleftrightarrow> take (length pat) (drop i s) = pat"

lemma window_position_None:
  "pat \<noteq> [] \<Longrightarrow> window_position pat s = None \<longleftrightarrow> (\<forall>i. \<not> occurs_at pat s i)"
proof (induction s)
  case (Cons c s)
  have "(\<forall>i. \<not> occurs_at pat (c # s) i) \<longleftrightarrow> \<not> occurs_at pat (c # s) 0 \<and> (\<forall>i. \<not> occurs_at pat s i)"
    by (auto simp: occurs_at_def drop_Cons split: nat.splits)
  with Cons show ?case by (simp add: occurs_at_def)
qed (simp add: occurs_at_def)

lemma window_position_Some:
  "pat \<noteq> [] \<Longrightarrow> window_position pat s = Some i \<longleftrightarrow> occurs_at pat s i \<and> (\<forall>j<i. \<not> occurs_at pat s j)"
proof (induction s arbitrary: i)
  case (Cons c s)
  have suc: "occurs_at pat (c # s) (Suc j) = occurs_at pat s j" for j by (simp add: occurs_at_def)
  show ?case
  proof (cases "occurs_at pat (c # s) 0")
    case True
    then show ?thesis by (auto simp: occurs_at_def)
  next
    case False
    then have "window_position pat (c # s) = map_option Suc (window_position pat s)"
      by (simp add: occurs_at_def)
    with False Cons suc show ?thesis
      by (cases i) (auto simp: All_less_Suc2)
  qed
qed (simp add: occurs_at_def)

lemma ends_with_take:
  assumes "n \<le> length s"
  shows "ends_with pat (take n s) \<longleftrightarrow> length pat \<le> n \<and> occurs_at pat s (n - length pat)"
proof (cases "length pat \<le> n")
  case True
  then have "take n s = take (n - length pat) s @ take (length pat) (drop (n - length pat) s)"
    by (metis le_add_diff_inverse2 take_add)
  moreover have "length (take (length pat) (drop (n - length pat) s)) = length pat"
    using assms True by simp
  ultimately show ?thesis
    using True by (simp add: ends_with_def starts_with_def occurs_at_def)
next
  case False
  then show ?thesis by (auto simp: ends_with_def starts_with_def dest!: arg_cong [where f = length])
qed

lemma occurs_at_bound: "pat \<noteq> [] \<Longrightarrow> occurs_at pat s i \<Longrightarrow> i + length pat \<le> length s"
  by (cases "i \<le> length s") (auto simp: occurs_at_def dest!: arg_cong [where f = length])

lemma first_end_Some:
  assumes "pat \<noteq> []"
  shows "map_option (\<lambda>i. i + length pat) (window_position pat s) = Some n \<longleftrightarrow>
    n \<le> length s \<and> ends_with pat (take n s) \<and> (\<forall>m<n. \<not> ends_with pat (take m s))"
    (is "?l \<longleftrightarrow> ?r")
proof
  assume ?l
  then obtain i where i: "window_position pat s = Some i" "n = i + length pat" by auto
  then have o: "occurs_at pat s i" "\<forall>j<i. \<not> occurs_at pat s j"
    using window_position_Some [OF assms] by blast+
  have n: "n \<le> length s" using occurs_at_bound [OF assms o(1)] i(2) by simp
  have "\<not> ends_with pat (take m s)" if "m < n" for m
    using that n o(2) i(2) by (subst ends_with_take) (auto simp: less_diff_conv)
  with n o(1) i(2) show ?r by (simp add: ends_with_take)
next
  assume r: ?r
  let ?i = "n - length pat"
  have i: "length pat \<le> n" "occurs_at pat s ?i" using r ends_with_take [of n s pat] by blast+
  have "\<not> occurs_at pat s j" if j: "j < ?i" for j
  proof -
    have "j + length pat < n" "j + length pat \<le> length s" using j r by linarith+
    with r ends_with_take [of "j + length pat" s pat] show ?thesis by auto
  qed
  with i have "window_position pat s = Some ?i" by (simp add: window_position_Some [OF assms])
  with i show ?l by simp
qed

lemma first_end_None:
  assumes "pat \<noteq> []"
  shows "window_position pat s = None \<longleftrightarrow> (\<forall>n\<le>length s. \<not> ends_with pat (take n s))"
proof -
  have "(\<exists>i. occurs_at pat s i) \<longleftrightarrow> (\<exists>n\<le>length s. ends_with pat (take n s))"
  proof (intro iffI; elim exE conjE)
    fix i assume i: "occurs_at pat s i"
    from occurs_at_bound [OF assms i] have "i + length pat \<le> length s" .
    moreover from this i have "ends_with pat (take (i + length pat) s)" by (simp add: ends_with_take)
    ultimately show "\<exists>n\<le>length s. ends_with pat (take n s)" by blast
  qed (auto simp: ends_with_take)
  then show ?thesis using window_position_None [OF assms] by auto
qed

lemma find_event_end_iff:
  "find_event_end s = Some n \<longleftrightarrow>
     n \<le> length s \<and> blank_end (take n s) \<and> (\<forall>m<n. \<not> blank_end (take m s))"
proof -
  define A where "A m \<longleftrightarrow> ends_with [LF, LF] (take m s)" for m
  define B where "B m \<longleftrightarrow> ends_with [CR, LF, CR, LF] (take m s)" for m
  define lf where "lf = map_option (\<lambda>i. i + 2) (window_position [LF, LF] s)"
  define crlf where "crlf = map_option (\<lambda>i. i + 4) (window_position [CR, LF, CR, LF] s)"
  have a: "lf = Some m \<longleftrightarrow> m \<le> length s \<and> A m \<and> (\<forall>k<m. \<not> A k)" for m
    using first_end_Some [of "[LF, LF]" s m] by (simp add: lf_def A_def numeral_2_eq_2)
  have b: "crlf = Some m \<longleftrightarrow> m \<le> length s \<and> B m \<and> (\<forall>k<m. \<not> B k)" for m
    using first_end_Some [of "[CR, LF, CR, LF]" s m] by (simp add: crlf_def B_def eval_nat_numeral)
  have na: "lf = None \<longleftrightarrow> (\<forall>m\<le>length s. \<not> A m)" and nb: "crlf = None \<longleftrightarrow> (\<forall>m\<le>length s. \<not> B m)"
    using first_end_None [of "[LF, LF]" s] first_end_None [of "[CR, LF, CR, LF]" s]
    by (simp_all add: lf_def crlf_def A_def B_def)
  have "find_event_end s = (case (lf, crlf) of (Some i, Some j) \<Rightarrow> Some (min i j)
      | (i, j) \<Rightarrow> (if i \<noteq> None then i else j))"
    by (simp add: find_event_end_def lf_def crlf_def Let_def)
  then have "find_event_end s = Some n \<longleftrightarrow>
      n \<le> length s \<and> (A n \<or> B n) \<and> (\<forall>m<n. \<not> (A m \<or> B m))"
  proof (cases lf; cases crlf)
    fix i j assume ij: "lf = Some i" "crlf = Some j"
    then show ?thesis
      using \<open>find_event_end s = _\<close> a [of i] b [of j]
      by (auto simp: min_def) (metis linorder_neqE_nat not_le order_le_less_trans)+
  next
    fix i assume "lf = Some i" "crlf = None"
    then show ?thesis using \<open>find_event_end s = _\<close> a [of i] nb
      by auto (metis linorder_neqE_nat order.strict_trans1 less_imp_le)+
  next
    fix j assume "lf = None" "crlf = Some j"
    then show ?thesis using \<open>find_event_end s = _\<close> b [of j] na
      by auto (metis linorder_neqE_nat order.strict_trans1 less_imp_le)+
  qed (use \<open>find_event_end s = _\<close> na nb in auto)
  then show ?thesis by (simp add: blank_end_def A_def B_def)
qed

section \<open>Chunks do not matter\<close>

lemma find_event_end_append:
  assumes "find_event_end a = Some n"
  shows "find_event_end (a @ b) = Some n"
  using assms by (auto simp: find_event_end_iff)

lemma split_events_None: "find_event_end buf = None \<Longrightarrow> split_events buf = ([], buf)"
  by (subst split_events.simps) (simp split: list.split)

lemma split_events_Some:
  assumes "find_event_end buf = Some n"
  shows "split_events buf = (case split_events (drop n buf) of (bs, rest) \<Rightarrow> (take n buf # bs, rest))"
proof -
  have "buf \<noteq> []" using assms find_event_end_iff [of buf n] find_event_end_bounds [OF assms] by auto
  with assms show ?thesis by (subst split_events.simps) (simp split: list.split)
qed

text \<open>Splitting a longer buffer continues from the rest of the shorter one.\<close>

lemma split_events_append:
  "split_events (a @ b) =
     (case split_events a of (bs, rest) \<Rightarrow> (case split_events (rest @ b) of (cs, rest') \<Rightarrow> (bs @ cs, rest')))"
proof (induction a rule: split_events.induct)
  case (1 buf)
  show ?case
  proof (cases "find_event_end buf")
    case None
    then show ?thesis by (simp add: split_events_None)
  next
    case (Some n)
    then have n: "n \<le> length buf" "buf \<noteq> []"
      using find_event_end_iff [of buf n] find_event_end_bounds [OF Some] by auto
    then obtain c cs where c: "buf = c # cs" by (cases buf) auto
    have "split_events (drop n buf @ b) =
        (case split_events (drop n buf) of (bs, rest) \<Rightarrow>
          (case split_events (rest @ b) of (cs, rest') \<Rightarrow> (bs @ cs, rest')))"
      using "1.IH" [OF _ c] Some c by simp
    then show ?thesis
      using n split_events_Some [OF Some] split_events_Some [OF find_event_end_append [OF Some], of b]
      by (auto split: prod.splits)
  qed
qed

lemma split_events_rest: "split_events (snd (split_events a)) = ([], snd (split_events a))"
  using split_events_append [of a "[]"] by (auto split: prod.splits)

lemma handle_blocks_append:
  "handle_blocks x c (bs @ cs) cursor =
     bindP (handle_blocks x c bs cursor) (\<lambda>cursor'. handle_blocks x c cs cursor')"
  by (induction bs arbitrary: cursor) (simp_all add: bindP_assoc)

lemma stream_chunks_concat:
  assumes "split_events buf = ([], buf)"
  shows "stream_chunks x c (map Some chunks) buf cursor =
    bindP (handle_blocks x c (fst (split_events (buf @ concat chunks))) cursor) (\<lambda>cur. Ret (cur, Inr ()))"
  using assms
proof (induction chunks arbitrary: buf cursor)
  case Nil
  then show ?case by simp
next
  case (Cons chunk chunks)
  obtain bs rest where s: "split_events (buf @ chunk) = (bs, rest)" by fastforce
  have "split_events rest = ([], rest)" using split_events_rest [of "buf @ chunk"] s by simp
  then have IH: "stream_chunks x c (map Some chunks) rest = (\<lambda>cur. bindP
      (handle_blocks x c (fst (split_events (rest @ concat chunks))) cur) (\<lambda>cur. Ret (cur, Inr ())))"
    using Cons.IH by (intro ext) simp
  have "fst (split_events (buf @ chunk @ concat chunks)) = bs @ fst (split_events (rest @ concat chunks))"
    using split_events_append [of "buf @ chunk" "concat chunks"] s by (auto split: prod.splits)
  then show ?case by (simp add: s IH handle_blocks_append bindP_assoc)
qed

section \<open>Safety\<close>

lemma rgP_handle_stream_event: "rgP (handle_stream_event x c block cursor) w"
  unfolding handle_stream_event_def Let_def
  by (auto intro!: rgP_bind [OF rgP_safe] rgP_bind [OF rgP_reconcile] proc_safe split: option.split)

lemma rgP_handle_blocks: "rgP (handle_blocks x c bs cursor) w"
  by (induction bs arbitrary: cursor w) (auto intro: rgP_bind [OF rgP_handle_stream_event])

lemma rgP_stream_chunks: "rgP (stream_chunks x c chunks buf cursor) w"
  by (induction x c chunks buf cursor arbitrary: w rule: stream_chunks.induct)
    (auto intro: rgP_bind [OF rgP_handle_blocks] split: prod.split)

lemma rgP_stream_once: "rgP (stream_once x c cursor) w"
  unfolding stream_once_def
  by (intro rgP_bind [OF rgP_safe [OF safe_effects(9)]])
    (auto intro: rgP_stream_chunks split: option.split)

end
