(* ===== verification/Workers.thy ===== *)
theory Workers
  imports Sse
begin

text \<open>
  The expiry sweeper (\<open>src/expiry.rs\<close>) and the retention worker (\<open>src/retention.rs\<close>): one pass of each,
  with the batching loop \<open>drain\<close> that repeats a bounded delete until it comes back short.
\<close>

section \<open>Expiry\<close>

definition EXPIRED_EVENT :: string where
  "EXPIRED_EVENT = ''payment.expired''"

definition sweep_once :: "ext \<Rightarrow> config \<Rightarrow> nat result io" where
  "sweep_once x c =
     and_then (expire_overdue (c_expiry_batch_size c)) (\<lambda>expired.
     seqP (forP (\<lambda>p. dispatch x c p EXPIRED_EVENT None) expired) (ok (length expired)))"

lemma safeP_sweep_once [proc_safe]: "safeP (sweep_once x c)"
  unfolding sweep_once_def expire_overdue_def
  by (intro proc_safe safe_expire safeP_forP)

section \<open>Retention\<close>

definition MAX_PER_CYCLE :: nat where
  "MAX_PER_CYCLE = 50000"

text \<open>Every batch that does not stop the loop adds at least \<open>PRUNE_BATCH\<close> to the total.\<close>

function drain :: "nat \<Rightarrow> nat result io \<Rightarrow> nat \<Rightarrow> nat result io" where
  "drain cap batch total_removed =
     and_then batch (\<lambda>n.
       if n < PRUNE_BATCH \<or> cap \<le> total_removed + n then ok (total_removed + n)
       else drain cap batch (total_removed + n))"
  by pat_completeness auto
termination
  by (relation "measure (\<lambda>(cap, batch, t). cap - t)") (auto simp: PRUNE_BATCH_def)

declare drain.simps [simp del]

definition prune_once :: "config \<Rightarrow> (nat \<times> nat) result io" where
  "prune_once c =
     and_then
       (if 0 < c_webhook_delivery_retention_days c
        then and_then (drain MAX_PER_CYCLE
                 (prune_webhook_deliveries (c_webhook_delivery_retention_days c)) 0) (\<lambda>removed.
             and_then (drain MAX_PER_CYCLE
                 (compact_stale_failed_deliveries (c_webhook_delivery_retention_days c)) 0) (\<lambda>_.
             ok removed))
        else ok 0) (\<lambda>deliveries.
     and_then
       (if 0 < c_idempotency_retention_days c
        then drain MAX_PER_CYCLE (prune_idempotency_keys (c_idempotency_retention_days c)) 0
        else ok 0) (\<lambda>keys.
     ok (deliveries, keys)))"

lemma obeys_drain [proc_safe]: "obeys R batch \<Longrightarrow> obeys R (drain cap batch t)"
proof (induction cap batch t rule: drain.induct)
  case (1 cap batch t)
  then show ?case by (subst drain.simps) (intro proc_safe; simp)
qed

lemma safeP_prune_once [proc_safe]: "safeP (prune_once c)"
  unfolding prune_once_def prune_webhook_deliveries_def compact_stale_failed_deliveries_def
    prune_idempotency_keys_def
  by (intro proc_safe safe_prune_deliveries safe_compact_deliveries safe_prune_idempotency)

text \<open>
  When a drain returns less than its cap, its last batch was short and ran in the final state: any
  condition that a short batch establishes holds at the end.
\<close>

lemma drain_short:
  assumes "\<forall>w n w'. run batch w = (Inr n, w') \<and> n < PRUNE_BATCH \<longrightarrow> P w'"
    and "run (drain cap batch t) w = (Inr k, w')" "k < cap"
  shows "P w'"
  using assms
proof (induction cap batch t arbitrary: w rule: drain.induct)
  case (1 cap batch t)
  obtain r w1 where r: "run batch w = (r, w1)" by fastforce
  from "1.prems"(2) r obtain n where n: "r = Inr n"
    by (subst (asm) drain.simps) (auto split: sum.splits)
  show ?case
  proof (cases "n < PRUNE_BATCH")
    case True
    then have "w1 = w'" using "1.prems"(2) r n by (subst (asm) drain.simps) simp
    with True "1.prems"(1) r n show ?thesis by blast
  next
    case False
    with "1.prems"(2,3) r n have c: "\<not> (n < PRUNE_BATCH \<or> cap \<le> t + n)"
      "run (drain cap batch (t + n)) w1 = (Inr k, w')"
      by (subst (asm) drain.simps, auto split: if_splits)+
    from "1.IH" [OF c(1) "1.prems"(1) c(2) "1.prems"(3)] show ?thesis by blast
  qed
qed

lemma on_first_complete:
  "count_where P rows \<le> n \<Longrightarrow> r \<in> set (on_first n P (\<lambda>_. None) rows) \<Longrightarrow> \<not> P r"
proof (induction rows arbitrary: n)
  case (Cons q rows)
  show ?case
  proof (cases n)
    case 0
    then show ?thesis using Cons.prems by (auto simp: count_where_def filter_empty_conv split: if_splits)
  next
    case (Suc m)
    show ?thesis
    proof (cases "P q")
      case True
      then have "count_where P rows \<le> m" using Cons.prems(1) Suc by (simp add: count_where_def)
      with Cons.IH [of m] Cons.prems(2) True Suc show ?thesis by simp
    next
      case False
      then have "count_where P rows \<le> n" using Cons.prems(1) by (simp add: count_where_def)
      with Cons.IH [of n] Cons.prems(2) False Suc show ?thesis by auto
    qed
  qed
qed simp

text \<open>A retention pass that does not hit its cap leaves no delivery it could have removed.\<close>

lemma prune_deliveries_short:
  assumes "run (prune_webhook_deliveries days) w = (Inr n, w')" "n < PRUNE_BATCH"
  shows "\<forall>r\<in>set (webhook_deliveries (w_db w')). \<not> prunable days (now_secs w') r"
proof -
  obtain dt fault where e: "e_stmt (w_env w) (w_tick w) = (dt, fault)" by fastforce
  let ?now = "now_secs (advance dt w)"
  have f: "\<not> fault" "n = min PRUNE_BATCH (count_where (prunable days ?now) (webhook_deliveries (w_db w)))"
    "w_db w' = (w_db w)\<lparr>webhook_deliveries :=
       on_first PRUNE_BATCH (prunable days ?now) (\<lambda>_. None) (webhook_deliveries (w_db w))\<rparr>"
    "now_secs w' = ?now"
    using assms(1) e
    by (auto simp: prune_webhook_deliveries_def run_stmt Let_def prune_delivery_rows_def now_secs_def
        split: if_splits)
  with assms(2) have "count_where (prunable days ?now) (webhook_deliveries (w_db w)) \<le> PRUNE_BATCH"
    by linarith
  then show ?thesis using f(3,4) on_first_complete by fastforce
qed

section \<open>What retention never removes\<close>

text \<open>
  Rows that are still owned by the redrive worker, and failures nobody has acknowledged, survive
  retention; of the latter only the payload may be dropped.
\<close>

definition protected :: "webhook_delivery \<Rightarrow> bool" where
  "protected r \<longleftrightarrow> d_status r = ''pending'' \<or> d_status r = ''failed'' \<and> d_acknowledged_at r = None"

definition kept_as :: "webhook_delivery \<Rightarrow> webhook_delivery \<Rightarrow> bool" where
  "kept_as r r' \<longleftrightarrow> r' = r \<or> d_status r = ''failed'' \<and> r' = r\<lparr>d_payload := []\<rparr>"

definition retaining :: "world \<Rightarrow> world \<Rightarrow> bool" where
  "retaining w w' \<longleftrightarrow>
     (\<forall>r\<in>set (webhook_deliveries (w_db w)). protected r \<longrightarrow>
        (\<exists>r'\<in>set (webhook_deliveries (w_db w')). kept_as r r'))"

lemma kept_as_protected: "kept_as r r' \<Longrightarrow> protected r \<Longrightarrow> protected r'"
  by (auto simp: kept_as_def protected_def)

lemma kept_as_trans: "kept_as r s \<Longrightarrow> kept_as s t \<Longrightarrow> kept_as r t"
  by (auto simp: kept_as_def)

interpretation retention: step_guarantee retaining
proof
  show "retaining w w" for w by (auto simp: retaining_def kept_as_def)
  show "retaining u w" if "retaining u v" "retaining v w" for u v w
    using that unfolding retaining_def by (meson kept_as_protected kept_as_trans)
qed

lemma on_first_kept:
  assumes "\<forall>r\<in>set rows. P r \<and> protected r \<longrightarrow> (\<exists>r'. g r = Some r' \<and> kept_as r r')"
    and "r \<in> set rows" "protected r"
  shows "\<exists>r'\<in>set (on_first n P g rows). kept_as r r'"
  using assms
proof (induction rows arbitrary: n)
  case (Cons q rows)
  have self: "kept_as s s" for s by (simp add: kept_as_def)
  show ?case
  proof (cases n)
    case 0
    then show ?thesis using Cons.prems(2) self by auto
  next
    case (Suc m)
    have IH: "r \<in> set rows \<Longrightarrow> \<exists>r'\<in>set (on_first k P g rows). kept_as r r'" for k
      using Cons.IH Cons.prems(1,3) by simp
    show ?thesis
    proof (cases "r = q")
      case True
      then show ?thesis using Cons.prems(1,3) Suc self by (cases "P q") auto
    next
      case False
      then have "r \<in> set rows" using Cons.prems(2) by simp
      then show ?thesis using IH [of m] IH [of n] Suc by (cases "P q"; cases "g q") auto
    qed
  qed
qed simp

lemma retaining_stmt:
  assumes "\<And>now d. \<forall>r\<in>set (webhook_deliveries d). protected r \<longrightarrow>
      (\<exists>r'\<in>set (webhook_deliveries (snd (f now d))). kept_as r r')"
  shows "obeys retaining (stmt f)"
  unfolding stmt_rnd_def
proof (rule obeys_effect)
  fix w :: world
  obtain dt fault where e: "e_stmt (w_env w) (w_tick w) = (dt, fault)" by fastforce
  obtain r d where fd: "f (now_secs (advance dt w)) (w_db w) = (r, d)" by fastforce
  with assms [of "w_db w" "now_secs (advance dt w)"] e
  show "retaining w (snd (let (dt, fault) = e_stmt (w_env w) (w_tick w); w' = advance dt w in
      if fault then (Inl Db_Fault, w')
      else (case f (now_secs w') (w_db w) of (r, d) \<Rightarrow> (r, w'\<lparr>w_db := d\<rparr>))))"
    by (auto simp: retaining_def Let_def kept_as_def)
qed

lemma retaining_prune_once: "obeys retaining (prune_once c)"
proof -
  have "obeys retaining (prune_webhook_deliveries days)" for days
    unfolding prune_webhook_deliveries_def
    by (intro retaining_stmt ballI impI)
      (auto simp: prune_delivery_rows_def prunable_def protected_def intro!: on_first_kept)
  moreover have "\<exists>r'\<in>set (on_first n (compactable days now) (\<lambda>r. Some (r\<lparr>d_payload := []\<rparr>)) rows).
      kept_as r r'" if "r \<in> set rows" "protected r" for n days now rows r
    using that by (intro on_first_kept) (auto simp: compactable_def kept_as_def)
  then have "obeys retaining (compact_stale_failed_deliveries days)" for days
    unfolding compact_stale_failed_deliveries_def
    by (intro retaining_stmt ballI impI) (simp add: compact_delivery_rows_def)
  moreover have "obeys retaining (prune_idempotency_keys days)" for days
    unfolding prune_idempotency_keys_def
    by (intro retaining_stmt ballI impI) (auto simp: prune_idempotency_rows_def kept_as_def Let_def)
  ultimately show ?thesis unfolding prune_once_def by (intro proc_safe)
qed

end
