(* ===== verification/Api_Payments.thy ===== *)
theory Api_Payments
  imports Workers
begin

text \<open>
  The payment endpoints (\<open>src/api/payments.rs\<close>): request decoding, creation with idempotency keys, the
  public and the owner's view of a payment, the listings with their cursors, and webhook redelivery.
  A handler returns \<open>Inr (status, body)\<close> or \<open>Inl (Api_Error status code)\<close>; the human-readable message that
  accompanies an error code is not modelled.
\<close>

section \<open>Errors and bodies\<close>

datatype api_error = Api_Error (ae_status: nat) (ae_code: string)

type_synonym 'a api = "(world, api_error + 'a) proc"
type_synonym response = "nat \<times> json"

definition bad_request :: "string \<Rightarrow> api_error" where
  "bad_request code = Api_Error 400 code"

definition unsupported_media_type :: "string \<Rightarrow> api_error" where
  "unsupported_media_type code = Api_Error 415 code"

definition not_found :: "string \<Rightarrow> api_error" where
  "not_found code = Api_Error 404 code"

definition app_error :: "err \<Rightarrow> api_error" where
  "app_error e = Api_Error 500 ''internal_error''"

text \<open>\<open>?\<close> on a database result inside a handler: \<open>From<anyhow::Error> for AppError\<close>.\<close>

definition lift_db :: "'a result io \<Rightarrow> 'a api" where
  "lift_db p = bindP p (\<lambda>r. Ret (case r of Inl e \<Rightarrow> Inl (app_error e) | Inr v \<Rightarrow> Inr v))"

record create_request =
  cr_amount :: string
  cr_asset :: string
  cr_webhook_url :: "string option"

text \<open>What reaches the JSON extractor: the content type and the body bytes.\<close>

record http_body =
  hb_is_json :: bool
  hb_bytes :: string

text \<open>
  The derived deserializer of \<open>CreatePaymentRequest\<close> with \<open>deny_unknown_fields\<close>: entries are read in order
  and the first bad one decides the error; a sequence is accepted positionally.
\<close>

record partial_request =
  pr_amount :: "string option"
  pr_asset :: "string option"
  pr_webhook_url :: "string option option"

fun read_fields ::
  "(string \<times> json) list \<Rightarrow> partial_request \<Rightarrow> string + partial_request" where
  "read_fields [] acc = Inr acc"
| "read_fields ((k, v) # kvs) acc =
     (if k = ''amount'' then
        (case (pr_amount acc, v) of
           (None, JStr s) \<Rightarrow> read_fields kvs (acc\<lparr>pr_amount := Some s\<rparr>)
         | _ \<Rightarrow> Inl ''invalid_request'')
      else if k = ''asset'' then
        (case (pr_asset acc, v) of
           (None, JStr s) \<Rightarrow> read_fields kvs (acc\<lparr>pr_asset := Some s\<rparr>)
         | _ \<Rightarrow> Inl ''invalid_request'')
      else if k = ''webhook_url'' then
        (case (pr_webhook_url acc, v) of
           (None, JStr s) \<Rightarrow> read_fields kvs (acc\<lparr>pr_webhook_url := Some (Some s)\<rparr>)
         | (None, JNull) \<Rightarrow> read_fields kvs (acc\<lparr>pr_webhook_url := Some None\<rparr>)
         | _ \<Rightarrow> Inl ''invalid_request'')
      else Inl ''unknown_field'')"

definition default_asset :: string where
  "default_asset = ''XLM''"

fun json_opt_string :: "json \<Rightarrow> string option option" where
  "json_opt_string (JStr s) = Some (Some s)"
| "json_opt_string JNull = Some None"
| "json_opt_string _ = None"

text \<open>
  The code of an error about a value of the wrong type. Its message quotes a string value, and a message
  with the words \<open>unknown field\<close> is taken for an unknown field.
\<close>

definition type_error :: "json \<Rightarrow> string" where
  "type_error j =
     (case j of JStr s \<Rightarrow> if contains_str ''unknown field'' s then ''unknown_field'' else ''invalid_request''
      | _ \<Rightarrow> ''invalid_request'')"

fun decode_create :: "json \<Rightarrow> string + create_request" where
  "decode_create (JObj kvs) =
     (case read_fields kvs \<lparr>pr_amount = None, pr_asset = None, pr_webhook_url = None\<rparr> of
        Inl code \<Rightarrow> Inl code
      | Inr r \<Rightarrow>
          (case pr_amount r of
             None \<Rightarrow> Inl ''invalid_request''
           | Some amount \<Rightarrow>
               Inr \<lparr>cr_amount = amount,
                    cr_asset = (case pr_asset r of Some a \<Rightarrow> a | None \<Rightarrow> default_asset),
                    cr_webhook_url = (case pr_webhook_url r of Some u \<Rightarrow> u | None \<Rightarrow> None)\<rparr>))"
| "decode_create (JArr [JStr amount, JStr asset, u]) =
     (case json_opt_string u of
        None \<Rightarrow> Inl ''invalid_request''
      | Some w \<Rightarrow> Inr \<lparr>cr_amount = amount, cr_asset = asset, cr_webhook_url = w\<rparr>)"
| "decode_create j = Inl (type_error j)"

text \<open>A body beyond the limit fails to be read; a declared length beyond it never reaches a handler.\<close>

definition MAX_BODY_BYTES :: nat where
  "MAX_BODY_BYTES = 256 * 1024"

definition json_body :: "ext \<Rightarrow> (json \<Rightarrow> string + 'a) \<Rightarrow> http_body \<Rightarrow> api_error + 'a" where
  "json_body x decode b =
     (if \<not> hb_is_json b then Inl (unsupported_media_type ''unsupported_media_type'')
      else if MAX_BODY_BYTES < length (hb_bytes b) then Inl (bad_request ''invalid_request'')
      else (case x_json_parse x (hb_bytes b) of
              None \<Rightarrow> Inl (bad_request ''invalid_request'')
            | Some j \<Rightarrow>
                (case decode j of Inl code \<Rightarrow> Inl (bad_request code) | Inr v \<Rightarrow> Inr v)))"

definition optional_json_body ::
  "ext \<Rightarrow> (json \<Rightarrow> string + 'a) \<Rightarrow> http_body \<Rightarrow> api_error + 'a option" where
  "optional_json_body x decode b =
     (if MAX_BODY_BYTES < length (hb_bytes b) then Inl (bad_request ''invalid_request'')
      else if hb_bytes b = [] then Inr None else map_sum id Some (json_body x decode b))"

definition to_json :: "payment \<Rightarrow> json" where
  "to_json p =
     JObj [(''id'', JStr (p_id p)),
           (''merchant_id'', JStr (p_merchant_id p)),
           (''destination_address'', JStr (p_destination_address p)),
           (''memo'', JStr (p_memo p)),
           (''amount'', JStr (canonical_or_self (p_amount p))),
           (''asset'', JStr (p_asset p)),
           (''asset_issuer'', json_opt (p_asset_issuer p)),
           (''status'', JStr (p_status p)),
           (''tx_hash'', json_opt (p_tx_hash p)),
           (''paid_amount'', json_opt (Option.bind (p_paid_amount p) canonical)),
           (''created_at'', JStr (p_created_at p)),
           (''updated_at'', JStr (p_updated_at p)),
           (''expires_at'', JStr (p_expires_at p))]"

definition public_view :: "payment \<Rightarrow> json" where
  "public_view p =
     JObj [(''id'', JStr (p_id p)), (''status'', JStr (p_status p)),
           (''expires_at'', JStr (p_expires_at p))]"

section \<open>Creation\<close>

definition select_asset :: "config \<Rightarrow> string \<Rightarrow> api_error + accepted_asset" where
  "select_asset c asset =
     (case filter (\<lambda>a. a_code a = asset) (c_accepted_assets c) of
        [] \<Rightarrow> Inl (bad_request ''unsupported_asset'')
      | [one] \<Rightarrow> Inr one
      | _ \<Rightarrow> Inl (bad_request ''ambiguous_asset''))"

definition check_webhook_url :: "ext \<Rightarrow> config \<Rightarrow> string option \<Rightarrow> unit api" where
  "check_webhook_url x c webhook_url =
     (case webhook_url of
        None \<Rightarrow> ok ()
      | Some url \<Rightarrow>
          if 2048 < length url then err (bad_request ''invalid_webhook_url'')
          else (case x_url_parse x url of
            None \<Rightarrow> err (bad_request ''invalid_webhook_url'')
          | Some u \<Rightarrow>
              if u_scheme u \<notin> set (c_allowed_webhook_schemes c)
              then err (bad_request ''invalid_webhook_url'')
              else if c_network c = ''public'' \<and> u_scheme u \<noteq> ''https''
              then err (bad_request ''invalid_webhook_url'')
              else bindP (validate x url (c_webhook_allow_private_targets c)) (\<lambda>r.
                case r of
                  Inl e \<Rightarrow> err (bad_request ''invalid_webhook_url'')
                | Inr t \<Rightarrow> ok ())))"

text \<open>\<open>HeaderValue::to_str\<close>: only visible ASCII, blanks and tabs; any other value counts as absent.\<close>

definition header_text :: "string \<Rightarrow> string option" where
  "header_text v =
     (if list_all (\<lambda>b. b = CHR 0x09 \<or> 32 \<le> byte b \<and> byte b < 127) v then Some v else None)"

definition idempotency_header :: "string option \<Rightarrow> string option" where
  "idempotency_header header =
     (case Option.bind header header_text of
        None \<Rightarrow> None
      | Some v \<Rightarrow> if trim v = [] then None else Some (trim v))"

definition delete_idempotency_rows :: "string \<Rightarrow> string \<Rightarrow> int \<Rightarrow> db \<Rightarrow> unit result \<times> db" where
  "delete_idempotency_rows merchant key now d =
     (Inr (), d\<lparr>idempotency_keys :=
        filter (\<lambda>i. \<not> (i_merchant_id i = merchant \<and> i_key i = key)) (idempotency_keys d)\<rparr>)"

text \<open>The payment an earlier request with this key made; a mapping without a payment is deleted.\<close>

definition replay_idempotent :: "string \<Rightarrow> string option \<Rightarrow> payment option api" where
  "replay_idempotent merchant idem =
     (case idem of
        None \<Rightarrow> ok None
      | Some key \<Rightarrow>
          and_then (lift_db (find_payment_id_by_idempotency_key merchant key)) (\<lambda>existing.
            case existing of
              None \<Rightarrow> ok None
            | Some existing_id \<Rightarrow>
                and_then (lift_db (get_payment existing_id)) (\<lambda>found.
                  case found of
                    Some p \<Rightarrow> ok (Some p)
                  | None \<Rightarrow>
                      and_then (lift_db (stmt (delete_idempotency_rows merchant key)))
                        (\<lambda>_. ok None))))"

primrec await_winner :: "nat \<Rightarrow> string \<Rightarrow> payment api" where
  "await_winner 0 canonical_id = err (Api_Error 500 ''idempotency_conflict'')"
| "await_winner (Suc n) canonical_id =
     and_then (lift_db (get_payment canonical_id)) (\<lambda>found.
       case found of
         Some p \<Rightarrow> ok p
       | None \<Rightarrow> seqP (sleep (from_millis 10)) (await_winner n canonical_id))"

text \<open>\<open>Some p\<close>: another request holds the key and \<open>p\<close> is its payment.\<close>

definition reserve_key :: "string \<Rightarrow> string option \<Rightarrow> string \<Rightarrow> payment option api" where
  "reserve_key merchant idem i =
     (case idem of
        None \<Rightarrow> ok None
      | Some key \<Rightarrow>
          and_then (lift_db (save_idempotency_key merchant key i)) (\<lambda>canonical_id.
            if canonical_id \<noteq> i
            then and_then (await_winner 50 canonical_id) (\<lambda>p. ok (Some p))
            else ok None))"

primrec generate_memo :: "nat \<Rightarrow> ext \<Rightarrow> string api" where
  "generate_memo 0 x = err (Api_Error 500 ''internal_error'')"
| "generate_memo (Suc n) x =
     bindP new_uuid (\<lambda>u.
     let memo = x_to_uppercase x (take 8 (filter (\<lambda>ch. ch \<noteq> CHR ''-'') u)) in
     and_then (lift_db (memo_exists memo)) (\<lambda>used. if \<not> used then ok memo else generate_memo n x))"

definition generate_unique_memo :: "ext \<Rightarrow> string api" where
  "generate_unique_memo x = generate_memo 10 x"

definition mint_payment ::
  "ext \<Rightarrow> config \<Rightarrow> string \<Rightarrow> create_request \<Rightarrow> string \<Rightarrow> string option \<Rightarrow> string \<Rightarrow> response api" where
  "mint_payment x c merchant body asset issuer i =
     and_then (generate_unique_memo x) (\<lambda>memo.
     and_then (lift_db (create_payment
       \<lparr>n_id = i, n_merchant_id = merchant, n_destination_address = c_gateway_public c,
        n_memo = memo, n_amount = cr_amount body, n_asset = asset, n_asset_issuer = issuer,
        n_webhook_url = cr_webhook_url body, n_ttl_secs = wrap_i64 (int (c_payment_ttl_secs c))\<rparr>))
       (\<lambda>p. ok (201, to_json p)))"

definition create_reserved ::
  "ext \<Rightarrow> config \<Rightarrow> string \<Rightarrow> string option \<Rightarrow> create_request \<Rightarrow> string \<Rightarrow> string option \<Rightarrow>
   response api" where
  "create_reserved x c merchant idem body asset issuer =
     and_then (replay_idempotent merchant idem) (\<lambda>replay.
       case replay of
         Some p \<Rightarrow> ok (200, to_json p)
       | None \<Rightarrow>
           bindP new_uuid (\<lambda>i.
           and_then (reserve_key merchant idem i) (\<lambda>winner.
             case winner of
               Some p \<Rightarrow> ok (200, to_json p)
             | None \<Rightarrow> mint_payment x c merchant body asset issuer i)))"

definition create ::
  "ext \<Rightarrow> config \<Rightarrow> string \<Rightarrow> string option \<Rightarrow> create_request \<Rightarrow> response api" where
  "create x c merchant idem_header body =
     (let asset = x_to_uppercase x (cr_asset body) in
      case select_asset c asset of
        Inl e \<Rightarrow> err e
      | Inr accepted \<Rightarrow>
          if \<not> is_valid_amount (cr_amount body) then err (bad_request ''invalid_amount'')
          else
            and_then (check_webhook_url x c (cr_webhook_url body)) (\<lambda>_.
              create_reserved x c merchant (idempotency_header idem_header) body asset
                (a_issuer accepted)))"

section \<open>Reading one payment\<close>

definition bearer_token :: "string option \<Rightarrow> string option" where
  "bearer_token authorization =
     Option.bind (Option.bind authorization header_text) (\<lambda>v.
     Option.bind (strip_prefix ''Bearer '' v) (\<lambda>k.
       if trim k = [] then None else Some (trim k)))"

definition get_by_id :: "ext \<Rightarrow> string option \<Rightarrow> string \<Rightarrow> response api" where
  "get_by_id x authorization i =
     and_then (lift_db (get_payment i)) (\<lambda>found.
       case found of
         None \<Rightarrow> err (not_found ''payment_not_found'')
       | Some p \<Rightarrow>
           (case bearer_token authorization of
              None \<Rightarrow> ok (200, public_view p)
            | Some key \<Rightarrow>
                and_then (lift_db (find_merchant_by_key x key)) (\<lambda>m.
                  case m of
                    Some merchant \<Rightarrow>
                      if merchant = p_merchant_id p then ok (200, to_json p)
                      else err (not_found ''payment_not_found'')
                  | None \<Rightarrow> err (Api_Error 401 ''unauthorized''))))"

section \<open>Cursors\<close>

text \<open>\<open>String::from_utf8\<close> accepts exactly the well-formed sequences.\<close>

definition cont :: "char \<Rightarrow> bool" where
  "cont c \<longleftrightarrow> 0x80 \<le> byte c \<and> byte c \<le> 0xBF"

fun utf8_valid :: "string \<Rightarrow> bool" where
  "utf8_valid [] = True"
| "utf8_valid (a # s) =
     (if byte a < 0x80 then utf8_valid s
      else if 0xC2 \<le> byte a \<and> byte a \<le> 0xDF then
        (case s of b # s' \<Rightarrow> cont b \<and> utf8_valid s' | _ \<Rightarrow> False)
      else if 0xE0 \<le> byte a \<and> byte a \<le> 0xEF then
        (case s of
           b # c # s' \<Rightarrow>
             cont b \<and> cont c \<and> (byte a = 0xE0 \<longrightarrow> 0xA0 \<le> byte b) \<and>
             (byte a = 0xED \<longrightarrow> byte b \<le> 0x9F) \<and> utf8_valid s'
         | _ \<Rightarrow> False)
      else if 0xF0 \<le> byte a \<and> byte a \<le> 0xF4 then
        (case s of
           b # c # d # s' \<Rightarrow>
             cont b \<and> cont c \<and> cont d \<and> (byte a = 0xF0 \<longrightarrow> 0x90 \<le> byte b) \<and>
             (byte a = 0xF4 \<longrightarrow> byte b \<le> 0x8F) \<and> utf8_valid s'
         | _ \<Rightarrow> False)
      else False)"

abbreviation TAB :: char where "TAB \<equiv> CHR 0x09"

definition encode_cursor :: "ext \<Rightarrow> string \<Rightarrow> string \<Rightarrow> string" where
  "encode_cursor x ts i = x_hex_encode x (ts @ TAB # i)"

definition decode_cursor :: "ext \<Rightarrow> string \<Rightarrow> (string \<times> string) option" where
  "decode_cursor x raw =
     (case x_hex_decode x raw of
        None \<Rightarrow> None
      | Some bytes \<Rightarrow> if utf8_valid bytes then split_once TAB bytes else None)"

section \<open>Listings\<close>

record list_query =
  lq_status :: "string option"
  lq_limit :: "int option"
  lq_offset :: "int option"
  lq_cursor :: "string option"
  lq_include_total :: "bool option"

definition DEFAULT_LIMIT :: int where "DEFAULT_LIMIT = 20"
definition MAX_LIMIT :: int where "MAX_LIMIT = 100"

definition VALID_STATUSES :: "string list" where
  "VALID_STATUSES = [''pending'', ''completed'', ''underpaid'', ''expired'']"

definition VALID_DELIVERY_STATUSES :: "string list" where
  "VALID_DELIVERY_STATUSES = [''pending'', ''delivered'', ''failed'']"

definition clamp_limit :: "int option \<Rightarrow> int" where
  "clamp_limit limit = max 1 (min (case limit of Some l \<Rightarrow> l | None \<Rightarrow> DEFAULT_LIMIT) MAX_LIMIT)"

text \<open>A full page mints a cursor from its last row.\<close>

definition next_cursor :: "ext \<Rightarrow> ('a \<Rightarrow> string \<times> string) \<Rightarrow> int \<Rightarrow> 'a list \<Rightarrow> string option" where
  "next_cursor x key limit rows =
     (if length rows = nat limit
      then (if rows = [] then None
            else Some (encode_cursor x (fst (key (last rows))) (snd (key (last rows)))))
      else None)"

definition list_handler :: "ext \<Rightarrow> string \<Rightarrow> list_query \<Rightarrow> response api" where
  "list_handler x merchant q =
     (if (\<exists>s. lq_status q = Some s \<and> s \<notin> set VALID_STATUSES) then err (bad_request ''invalid_status'')
      else
        let limit = clamp_limit (lq_limit q) in
        case lq_cursor q of
          Some raw \<Rightarrow>
            (case decode_cursor x raw of
               None \<Rightarrow> err (bad_request ''invalid_cursor'')
             | Some cur \<Rightarrow>
                 and_then (lift_db (list_payments_keyset merchant (lq_status q) limit (Some cur)))
                 (\<lambda>ps. ok (200, JObj
                   [(''payments'', JArr (map to_json ps)), (''limit'', JInt limit),
                    (''next_cursor'', json_opt (next_cursor x payment_order limit ps))])))
        | None \<Rightarrow>
            let offset = max (case lq_offset q of Some o' \<Rightarrow> o' | None \<Rightarrow> 0) 0 in
            and_then (lift_db (list_payments merchant (lq_status q) limit offset)) (\<lambda>ps.
            let body =
              [(''payments'', JArr (map to_json ps)), (''limit'', JInt limit),
               (''offset'', JInt offset),
               (''next_cursor'', json_opt (next_cursor x payment_order limit ps))] in
            if lq_include_total q = Some True
            then and_then (lift_db (count_payments merchant (lq_status q)))
                   (\<lambda>n. ok (200, JObj (body @ [(''total'', JInt n)])))
            else ok (200, JObj body)))"

text \<open>The guard shared by the per-payment webhook routes: the payment exists and is the caller's.\<close>

definition owned_payment :: "string \<Rightarrow> string \<Rightarrow> payment api" where
  "owned_payment merchant payment_id =
     and_then (lift_db (get_payment payment_id)) (\<lambda>found.
       case found of
         Some p \<Rightarrow> if p_merchant_id p = merchant then ok p else err (not_found ''payment_not_found'')
       | None \<Rightarrow> err (not_found ''payment_not_found''))"

definition cursor_arg :: "ext \<Rightarrow> string option \<Rightarrow> api_error + (string \<times> string) option" where
  "cursor_arg x raw =
     (case raw of
        None \<Rightarrow> Inr None
      | Some r \<Rightarrow>
          (case decode_cursor x r of
             None \<Rightarrow> Inl (bad_request ''invalid_cursor'')
           | Some cur \<Rightarrow> Inr (Some cur)))"

definition list_webhooks :: "ext \<Rightarrow> string \<Rightarrow> string \<Rightarrow> list_query \<Rightarrow> response api" where
  "list_webhooks x merchant payment_id q =
     (if (\<exists>s. lq_status q = Some s \<and> s \<notin> set VALID_DELIVERY_STATUSES)
      then err (bad_request ''invalid_status'')
      else
        and_then (owned_payment merchant payment_id) (\<lambda>p.
        let limit = clamp_limit (lq_limit q) in
        case cursor_arg x (lq_cursor q) of
          Inl e \<Rightarrow> err e
        | Inr cur \<Rightarrow>
            and_then (lift_db (list_webhook_deliveries_keyset payment_id (lq_status q) limit cur)) (\<lambda>ds.
            ok (200, JObj
              [(''payment_id'', JStr (p_id p)),
               (''deliveries'', JArr (map (\<lambda>d. JObj
                  [(''id'', JStr (d_id d)), (''url'', JStr (d_url d)),
                   (''event'', JStr (delivery_event x d)), (''status'', JStr (d_status d)),
                   (''attempts'', JInt (d_attempts d)),
                   (''last_attempt'', json_opt (d_last_attempt d)),
                   (''created_at'', JStr (d_created_at d))]) ds)),
               (''limit'', JInt limit),
               (''next_cursor'', json_opt (next_cursor x delivery_order limit ds))]))))"

definition delivery_to_json :: "ext \<Rightarrow> webhook_delivery \<Rightarrow> json" where
  "delivery_to_json x d =
     JObj [(''id'', JStr (d_id d)), (''payment_id'', JStr (d_payment_id d)), (''url'', JStr (d_url d)),
           (''event'', JStr (delivery_event x d)), (''status'', JStr (d_status d)),
           (''attempts'', JInt (d_attempts d)), (''last_attempt'', json_opt (d_last_attempt d)),
           (''acknowledged_at'', json_opt (d_acknowledged_at d)),
           (''created_at'', JStr (d_created_at d))]"

definition list_merchant_webhooks :: "ext \<Rightarrow> string \<Rightarrow> list_query \<Rightarrow> response api" where
  "list_merchant_webhooks x merchant q =
     (let status = (case lq_status q of Some s \<Rightarrow> s | None \<Rightarrow> ''failed'') in
      if status \<notin> set VALID_DELIVERY_STATUSES then err (bad_request ''invalid_status'')
      else
        let limit = clamp_limit (lq_limit q) in
        case cursor_arg x (lq_cursor q) of
          Inl e \<Rightarrow> err e
        | Inr cur \<Rightarrow>
            and_then (lift_db (list_deliveries_for_merchant merchant status limit cur)) (\<lambda>ds.
            ok (200, JObj
              [(''deliveries'', JArr (map (delivery_to_json x) ds)), (''status'', JStr status),
               (''limit'', JInt limit),
               (''next_cursor'', json_opt (next_cursor x delivery_order limit ds))])))"

section \<open>Redelivery\<close>

definition MAX_BULK_DELIVERY_IDS :: nat where
  "MAX_BULK_DELIVERY_IDS = 100"

definition redeliver_webhooks_bulk :: "string \<Rightarrow> string list option \<Rightarrow> response api" where
  "redeliver_webhooks_bulk merchant delivery_ids =
     (let ids = (case delivery_ids of Some l \<Rightarrow> l | None \<Rightarrow> []) in
      if MAX_BULK_DELIVERY_IDS < length ids then err (bad_request ''too_many_delivery_ids'')
      else
        and_then (lift_db (requeue_failed_deliveries merchant ids)) (\<lambda>n.
        ok (200, JObj [(''requeued'', JInt (int n)),
          (''detail'', JStr (''requeued deliveries are retried by the background redrive worker, '' @
             ''subject to its concurrency limit and backoff''))])))"

text \<open>Send once, record the outcome, report it.\<close>

definition resend :: "ext \<Rightarrow> config \<Rightarrow> client \<Rightarrow> webhook_delivery \<Rightarrow> nat api" where
  "resend x c cl r =
     bindP current_timestamp (\<lambda>timestamp.
     bindP (http_post (cl_timeout_ns cl) (cl_host cl)
             (post_of x c cl (d_url r) timestamp (delivery_event x r) (d_payload r))) (\<lambda>result.
     if is_success result
     then and_then (lift_db (update_webhook_delivery (d_id r) ''delivered'' (d_attempts r + 1))) (\<lambda>_. ok 200)
     else and_then (lift_db (update_webhook_delivery (d_id r) ''failed'' (d_attempts r + 1)))
            (\<lambda>_. err (Api_Error 502 ''webhook_delivery_failed''))))"

definition redeliver_webhook :: "ext \<Rightarrow> config \<Rightarrow> string \<Rightarrow> string \<Rightarrow> string \<Rightarrow> nat api" where
  "redeliver_webhook x c merchant payment_id delivery_id =
     and_then (owned_payment merchant payment_id) (\<lambda>_.
     and_then (lift_db (get_webhook_delivery delivery_id)) (\<lambda>found.
       case found of
         None \<Rightarrow> err (not_found ''delivery_not_found'')
       | Some r \<Rightarrow>
           if d_payment_id r \<noteq> payment_id then err (not_found ''delivery_not_found'')
           else
             bindP (safe_client x c (d_url r)) (\<lambda>res.
               case res of
                 Inl e \<Rightarrow> err (bad_request ''webhook_target_blocked'')
               | Inr cl \<Rightarrow> resend x c cl r)))"

end
