(* ===== verification/Supervise.thy ===== *)
theory Supervise
  imports Workers
begin

text \<open>
  The supervisor of the background tasks (\<open>src/supervise.rs\<close>) and the loops it supervises
  (\<open>run_poller\<close>, \<open>run_stream_listener\<close>, \<open>run_redrive_worker\<close>, \<open>run_sweeper\<close>, \<open>run_retention_worker\<close>). The
  supervisor is a state machine: its events are what \<open>tokio::select!\<close> and the join handle deliver, its
  transitions the arms of the code. The invariant, by induction over reachable states, ties the task
  health that the probes read to the state the machine is in.
\<close>

section \<open>Exits and worker loops\<close>

datatype task_exit =
    ShutdownRequested
  | DisabledByConfig string
  | Fatal string

text \<open>
  Each worker runs until the shutdown signal; the first argument is the number of full turns it makes
  before the signal arrives, so every run of the endless loop is covered by some number.
\<close>

fun poller_loop :: "nat \<Rightarrow> ext \<Rightarrow> config \<Rightarrow> nat \<Rightarrow> nat \<Rightarrow> task_exit io" where
  "poller_loop 0 x c failures delay = Ret ShutdownRequested"
| "poller_loop (Suc turns) x c failures delay =
     seqP (sleep delay)
     (bindP (poll_cycle x c failures) (\<lambda>(failures', delay'). poller_loop turns x c failures' delay'))"

definition run_poller :: "nat \<Rightarrow> ext \<Rightarrow> config \<Rightarrow> task_exit io" where
  "run_poller turns x c =
     (if \<not> gateway_configured c
      then Ret (DisabledByConfig ''STELLAR_GATEWAY_PUBLIC is unconfigured'')
      else poller_loop turns x c 0 (max (c_poll_interval_secs c) 1 * 1000000000))"

fun stream_loop :: "nat \<Rightarrow> ext \<Rightarrow> config \<Rightarrow> string \<Rightarrow> nat \<Rightarrow> task_exit io" where
  "stream_loop 0 x c cursor backoff = Ret ShutdownRequested"
| "stream_loop (Suc turns) x c cursor backoff =
     bindP (stream_turn x c cursor backoff) (\<lambda>(cursor', backoff'). stream_loop turns x c cursor' backoff')"

definition run_stream_listener :: "nat \<Rightarrow> ext \<Rightarrow> config \<Rightarrow> task_exit io" where
  "run_stream_listener turns x c =
     (if \<not> gateway_configured c
      then Ret (DisabledByConfig ''STELLAR_GATEWAY_PUBLIC is unconfigured'')
      else bindP build_client (\<lambda>built.
        if \<not> built then Ret (Fatal ''failed to build stream HTTP client'')
        else stream_loop turns x c ''now'' STREAM_BACKOFF_BASE))"

fun run_redrive_worker :: "nat \<Rightarrow> ext \<Rightarrow> config \<Rightarrow> task_exit io" where
  "run_redrive_worker 0 x c = seqP (redrive_once x c) (Ret ShutdownRequested)"
| "run_redrive_worker (Suc turns) x c =
     seqP (redrive_once x c)
     (seqP (sleep (max (c_webhook_redrive_interval_secs c) 1 * 1000000000))
       (run_redrive_worker turns x c))"

fun run_sweeper :: "nat \<Rightarrow> ext \<Rightarrow> config \<Rightarrow> task_exit io" where
  "run_sweeper 0 x c = Ret ShutdownRequested"
| "run_sweeper (Suc turns) x c =
     seqP (sleep (max (c_poll_interval_secs c) 1 * 1000000000))
     (seqP (sweep_once x c) (run_sweeper turns x c))"

fun retention_loop :: "nat \<Rightarrow> config \<Rightarrow> task_exit io" where
  "retention_loop 0 c = Ret ShutdownRequested"
| "retention_loop (Suc turns) c =
     seqP (sleep (max (c_retention_interval_secs c) 1 * 1000000000))
     (seqP (prune_once c) (retention_loop turns c))"

definition run_retention_worker :: "nat \<Rightarrow> config \<Rightarrow> task_exit io" where
  "run_retention_worker turns c =
     (if c_webhook_delivery_retention_days c \<le> 0 \<and> c_idempotency_retention_days c \<le> 0
      then Ret (DisabledByConfig
        ''both WEBHOOK_DELIVERY_RETENTION_DAYS and IDEMPOTENCY_RETENTION_DAYS are 0'')
      else retention_loop turns c)"

section \<open>The supervisor\<close>

record backoff =
  bo_initial :: nat
  bo_max :: nat
  bo_stability :: nat

definition default_backoff :: backoff where
  "default_backoff =
     \<lparr>bo_initial = 1000000000, bo_max = 60000000000, bo_stability = 5000000000\<rparr>"

datatype join_result = Exited task_exit | Panicked | Cancelled

text \<open>
  \<open>Deciding\<close> is the top of the outer loop, \<open>Watching stable\<close> the select over the child, \<open>Backing_off\<close> the
  sleep before a restart.
\<close>

datatype phase = Deciding | Watching bool | Backing_off | Returned

record supervisor =
  su_phase :: phase
  su_delay :: nat
  su_health :: task_health

datatype sup_event =
    Loop_Top bool
  | Shutdown_Changed
  | Stability_Elapsed
  | Child_Joined bool join_result
  | Backoff_Elapsed

text \<open>
  The flag of \<open>Loop_Top\<close> and \<open>Child_Joined\<close> is \<open>*shutdown.borrow()\<close> at that point. An event the current
  phase does not wait for is \<open>None\<close>.
\<close>

definition stop_with :: "(task_health \<Rightarrow> task_health) \<Rightarrow> supervisor \<Rightarrow> supervisor" where
  "stop_with f s = s\<lparr>su_phase := Returned, su_health := f (su_health s)\<rparr>"

definition restart_with :: "string \<Rightarrow> (task_health \<Rightarrow> task_health) \<Rightarrow> supervisor \<Rightarrow> supervisor" where
  "restart_with name f s =
     s\<lparr>su_phase := Backing_off, su_health := task_restarted name (f (su_health s))\<rparr>"

fun on_join :: "string \<Rightarrow> join_result \<Rightarrow> supervisor \<Rightarrow> supervisor" where
  "on_join name (Exited ShutdownRequested) s = stop_with (task_stopped name) s"
| "on_join name (Exited (DisabledByConfig reason)) s = stop_with (task_disabled name reason) s"
| "on_join name (Exited (Fatal reason)) s = restart_with name (task_stopped name) s"
| "on_join name Panicked s = restart_with name (task_failed name) s"
| "on_join name Cancelled s = stop_with (task_stopped name) s"

definition supervise_step :: "string \<Rightarrow> backoff \<Rightarrow> sup_event \<Rightarrow> supervisor \<Rightarrow> supervisor option" where
  "supervise_step name bo e s =
     (case (su_phase s, e) of
        (Deciding, Loop_Top shutdown) \<Rightarrow>
          Some (if shutdown then stop_with (task_stopped name) s
                else s\<lparr>su_phase := Watching False, su_health := task_started name (su_health s)\<rparr>)
      | (Watching _, Shutdown_Changed) \<Rightarrow> Some (stop_with (task_stopped name) s)
      | (Watching False, Stability_Elapsed) \<Rightarrow>
          Some (s\<lparr>su_phase := Watching True, su_health := note_stable name (su_health s)\<rparr>)
      | (Watching _, Child_Joined shutdown j) \<Rightarrow>
          Some (if shutdown then stop_with (task_stopped name) s else on_join name j s)
      | (Backing_off, Shutdown_Changed) \<Rightarrow> Some (stop_with (task_stopped name) s)
      | (Backing_off, Backoff_Elapsed) \<Rightarrow>
          Some (s\<lparr>su_phase := Deciding, su_delay := min (min (su_delay s * 2) duration_max) (bo_max bo)\<rparr>)
      | _ \<Rightarrow> None)"

definition supervise_init :: "backoff \<Rightarrow> task_health \<Rightarrow> supervisor" where
  "supervise_init bo h = \<lparr>su_phase = Deciding, su_delay = bo_initial bo, su_health = h\<rparr>"

inductive supervised :: "string \<Rightarrow> backoff \<Rightarrow> task_health \<Rightarrow> sup_event list \<Rightarrow> supervisor \<Rightarrow> bool"
  for name bo h where
  supervised_init: "supervised name bo h [] (supervise_init bo h)"
| supervised_step: "supervised name bo h es s \<Longrightarrow> supervise_step name bo e s = Some s' \<Longrightarrow>
     supervised name bo h (es @ [e]) s'"

inductive_cases supervised_snocE: "supervised name bo h (es @ [e]) s"

section \<open>Invariant of the supervisor\<close>

definition running :: "string \<Rightarrow> task_health \<Rightarrow> bool" where
  "running name h \<longleftrightarrow> map_of (th_running h) name = Some True"

definition sup_inv :: "string \<Rightarrow> backoff \<Rightarrow> supervisor \<Rightarrow> bool" where
  "sup_inv name bo s \<longleftrightarrow>
     (case su_phase s of
        Watching _ \<Rightarrow> running name (su_health s)
      | Backing_off \<Rightarrow> \<not> running name (su_health s)
      | Returned \<Rightarrow> \<not> running name (su_health s)
      | Deciding \<Rightarrow> True) \<and>
     su_delay s \<le> max (bo_initial bo) (bo_max bo)"

lemmas sup_defs = stop_with_def restart_with_def running_def task_defs

lemma join_step:
  assumes "supervise_step name bo (Child_Joined shutdown j) s = Some s'"
  shows "s' = (if shutdown then stop_with (task_stopped name) s else on_join name j s)"
  using assms by (auto simp: supervise_step_def split: phase.splits bool.splits)

lemma sup_inv_stop: "sup_inv name bo s \<Longrightarrow> sup_inv name bo (stop_with (task_stopped name) s)"
  by (simp add: sup_inv_def sup_defs update_conv')

lemma sup_inv_join: "sup_inv name bo s \<Longrightarrow> sup_inv name bo (on_join name j s)"
  by (cases "(name, j, s)" rule: on_join.cases) (auto simp: sup_inv_def sup_defs update_conv')

lemma sup_inv_step:
  assumes "sup_inv name bo s" "supervise_step name bo e s = Some s'"
  shows "sup_inv name bo s'"
proof (cases e)
  case (Child_Joined shutdown j)
  then show ?thesis using join_step [of name bo shutdown j s s'] assms sup_inv_stop sup_inv_join by simp
qed (use assms sup_inv_stop [OF assms(1)] in \<open>auto simp: supervise_step_def sup_inv_def sup_defs
      update_conv' split: phase.splits bool.splits if_splits\<close>)

lemma supervised_inv: "supervised name bo h es s \<Longrightarrow> sup_inv name bo s"
proof (induction rule: supervised.induct)
  case supervised_init
  then show ?case by (simp add: supervise_init_def sup_inv_def)
qed (rule sup_inv_step)

text \<open>Events that make the supervisor restart its child, as the operator counts them.\<close>

fun restarting :: "sup_event \<Rightarrow> bool" where
  "restarting (Child_Joined False (Exited (Fatal _))) = True"
| "restarting (Child_Joined False Panicked) = True"
| "restarting _ = False"

lemma restarts_step:
  assumes "supervise_step name bo e s = Some s'"
  shows "restarts (su_health s') name = restarts (su_health s) name + of_bool (restarting e)"
proof -
  have "restarts (su_health (on_join name j s)) name =
      restarts (su_health s) name + of_bool (restarting (Child_Joined False j))" for j
    by (cases "(name, j, s)" rule: on_join.cases)
      (simp_all add: restarts_def get_or_update sup_defs)
  note join = this
  show ?thesis
  proof (cases e)
    case (Child_Joined shutdown j)
    then show ?thesis
      using join_step [of name bo shutdown j s s'] join [of j] assms
      by (cases shutdown) (simp_all add: restarts_def sup_defs)
  qed (use assms in \<open>auto simp: supervise_step_def restarts_def get_or_update sup_defs
        split: phase.splits bool.splits if_splits\<close>)
qed

lemma restarts_count:
  "supervised name bo h es s \<Longrightarrow>
     restarts (su_health s) name = restarts h name + of_nat (length (filter restarting es))"
proof (induction rule: supervised.induct)
  case supervised_init
  then show ?case by (simp add: supervise_init_def)
next
  case (supervised_step es s e s')
  then show ?case using restarts_step [of name bo e s s'] by simp
qed

text \<open>A task that is disabled stays so: the supervisor has returned.\<close>

lemma returned_stuck: "su_phase s = Returned \<Longrightarrow> supervise_step name bo e s = None"
  by (simp add: supervise_step_def)

end
