(* ===== verification/Api.thy ===== *)
theory Api
  imports Api_Payments Supervise
begin

text \<open>
  The service layer (\<open>src/api/mod.rs\<close>): bearer authentication, the admin secret, merchant and API-key
  administration, rate-limit bucketing and client attribution, the cross-origin policy and the probes.
  The middleware around the routes is in theory Edge. As in the payment endpoints the human-readable
  \<open>error\<close> text beside a code is left out, and so is the \<open>reason\<close> of the readiness probe.
\<close>

section \<open>Authentication\<close>

definition auth_error :: response where
  "auth_error = (401, JObj [(''code'', JStr ''unauthorized'')])"

definition internal_error :: response where
  "internal_error = (500, JObj [(''code'', JStr ''internal_error'')])"

definition error_response :: "api_error \<Rightarrow> response" where
  "error_response e = (ae_status e, JObj [(''code'', JStr (ae_code e))])"

definition auth_middleware :: "ext \<Rightarrow> string option \<Rightarrow> (string \<Rightarrow> response io) \<Rightarrow> response io" where
  "auth_middleware x authorization next =
     (case bearer_token authorization of
        None \<Rightarrow> seqP (on_auth_metrics record_failure_missing_key) (Ret auth_error)
      | Some key \<Rightarrow>
          bindP (find_merchant_by_key x key) (\<lambda>r.
            case r of
              Inl e \<Rightarrow> seqP (on_auth_metrics record_failure_internal_error) (Ret internal_error)
            | Inr found \<Rightarrow>
                (case found of
                   Some merchant \<Rightarrow> seqP (on_auth_metrics auth_record_success) (next merchant)
                 | None \<Rightarrow> seqP (on_auth_metrics record_failure_invalid_key) (Ret auth_error))))"

definition require_admin_secret :: "config \<Rightarrow> string option \<Rightarrow> response io \<Rightarrow> response io" where
  "require_admin_secret c provided next =
     (if c_admin_provisioning_secret c = [] \<or>
         Option.bind provided header_text \<noteq> Some (c_admin_provisioning_secret c)
      then Ret auth_error else next)"

section \<open>Merchants and keys\<close>

definition provision_merchant :: "ext \<Rightarrow> response api" where
  "provision_merchant x =
     bindP new_uuid (\<lambda>merchant_id.
     bindP (generate_api_key x) (\<lambda>(raw_key, prefix).
     and_then (lift_db (create_merchant x merchant_id raw_key prefix)) (\<lambda>key_id.
     ok (201, JObj [(''merchant_id'', JStr merchant_id), (''api_key'', JStr raw_key),
                    (''key_id'', JStr key_id)]))))"

definition issue_api_key :: "ext \<Rightarrow> string \<Rightarrow> string option \<Rightarrow> response api" where
  "issue_api_key x merchant label =
     and_then (lift_db (merchant_exists merchant)) (\<lambda>exists.
     if \<not> exists then err (not_found ''merchant_not_found'')
     else if (\<exists>l. label = Some l \<and> 100 < length l) then err (bad_request ''invalid_label'')
     else
       bindP (generate_api_key x) (\<lambda>(raw_key, prefix).
       and_then (lift_db (create_api_key x merchant raw_key prefix label)) (\<lambda>key_id.
       ok (201, JObj [(''key_id'', JStr key_id), (''api_key'', JStr raw_key), (''prefix'', JStr prefix),
                      (''label'', json_opt label)]))))"

definition key_info_json :: "api_key_info \<Rightarrow> json" where
  "key_info_json k =
     JObj [(''key_id'', JStr (ki_id k)), (''prefix'', JStr (ki_prefix k)),
           (''label'', json_opt (ki_label k)), (''created_at'', JStr (ki_created_at k)),
           (''last_used_at'', json_opt (ki_last_used_at k)),
           (''revoked_at'', json_opt (ki_revoked_at k)),
           (''active'', JBool (ki_revoked_at k = None))]"

definition list_api_keys_handler :: "string \<Rightarrow> response api" where
  "list_api_keys_handler merchant =
     and_then (lift_db (merchant_exists merchant)) (\<lambda>exists.
     if \<not> exists then err (not_found ''merchant_not_found'')
     else
       and_then (lift_db (list_api_keys merchant)) (\<lambda>ks.
       ok (200, JObj [(''merchant_id'', JStr merchant), (''keys'', JArr (map key_info_json ks))])))"

definition revoke_api_key_handler :: "string \<Rightarrow> string \<Rightarrow> response api" where
  "revoke_api_key_handler merchant key_id =
     and_then (lift_db (merchant_exists merchant)) (\<lambda>exists.
     if \<not> exists then err (not_found ''merchant_not_found'')
     else
       and_then (lift_db (count_active_api_keys merchant)) (\<lambda>n.
       if n \<le> 1 then err (bad_request ''last_active_key'')
       else
         and_then (lift_db (revoke_api_key merchant key_id)) (\<lambda>revoked.
         if \<not> revoked then err (not_found ''key_not_found'')
         else ok (200, JObj [(''key_id'', JStr key_id), (''revoked'', JBool True)]))))"

section \<open>Rate limiting\<close>

definition rate_limited_bucket :: "string \<Rightarrow> string \<Rightarrow> string option" where
  "rate_limited_bucket http_method path =
     (if http_method = ''POST'' then
        (if path = ''/payments'' then Some ''payments''
         else if path = ''/merchants'' then Some ''merchants''
         else if starts_with ''/payments/'' path \<and> ends_with ''/redeliver'' path then Some ''redeliver''
         else Some ''default'')
      else Some ''default'')"

definition bucket_rate_multiplier :: "string \<Rightarrow> nat" where
  "bucket_rate_multiplier bucket = (if bucket \<in> {''payments'', ''merchants'', ''redeliver''} then 1 else 5)"

definition effective_rps :: "nat \<Rightarrow> string \<Rightarrow> nat" where
  "effective_rps base bucket = max (sat_u32 (max base 1 * bucket_rate_multiplier bucket)) 1"

text \<open>
  \<open>as_secs_f64().ceil()\<close>, exact while the duration is below about 2^22 seconds, where every nanosecond
  count is a distinct double.
\<close>

definition ceil_secs :: "nat \<Rightarrow> nat" where
  "ceil_secs ns = (ns + 999999999) div 1000000000"

definition retry_after_secs :: "nat \<Rightarrow> nat" where
  "retry_after_secs wait = max (ceil_secs wait) 1"

text \<open>The burst size and the replenish interval are read from the \<open>governor\<close> quota.\<close>

definition reset_secs :: "nat \<Rightarrow> nat \<Rightarrow> nat \<Rightarrow> nat \<Rightarrow> nat" where
  "reset_secs burst interval remaining wait_for_next =
     (let missing = burst - remaining; refill = min (interval * missing) duration_max in
      ceil_secs (max refill wait_for_next))"

definition trusted :: "ext \<Rightarrow> ip_net list \<Rightarrow> ip_addr \<Rightarrow> bool" where
  "trusted x nets ip \<longleftrightarrow> (\<exists>n\<in>set nets. x_net_contains x n ip)"

text \<open>The hops of \<open>X-Forwarded-For\<close>, rightmost first.\<close>

fun walk_hops :: "ext \<Rightarrow> ip_net list \<Rightarrow> string list \<Rightarrow> string option" where
  "walk_hops x nets [] = None"
| "walk_hops x nets (hop # hops) =
     (if hop = [] then walk_hops x nets hops
      else (case x_parse_ip x hop of
              Some ip \<Rightarrow> if trusted x nets ip then walk_hops x nets hops else Some (x_show_ip x ip)
            | None \<Rightarrow> Some hop))"

definition CLIENT_IP_UNKNOWN :: string where
  "CLIENT_IP_UNKNOWN = ''unknown''"

text \<open>The two headers are the first line of that name, as \<open>HeaderMap::get\<close> returns it, if any.\<close>

definition client_ip_key ::
  "ext \<Rightarrow> ip_net list \<Rightarrow> ip_addr option \<Rightarrow> string option \<Rightarrow> string option \<Rightarrow> string" where
  "client_ip_key x nets peer forwarded_for real_ip =
     (case peer of
        None \<Rightarrow> CLIENT_IP_UNKNOWN
      | Some peer_ip \<Rightarrow>
          if \<not> trusted x nets peer_ip then x_show_ip x peer_ip
          else
            (case Option.bind (Option.bind forwarded_for header_text)
                    (\<lambda>v. walk_hops x nets (rev (map trim (split_on (CHR '','') v)))) of
               Some client \<Rightarrow> client
             | None \<Rightarrow>
                 (case Option.bind (Option.bind real_ip header_text) (\<lambda>v. x_parse_ip x (trim v)) of
                    Some ip \<Rightarrow> if \<not> trusted x nets ip then x_show_ip x ip else x_show_ip x peer_ip
                  | None \<Rightarrow> x_show_ip x peer_ip)))"

definition rate_limit_key ::
  "ext \<Rightarrow> string \<Rightarrow> ip_net list \<Rightarrow> ip_addr option \<Rightarrow> string option \<Rightarrow> string option \<Rightarrow> string" where
  "rate_limit_key x bucket nets peer forwarded_for real_ip =
     bucket @ '':'' @ client_ip_key x nets peer forwarded_for real_ip"

section \<open>Cross-origin policy\<close>

definition X_RATELIMIT_LIMIT :: string where "X_RATELIMIT_LIMIT = ''x-ratelimit-limit''"
definition X_RATELIMIT_REMAINING :: string where "X_RATELIMIT_REMAINING = ''x-ratelimit-remaining''"
definition X_RATELIMIT_RESET :: string where "X_RATELIMIT_RESET = ''x-ratelimit-reset''"

record cors_list =
  cl_allow_origins :: "string list"
  cl_allow_methods :: "string list"
  cl_allow_headers :: "string list"
  cl_expose_headers :: "string list"

datatype cors_policy = Cors_Deny_All | Cors_Permissive | Cors_Origins cors_list

definition build_cors :: "config \<Rightarrow> cors_policy" where
  "build_cors c =
     (if c_cors_allowed_origins c = []
      then (if c_network c = ''public'' then Cors_Deny_All else Cors_Permissive)
      else Cors_Origins
        \<lparr>cl_allow_origins = c_cors_allowed_origins c, cl_allow_methods = [''GET'', ''POST'', ''OPTIONS''],
         cl_allow_headers = [''content-type'', ''authorization''],
         cl_expose_headers = [''retry-after'', X_RATELIMIT_LIMIT, X_RATELIMIT_REMAINING, X_RATELIMIT_RESET]\<rparr>)"

section \<open>Probes\<close>

definition get_task_health :: "task_health io" where
  "get_task_health = effect (\<lambda>w. (w_task_health w, w))"

definition disabled_json :: "task_health \<Rightarrow> json list" where
  "disabled_json h =
     map (\<lambda>s. JObj [(''task'', JStr (ts_name s)), (''reason'', json_opt (ts_disabled_reason s))])
       (filter (\<lambda>s. ts_disabled_reason s \<noteq> None) (snapshot h))"

definition tasks_json :: "task_health \<Rightarrow> json" where
  "tasks_json h =
     JObj [(''expected'', JInt (int (expected_tasks h))), (''live'', JInt (int (live_tasks h))),
           (''disabled'', JArr (disabled_json h))]"

fun join_str :: "string \<Rightarrow> string list \<Rightarrow> string" where
  "join_str sep [] = []"
| "join_str sep [s] = s"
| "join_str sep (s # ss) = s @ sep @ join_str sep ss"

definition health_reasons :: "task_health \<Rightarrow> string list" where
  "health_reasons h =
     (if dead_required_tasks h \<noteq> []
      then [''background task(s) not running: '' @ join_str '', '' (dead_required_tasks h)] else []) @
     (if crash_looping_required_tasks h \<noteq> []
      then [''background task(s) crash-looping: '' @ join_str '', '' (crash_looping_required_tasks h)] else [])"

definition health_response :: "task_health \<Rightarrow> response" where
  "health_response h =
     (if dead_required_tasks h = [] \<and> crash_looping_required_tasks h = []
      then (200, JObj [(''status'', JStr ''ok''), (''tasks'', tasks_json h)])
      else (503, JObj [(''status'', JStr ''unavailable''),
                       (''reason'', JStr (join_str ''; '' (health_reasons h))), (''tasks'', tasks_json h)]))"

definition health :: "response io" where
  "health = bindP get_task_health (\<lambda>h. Ret (health_response h))"

text \<open>A GET that must answer within a timeout.\<close>

definition http_get_within :: "nat \<Rightarrow> string \<Rightarrow> get_reply option io" where
  "http_get_within ns url = effect (\<lambda>w.
     case e_get (w_env w) (w_tick w) url of
       (r, dt) \<Rightarrow> if dt < ns then (Some r, advance dt (log_get url w)) else (None, advance ns (log_get url w)))"

definition check_horizon_ready :: "config \<Rightarrow> bool io" where
  "check_horizon_ready c =
     bindP (http_get_within (from_millis 3000) (trim_end_slashes (c_horizon_url c))) (\<lambda>reply.
       Ret (case reply of Some (Get_Reply status _ _) \<Rightarrow> status < 500 | _ \<Rightarrow> False))"

definition staleness_limit :: "config \<Rightarrow> int" where
  "staleness_limit c =
     wrap_i64 (wrap_i64 (int (c_poll_interval_secs c)) * int (c_cursor_staleness_multiple c))"

definition cursor_age :: "int io" where
  "cursor_age = effect (\<lambda>w. (last_success_age_secs (now_secs w) (w_task_health w), w))"

definition unavailable :: response where
  "unavailable = (503, JObj [(''status'', JStr ''unavailable'')])"

definition ready :: "config \<Rightarrow> response io" where
  "ready c =
     bindP ping (\<lambda>r.
       case r of
         Inl e \<Rightarrow> Ret unavailable
       | Inr _ \<Rightarrow>
           if gateway_configured c
           then bindP (check_horizon_ready c) (\<lambda>reachable.
                if \<not> reachable then Ret unavailable
                else bindP cursor_age (\<lambda>age.
                  if staleness_limit c < age then Ret unavailable
                  else Ret (200, JObj [(''status'', JStr ''ok'')])))
           else Ret (200, JObj [(''status'', JStr ''ok'')]))"

end
