(* ===== verification/Api_Inv.thy ===== *)
theory Api_Inv
  imports Api
begin

text \<open>
  Every handler and worker keeps the invariant of the tables and only changes them as \<open>evolves\<close> allows,
  beside any other tasks: the lemmas per endpoint, then one statement over the datatype \<open>task\<close> of
  everything the running gateway executes, under every schedule.
\<close>

section \<open>Endpoints\<close>

lemma safeP_lift_db [proc_safe]: "safeP p \<Longrightarrow> safeP (lift_db p)"
  unfolding lift_db_def by (intro proc_safe)

lemma safeP_queries [proc_safe]:
  "safeP (get_payment i)" "safeP (find_payment_id_by_idempotency_key m k)"
  "safeP (list_payments m s l off)" "safeP (count_payments m s)" "safeP (list_payments_keyset m s l cur)"
  "safeP (list_webhook_deliveries_keyset i s l cur)" "safeP (list_deliveries_for_merchant m st l cur)"
  "safeP (get_webhook_delivery i)" "safeP (memo_exists memo)" "safeP (list_api_keys m)"
  "safeP (count_active_api_keys m)" "safeP (merchant_exists m)" "safeP ping" "safeP list_pending"
  "safeP (list_webhook_deliveries i)" "safeP (list_redrivable_deliveries a b c d e)"
  unfolding get_payment_def find_payment_id_by_idempotency_key_def list_payments_def
    count_payments_def list_payments_keyset_def list_webhook_deliveries_keyset_def
    list_deliveries_for_merchant_def get_webhook_delivery_def memo_exists_def list_api_keys_def
    count_active_api_keys_def merchant_exists_def ping_def list_pending_def
    list_webhook_deliveries_def list_redrivable_deliveries_def
  by (intro proc_safe safe_query)+

lemma canonical_print:
  assumes "parse_stroops s = Some n"
  shows "canonical (stroops_to_string n) = Some (stroops_to_string n)"
  using parse_print parse_stroops_range [OF assms] by (simp add: canonical_def)

lemma safeP_create_payment [proc_safe]: "safeP (create_payment n)"
proof (cases "parse_stroops (n_amount n)")
  case (Some k)
  then show ?thesis
    unfolding create_payment_def Some option.case
    by (intro proc_safe safe_insert_payment canonical_print [OF Some])
qed (simp add: create_payment_def)

lemma safe_delete_idempotency: "safe_stmt (\<lambda>_. delete_idempotency_rows m k)"
proof (rule safe_stmtI)
  fix rnd now d
  show "evolves d (snd (delete_idempotency_rows m k now d))"
    by (simp add: delete_idempotency_rows_def evolves_def grows_refl)
next
  fix now d assume i: "db_inv now d"
  then have ok: "db_ok (snd (delete_idempotency_rows m k now d))"
    by (simp add: delete_idempotency_rows_def db_inv_def db_ok_def distinct_map_filter)
  show "db_inv now (snd (delete_idempotency_rows m k now d))"
    by (rule inv_other [OF i _ _ ok]) (simp_all add: delete_idempotency_rows_def)
qed

lemma safeP_save_idempotency_key [proc_safe]: "safeP (save_idempotency_key m k i)"
  unfolding save_idempotency_key_def by (intro proc_safe safe_insert_idempotency_key)

lemma safeP_await_winner [proc_safe]: "safeP (await_winner n i)"
  by (induction n) (auto simp only: await_winner.simps intro!: proc_safe)

lemma safeP_generate_memo [proc_safe]: "safeP (generate_memo n x)"
  by (induction n) (auto simp only: generate_memo.simps intro!: proc_safe)

lemma safeP_create [proc_safe]: "safeP (create x c m h body)"
  unfolding create_def check_webhook_url_def create_reserved_def replay_idempotent_def
    reserve_key_def mint_payment_def generate_unique_memo_def
  by (intro proc_safe safe_delete_idempotency)

lemma safeP_find_merchant [proc_safe]: "safeP (find_merchant_by_key x raw)"
  unfolding find_merchant_by_key_def by (intro proc_safe safe_query safe_touch_key)

lemma safeP_get_by_id [proc_safe]: "safeP (get_by_id x a i)"
  unfolding get_by_id_def by (intro proc_safe)

lemma safeP_listings [proc_safe]:
  "safeP (list_handler x m q)" "safeP (list_webhooks x m i q)" "safeP (list_merchant_webhooks x m q)"
  unfolding list_handler_def list_webhooks_def list_merchant_webhooks_def owned_payment_def
  by (intro proc_safe)+

lemma safeP_bulk [proc_safe]: "safeP (redeliver_webhooks_bulk m ids)"
  unfolding redeliver_webhooks_bulk_def requeue_failed_deliveries_def by (intro proc_safe safe_requeue)

lemma safeP_keys [proc_safe]:
  "safeP (provision_merchant x)" "safeP (issue_api_key x m l)" "safeP (list_api_keys_handler m)"
  "safeP (revoke_api_key_handler m k)"
  unfolding provision_merchant_def issue_api_key_def list_api_keys_handler_def
    revoke_api_key_handler_def create_merchant_def create_api_key_def revoke_api_key_def
  by (intro proc_safe safe_merchant_transaction safe_insert_api_key safe_revoke)+

lemma rg_get_webhook_delivery:
  "rg world_evolves world_inv (get_webhook_delivery i)
     (\<lambda>r w'. \<forall>row. r = Inr (Some row) \<longrightarrow> 0 \<le> d_attempts row) w"
  unfolding get_webhook_delivery_def
proof (rule rg_stmt, goal_cases)
  case (1 now d rnd)
  then have "\<forall>r\<in>set (webhook_deliveries d). 0 \<le> d_attempts r"
    by (simp add: db_inv_def db_ok_def delivery_ok_def)
  with 1 show ?case by (auto dest!: find_eq_SomeD simp: row_to_webhook_delivery_def)
qed simp

lemma safeP_resend: "0 \<le> d_attempts r \<Longrightarrow> safeP (resend x c cl r)"
  unfolding resend_def
  by (intro proc_safe safeP_update_webhook_delivery) (simp_all add: delivery_statuses_def)

lemma rg_lift_db:
  assumes "rg world_evolves world_inv p (\<lambda>r w'. \<forall>v. r = Inr v \<longrightarrow> Q v) w"
  shows "rg world_evolves world_inv (lift_db p) (\<lambda>r w'. \<forall>v. r = Inr v \<longrightarrow> Q v) w"
  unfolding lift_db_def
  by (rule gateway.rg_bind [OF assms]) (auto split: sum.splits)

lemma rgP_redeliver: "rgP (redeliver_webhook x c m i k) w"
proof -
  have *: "safeP (case found of None \<Rightarrow> err e | Some r \<Rightarrow>
      if d_payment_id r \<noteq> i then err e' else bindP (safe_client x c (d_url r)) (\<lambda>res.
        case res of Inl _ \<Rightarrow> err e'' | Inr cl \<Rightarrow> resend x c cl r))"
    if "\<forall>row. found = Some row \<longrightarrow> 0 \<le> d_attempts row" for found e e' e''
    using that by (cases found) (auto intro!: proc_safe safeP_resend)
  have "rg world_evolves world_inv (lift_db (get_webhook_delivery k))
      (\<lambda>r w'. \<forall>v. r = Inr v \<longrightarrow> (\<forall>row. v = Some row \<longrightarrow> 0 \<le> d_attempts row)) w'" for w'
    by (rule rg_lift_db, rule gateway.rg_weaken [OF rg_get_webhook_delivery]) simp
  note found = this
  show ?thesis
    unfolding redeliver_webhook_def
  proof (rule rgP_and_then)
    show "rgP (owned_payment m i) w"
      unfolding owned_payment_def by (intro rgP_safe proc_safe)
  qed (rule rgP_and_then [OF found], intro rgP_safe *, simp)
qed

lemma rgP_redrive_once: "rgP (redrive_once x c) w"
proof -
  have "rg world_evolves world_inv (redrive_candidates c)
      (\<lambda>r w'. \<forall>rows. r = Inr rows \<longrightarrow> (\<forall>row\<in>set rows. 0 \<le> d_attempts row)) w"
    unfolding redrive_candidates_def list_redrivable_deliveries_def
  proof (rule rg_stmt, goal_cases)
    case (1 now d rnd)
    then have "\<forall>r\<in>set (webhook_deliveries d). 0 \<le> d_attempts r"
      by (simp add: db_inv_def db_ok_def delivery_ok_def)
    moreover have "r \<in> set (webhook_deliveries d)" if "(i, r) \<in> set (enumerate 0 (webhook_deliveries d))" for i r
      using imageI [OF that, of snd] by (metis map_snd_enumerate set_map snd_conv)
    ultimately show ?case using 1 by (auto simp: row_to_webhook_delivery_def)
  qed simp
  then show ?thesis
    unfolding redrive_once_def redrive_tasks_def
    by (rule rgP_bind)
      (auto split: sum.split intro!: rgP_safe proc_safe safeP_forP safeP_redrive_one)
qed

section \<open>Everything the gateway runs\<close>

datatype task =
    T_Reconcile horizon_payment
  | T_Poll
  | T_Stream string
  | T_Sweep
  | T_Redrive
  | T_Prune
  | T_Create string "string option" create_request
  | T_Get "string option" string
  | T_List string list_query
  | T_List_Webhooks string string list_query
  | T_List_Merchant_Webhooks string list_query
  | T_Redeliver string string string
  | T_Redeliver_Bulk string "string list option"
  | T_Provision
  | T_Issue_Key string "string option"
  | T_List_Keys string
  | T_Revoke_Key string string
  | T_Ready

abbreviation discard :: "'a io \<Rightarrow> unit io" where
  "discard p \<equiv> seqP p (Ret ())"

fun task_proc :: "ext \<Rightarrow> config \<Rightarrow> task \<Rightarrow> unit io" where
  "task_proc x c (T_Reconcile hp) = discard (reconcile_payment x c hp)"
| "task_proc x c T_Poll = discard (poll_once x c)"
| "task_proc x c (T_Stream cursor) = discard (stream_once x c cursor)"
| "task_proc x c T_Sweep = discard (sweep_once x c)"
| "task_proc x c T_Redrive = discard (redrive_once x c)"
| "task_proc x c T_Prune = discard (prune_once c)"
| "task_proc x c (T_Create m h body) = discard (create x c m h body)"
| "task_proc x c (T_Get a i) = discard (get_by_id x a i)"
| "task_proc x c (T_List m q) = discard (list_handler x m q)"
| "task_proc x c (T_List_Webhooks m i q) = discard (list_webhooks x m i q)"
| "task_proc x c (T_List_Merchant_Webhooks m q) = discard (list_merchant_webhooks x m q)"
| "task_proc x c (T_Redeliver m i k) = discard (redeliver_webhook x c m i k)"
| "task_proc x c (T_Redeliver_Bulk m ids) = discard (redeliver_webhooks_bulk m ids)"
| "task_proc x c T_Provision = discard (provision_merchant x)"
| "task_proc x c (T_Issue_Key m l) = discard (issue_api_key x m l)"
| "task_proc x c (T_List_Keys m) = discard (list_api_keys_handler m)"
| "task_proc x c (T_Revoke_Key m k) = discard (revoke_api_key_handler m k)"
| "task_proc x c T_Ready = discard (ready c)"

lemma safeP_ready [proc_safe]: "safeP (ready c)"
  unfolding ready_def check_horizon_ready_def http_get_within_def cursor_age_def
  by (intro proc_safe guarded_same_db) (auto split: prod.splits)

lemma rgP_discard: "rgP p w \<Longrightarrow> rgP (discard p) w"
  by (erule rgP_bind) simp

lemma rgP_task: "rgP (task_proc x c t) w"
  by (cases t)
    (auto simp only: task_proc.simps intro!: rgP_discard rgP_reconcile rgP_poll_once rgP_stream_once
      rgP_redrive_once rgP_redeliver rgP_safe [OF safeP_sweep_once] rgP_safe [OF safeP_prune_once]
      rgP_safe [OF safeP_create] rgP_safe [OF safeP_get_by_id] rgP_safe [OF safeP_listings(1)]
      rgP_safe [OF safeP_listings(2)] rgP_safe [OF safeP_listings(3)] rgP_safe [OF safeP_bulk]
      rgP_safe [OF safeP_keys(1)] rgP_safe [OF safeP_keys(2)] rgP_safe [OF safeP_keys(3)]
      rgP_safe [OF safeP_keys(4)] rgP_safe [OF safeP_ready])

text \<open>The state after any number of tasks has been interleaved in any way.\<close>

definition after :: "ext \<Rightarrow> config \<Rightarrow> task list \<Rightarrow> nat list \<Rightarrow> world \<Rightarrow> world" where
  "after x c ts sched w = snd (interleave sched (map (task_proc x c) ts) w)"

lemma tasks_safe:
  assumes "world_inv w"
  shows "world_evolves w (after x c ts sched w) \<and> world_inv (after x c ts sched w)"
proof -
  have "\<exists>Q. rg world_evolves world_inv p Q w" if p: "p \<in> set (map (task_proc x c) ts)" for p
    using p rgP_task by fastforce
  then show ?thesis
    unfolding after_def using gateway.interleave_rg [of "map (task_proc x c) ts" w sched] assms
    by blast
qed

lemmas tasks_evolve = tasks_safe [THEN conjunct1]
lemmas tasks_inv = tasks_safe [THEN conjunct2]

lemma world_inv_empty: "w_db w = empty_db \<Longrightarrow> world_inv w"
  by (simp add: world_inv_def db_inv_def db_ok_def empty_db_def)

end
