(* ===== verification/Examples.thy ===== *)
theory Examples
  imports Api_Inv
begin

text \<open>
  Concrete configurations, environments, rows and worlds, on which the hypotheses of the theorems are
  shown to hold. The example day is 2000-01-01; the environment never fails a statement, answers every
  request with 200 and takes no time.
\<close>

definition gateway0 :: string where
  "gateway0 = ''GBBD47IF6LWK7P7MDEVSCWR7DPUWV3NY3DTQEVFL4NAT4AQH3ZLLFLA5''"

definition config0 :: config where
  "config0 =
     \<lparr>c_port = 3000, c_database_url = ''sqlite:stellargate.db'', c_network = ''testnet'',
      c_horizon_url = ''https://horizon-testnet.stellar.org'', c_gateway_public = gateway0,
      c_accepted_assets = default_list,
      c_webhook_secret = ''0123456789abcdef0123456789abcdef'',
      c_webhook_retry_attempts = 3, c_webhook_retry_delay_ms = 5000,
      c_webhook_retry_max_delay_ms = 60000, c_allowed_webhook_schemes = [''https''],
      c_webhook_timeout_secs = 10, c_webhook_redrive_interval_secs = 30,
      c_webhook_redrive_concurrency = 4, c_webhook_redrive_max_attempts = 8,
      c_webhook_redrive_grace_secs = 60, c_webhook_redrive_backoff_initial_secs = 30,
      c_webhook_redrive_backoff_max_secs = 900, c_webhook_redrive_jitter_secs = 30,
      c_retention_interval_secs = 3600, c_webhook_delivery_retention_days = 30,
      c_idempotency_retention_days = 7, c_poll_interval_secs = 10, c_cursor_staleness_multiple = 3,
      c_payment_ttl_secs = 3600, c_expiry_batch_size = 500, c_rate_limit_requests_per_sec = 10,
      c_db_pool_max_connections = 10, c_db_busy_timeout_ms = 5000, c_cors_allowed_origins = [],
      c_listener_mode = Stream, c_webhook_allow_private_targets = False,
      c_admin_provisioning_secret = [], c_request_timeout_secs = 30, c_trusted_proxy_cidrs = []\<rparr>"

definition env0 :: env where
  "env0 =
     \<lparr>e_stmt = (\<lambda>_. (0, False)), e_random = (\<lambda>_ _. 0), e_uuid = show_nat,
      e_dns = (\<lambda>_ _ _. (Some [(V4 (Ipv4 8 8 8 8), 443)], 0)), e_post = (\<lambda>_ _. (Some 200, [], 0)),
      e_get = (\<lambda>_ _. (Get_Failed, 0)), e_key_bytes = show_nat, e_client = (\<lambda>_. True),
      e_stream = (\<lambda>_ _. (None, 0))\<rparr>"

definition noon0 :: int where
  "noon0 = 946684800"

definition world0 :: "db \<Rightarrow> world" where
  "world0 d =
     \<lparr>w_db = d, w_clock = nat noon0 * 1000000000, w_tick = 0, w_env = env0,
      w_webhook_metrics = webhook_metrics_new, w_auth_metrics = auth_metrics_new,
      w_horizon_metrics = horizon_metrics_new, w_task_health = task_health_new, w_posts = [],
      w_gets = []\<rparr>"

definition payment0 :: payment where
  "payment0 =
     \<lparr>p_id = ''p1'', p_merchant_id = ''m1'', p_destination_address = gateway0, p_memo = ''CAFE0001'',
      p_amount = ''5'', p_asset = ''XLM'', p_status = ''pending'', p_webhook_url = None,
      p_tx_hash = None, p_paid_amount = None, p_created_at = ''2000-01-01T00:00:00Z'',
      p_updated_at = ''2000-01-01T00:00:00Z'', p_expires_at = ''2000-01-01T01:00:00Z'',
      p_asset_issuer = None\<rparr>"

definition hp0 :: horizon_payment where
  "hp0 =
     \<lparr>hp_kind = ''payment'', hp_amount = Some ''5.0000000'', hp_asset_type = Some ''native'',
      hp_asset_code = None, hp_asset_issuer = None, hp_to = Some gateway0,
      hp_transaction_hash = Some ''tx1'',
      hp_transaction = Some \<lparr>tr_memo = Some ''CAFE0001'', tr_memo_type = Some ''text'',
                             tr_successful = Some True\<rparr>,
      hp_paging_token = Some ''100'', hp_created_at = Some ''2000-01-01T00:00:00Z''\<rparr>"

definition db0 :: db where
  "db0 = empty_db\<lparr>payments := [payment0]\<rparr>"

definition delivery0 :: webhook_delivery where
  "delivery0 =
     \<lparr>d_id = ''d1'', d_payment_id = ''p1'', d_url = ''shop.example'', d_payload = ''{}'',
      d_event_type = Some ''payment.completed'', d_status = ''failed'', d_attempts = 3,
      d_last_attempt = None, d_acknowledged_at = None, d_created_at = ''2000-01-01T00:00:00Z''\<rparr>"

lemma year2000: "year_day 730485 = (2000, 0)" "civil_month (month_lens 2000) (Suc 0) 0 = (1, 0)"
  by (simp_all add: year_day_def civil_year.simps [of 2000 0] year_len_def month_lens_def)

lemma example_fields:
  "ts_fields noon0 = [2000, 1, 1, 0, 0, 0]" "ts_fields (noon0 + 3600) = [2000, 1, 1, 1, 0, 0]"
  by (simp_all add: ts_fields_def noon0_def ts_min_def year2000)

lemma noon0_ts: "strftime_z noon0 = Some ''2000-01-01T00:00:00Z''"
  unfolding strftime_z_def example_fields by (simp add: noon0_def ts_min_def ts_max_def) code_simp

lemma noon0_plus_hour: "strftime_z (noon0 + 3600) = Some ''2000-01-01T01:00:00Z''"
  unfolding strftime_z_def example_fields by (simp add: noon0_def ts_min_def ts_max_def) code_simp

lemma world0_simps [simp]:
  "w_db (world0 d) = d" "w_env (world0 d) = env0" "w_tick (world0 d) = 0" "w_posts (world0 d) = []"
  "now_secs (world0 d) = noon0"
  by (simp_all add: world0_def now_secs_def noon0_def)

lemma env0_simps [simp]:
  "e_stmt env0 n = (0, False)" "e_random env0 n i = 0" "e_client env0 n = True"
  "e_post env0 n q = (Some 200, [], 0)" "e_dns env0 n h p = (Some [(V4 (Ipv4 8 8 8 8), 443)], 0)"
  by (simp_all add: env0_def)

lemma now_secs_advance0 [simp]: "now_secs (advance 0 w) = now_secs w"
  by (simp add: now_secs_def)

lemma example_ts: "is_ts ''2000-01-01T00:00:00Z''" "is_ts ''2000-01-01T01:00:00Z''"
  using is_ts_strftime [OF noon0_ts] is_ts_strftime [OF noon0_plus_hour] by simp_all

lemma canonical5: "canonical ''5'' = Some ''5''" "parse_stroops ''5'' = Some 50000000"
  "parse_stroops ''5.0000000'' = Some 50000000" "stroops_to_string 50000000 = ''5''"
  by code_simp+

lemma payment0_ok: "payment_ok payment0"
  by (simp add: payment_ok_def payment0_def statuses_def example_ts canonical5)

lemma inv0: "world_inv (world0 db0)"
  using payment0_ok by (simp add: world_inv_def db_inv_def db_ok_def db0_def empty_db_def)
   (simp add: payment0_def)

lemma inv_empty: "world_inv (world0 empty_db)"
  by (rule world_inv_empty) simp

end
