(* ===== verification/Settlement.thy ===== *)
theory Settlement
  imports Examples
begin

text \<open>
  Properties of detection and settlement: what \<open>verify\<close> accepts, what one reconciliation does to the
  tables, that a transaction is credited once and an intent settled once, and that what is sent is
  signed and stays clear of protected addresses.
\<close>

section \<open>Matching\<close>

text \<open>The conditions under which a Horizon record pays an intent.\<close>

definition pays :: "payment \<Rightarrow> horizon_payment \<Rightarrow> int \<Rightarrow> bool" where
  "pays p hp n \<longleftrightarrow>
     hp_kind hp = ''payment'' \<and> hp_to hp = Some (p_destination_address p) \<and>
     (\<exists>t. hp_transaction hp = Some t \<and> tr_memo_type t = Some ''text'' \<and>
          tr_memo t = Some (p_memo p) \<and> tr_successful t = Some True) \<and>
     (if p_asset_issuer p = None \<or> p_asset_issuer p = Some []
      then eq_ignore_ascii_case (p_asset p) ''XLM'' \<and> hp_asset_type hp = Some ''native''
      else hp_asset_code hp = Some (p_asset p) \<and> hp_asset_issuer hp = p_asset_issuer p) \<and>
     (\<exists>s. hp_amount hp = Some s \<and> parse_stroops s = Some n)"

lemma asset_matches_iff:
  "asset_matches p hp \<longleftrightarrow>
     (if p_asset_issuer p = None \<or> p_asset_issuer p = Some []
      then eq_ignore_ascii_case (p_asset p) ''XLM'' \<and> hp_asset_type hp = Some ''native''
      else hp_asset_code hp = Some (p_asset p) \<and> hp_asset_issuer hp = p_asset_issuer p)"
  by (auto simp: asset_matches_def split: option.split)

lemma memo_successful_iff:
  "hp_memo hp = Some m \<and> is_successful hp \<longleftrightarrow>
     (\<exists>t. hp_transaction hp = Some t \<and> tr_memo_type t = Some ''text'' \<and> tr_memo t = Some m \<and>
          tr_successful t = Some True)"
  by (auto simp: hp_memo_def is_successful_def split: option.split)

lemma verify_iff:
  assumes "parse_stroops (p_amount p) = Some e"
  shows "verify p hp paid = Some v \<longleftrightarrow>
    (\<exists>n. pays p hp n \<and>
       (let t = wrap_i64 (paid + n); h = hash_or_empty hp; a = stroops_to_string t in
        v = (if t = e then Completed h a else if e < t then Overpaid h a else Underpaid h a)))"
proof -
  have "pays p hp n \<longleftrightarrow>
      hp_kind hp = ''payment'' \<and> hp_to hp = Some (p_destination_address p) \<and>
      hp_memo hp = Some (p_memo p) \<and> is_successful hp \<and> asset_matches p hp \<and>
      (\<exists>s. hp_amount hp = Some s \<and> parse_stroops s = Some n)" for n
    unfolding pays_def asset_matches_iff using memo_successful_iff [of hp "p_memo p"] by auto
  then show ?thesis
    using assms by (auto simp: verify_def bind_eq_Some_conv Let_def split: if_splits)
qed

lemma verify_pays:
  assumes "payment_ok p"
  shows "verify p hp paid \<noteq> None \<longleftrightarrow> (\<exists>n. pays p hp n)"
proof -
  obtain e where e: "parse_stroops (p_amount p) = Some e"
    using assms by (auto simp: payment_ok_def canonical_def)
  have "verify p hp paid \<noteq> None \<longleftrightarrow> (\<exists>v. verify p hp paid = Some v)" by auto
  then show ?thesis unfolding verify_iff [OF e] Let_def by blast
qed

section \<open>One reconciliation\<close>

text \<open>Steps that leave the intents and the ledger alone.\<close>

definition keeps_books :: "world \<Rightarrow> world \<Rightarrow> bool" where
  "keeps_books w w' \<longleftrightarrow>
     payments (w_db w') = payments (w_db w) \<and>
     processed_transactions (w_db w') = processed_transactions (w_db w)"

interpretation books: step_guarantee keeps_books
  by unfold_locales (auto simp: keeps_books_def)

lemma keeps_books_effects [proc_safe]:
  "obeys keeps_books new_uuid" "obeys keeps_books (random_upto n)" "obeys keeps_books (sleep n)"
  "obeys keeps_books get_clock" "obeys keeps_books (lookup_host n h p)" "obeys keeps_books build_client"
  "obeys keeps_books (http_post n hst q)" "obeys keeps_books (on_webhook_metrics f)"
  by (auto simp: effect_defs keeps_books_def Let_def intro!: obeys_effect split: prod.split)

lemma keeps_books_stmt:
  assumes "\<And>now d. payments (snd (f now d)) = payments d \<and>
      processed_transactions (snd (f now d)) = processed_transactions d"
  shows "obeys keeps_books (stmt f)"
  unfolding stmt_rnd_def
proof (rule obeys_effect)
  fix w :: world
  obtain dt fault where e: "e_stmt (w_env w) (w_tick w) = (dt, fault)" by fastforce
  obtain r d where fd: "f (now_secs (advance dt w)) (w_db w) = (r, d)" by fastforce
  with assms [where d = "w_db w" and now = "now_secs (advance dt w)"] e
  show "keeps_books w (snd (let (dt, fault) = e_stmt (w_env w) (w_tick w); w' = advance dt w in
      if fault then (Inl Db_Fault, w')
      else (case f (now_secs w') (w_db w) of (r, d) \<Rightarrow> (r, w'\<lparr>w_db := d\<rparr>))))"
    by (simp add: keeps_books_def Let_def)
qed

lemma keeps_books_delivery [proc_safe]:
  "obeys keeps_books (update_webhook_delivery i status n)"
  "obeys keeps_books (save_webhook_delivery i pid url payload event)"
  unfolding update_webhook_delivery_def save_webhook_delivery_def
  by (intro keeps_books_stmt; simp add: update_delivery_rows_def insert_delivery_def split: option.split)+

lemma keeps_books_attempts [proc_safe]: "obeys keeps_books (attempt_loop c cl q attempts left)"
proof (induction left)
  case (Suc left)
  then show ?case unfolding attempt_loop.simps retry_delay_def by (intro proc_safe)
qed simp

lemma keeps_books_dispatch [proc_safe]: "obeys keeps_books (dispatch x c p event delta)"
  unfolding dispatch_def dispatch_to_def dispatch_with_def safe_client_def validate_def
    pinned_client_def record_latency_def elapsed_ms_def current_timestamp_def
  by (intro proc_safe)

text \<open>The settlement statement, when row ids are unique.\<close>

lemma count_where_pos: "0 < count_where P xs \<longleftrightarrow> (\<exists>q\<in>set xs. P q)"
  by (auto simp: count_where_def filter_empty_conv)

lemma count_id:
  assumes "distinct (map p_id ps)"
  shows "count_where (\<lambda>q. p_id q = i \<and> R q) ps \<le> 1"
  using assms
proof (induction ps)
  case (Cons a ps)
  show ?case
  proof (cases "p_id a = i")
    case True
    then have "\<forall>q\<in>set ps. p_id q \<noteq> i" using Cons.prems by (auto simp: image_iff)
    then show ?thesis by (simp add: count_where_def)
  next
    case False
    then show ?thesis using Cons by (simp add: count_where_def)
  qed
qed (simp add: count_where_def)

lemma update_none: "count_where P ps = 0 \<Longrightarrow> update_where P f ps = ps"
  by (simp add: count_where_def update_where_def filter_empty_conv map_idI)

lemma update_status_rows_cases:
  fixes i status tx paid d
  defines "P \<equiv> \<lambda>q. p_id q = i \<and> watchable (p_status q)"
  assumes "update_status_rows i status tx paid now d = (r, d')"
  shows "d' = d \<and> (r = Inr False \<or> (\<exists>e. r = Inl e)) \<or>
    (\<exists>ts. d' = d\<lparr>payments := update_where P (settle_row status tx paid ts) (payments d)\<rparr> \<and>
          r = Inr (count_where P (payments d) = 1))"
proof (cases "strftime_z now")
  case None
  with assms show ?thesis by (auto simp: update_status_rows_def Let_def split: if_splits)
next
  case (Some ts)
  with assms have "(Inr (count_where P (payments d) = 1),
      d\<lparr>payments := update_where P (settle_row status tx paid ts) (payments d)\<rparr>) = (r, d')"
    by (simp add: update_status_rows_def Let_def)
  then show ?thesis by blast
qed

lemma settle_run:
  assumes "distinct (map p_id (payments (w_db w)))"
    and "run (settle x c p status tx paid event delta) w = (did, w')"
  shows "processed_transactions (w_db w') = processed_transactions (w_db w) \<and>
    (if did then \<exists>ts. payments (w_db w') =
        update_where (\<lambda>q. p_id q = p_id p \<and> watchable (p_status q)) (settle_row status tx paid ts)
          (payments (w_db w)) \<and>
        (\<exists>q\<in>set (payments (w_db w)). p_id q = p_id p \<and> watchable (p_status q))
     else payments (w_db w') = payments (w_db w))"
proof -
  let ?P = "\<lambda>q. p_id q = p_id p \<and> watchable (p_status q)"
  obtain r w1 where u: "run (update_payment_status (p_id p) status tx paid) w = (r, w1)" by fastforce
  have row: "r = Inl Db_Fault \<and> w_db w1 = w_db w \<or>
      update_status_rows (p_id p) status tx paid (now_secs w1) (w_db w) = (r, w_db w1)"
    using run_stmtD u unfolding update_payment_status_def by blast
  have n: "count_where ?P (payments (w_db w)) = 1 \<or> count_where ?P (payments (w_db w)) = 0"
    using count_id [OF assms(1), of "p_id p" "\<lambda>q. watchable (p_status q)"] by linarith
  have some: "\<exists>q\<in>set (payments (w_db w)). ?P q" if "count_where ?P (payments (w_db w)) = 1"
    using that count_where_pos [of ?P "payments (w_db w)"] by simp
  have d: "keeps_books w1 (snd (run (dispatch x c q event delta) w1))" for q
    by (rule books.run_obeys) (rule proc_safe)
  show ?thesis
  proof (cases "r = Inr True")
    case True
    with u assms(2) have did: "did" "w' = snd (run (dispatch x c
        (p\<lparr>p_status := status, p_tx_hash := Some tx, p_paid_amount := Some paid\<rparr>) event delta) w1)"
      by (auto simp: settle_def split: prod.splits)
    then have "keeps_books w1 w'" using d by simp
    moreover
    obtain ts where ts: "count_where ?P (payments (w_db w)) = 1"
      "w_db w1 = (w_db w)\<lparr>payments := update_where ?P (settle_row status tx paid ts) (payments (w_db w))\<rparr>"
      using row True update_status_rows_cases by blast
    ultimately have "processed_transactions (w_db w') = processed_transactions (w_db w)"
      "payments (w_db w') = update_where ?P (settle_row status tx paid ts) (payments (w_db w))"
      by (simp_all add: keeps_books_def)
    with did(1) some [OF ts(1)] show ?thesis by (simp add: exI [of _ ts])
  next
    case False
    with u assms(2) have w1: "w' = w1" "\<not> did"
      by (auto simp: settle_def split: sum.splits if_splits)
    have "w_db w1 = w_db w"
      using row False n update_status_rows_cases update_none [of ?P "payments (w_db w)"] by fastforce
    with w1 show ?thesis by simp
  qed
qed

lemma run_and_thenE:
  assumes "run (and_then p k) w = (r, w')"
  obtains (fails) e where "run p w = (Inl e, w')" "r = Inl e"
    | (goes) v w1 where "run p w = (Inr v, w1)" "run (k v) w1 = (r, w')"
  using assms by (auto split: prod.splits sum.splits)

definition unseen :: "string \<Rightarrow> string \<Rightarrow> db \<Rightarrow> bool" where
  "unseen pid tx d \<longleftrightarrow> \<not> (\<exists>t\<in>set (processed_transactions d). t_payment_id t = pid \<and> t_tx_hash t = tx)"

lemma insert_processed_cases:
  assumes "insert_processed pid tx n now d = (r, d')"
  shows "d' = d \<and> r \<noteq> Inr True \<or>
    r = Inr True \<and> unseen pid tx d \<and> (\<exists>ts. d' = d\<lparr>processed_transactions := processed_transactions d @
      [\<lparr>t_payment_id = pid, t_tx_hash = tx, t_amount_stroops = n, t_created_at = ts\<rparr>]\<rparr>)"
proof (cases "strftime_z now")
  case None
  with assms show ?thesis by (auto simp: insert_processed_def)
next
  case (Some ts)
  with assms show ?thesis unfolding insert_processed_def unseen_def option.case
    by (auto split: if_splits)
qed

lemmas run_record = run_stmtD [of "insert_processed pid tx n" for pid tx n, folded record_processed_tx_def]
lemmas run_sum = run_query(1) [of "\<lambda>now d. case sql_sum 0 (amounts_of pid d) of
    Some s \<Rightarrow> Inr s | None \<Rightarrow> Inl Db_Overflow" for pid, folded sum_processed_stroops_def]

lemma run_find:
  assumes "run (find_pending_by_memo memo) w = (r, w')"
  shows "w_db w' = w_db w \<and> (\<forall>p. r = Inr (Some p) \<longrightarrow>
    (\<exists>q\<in>set (payments (w_db w)). p = row_to_payment q \<and> p_memo q = memo \<and> watchable (p_status q) \<and>
       sql_gt (p_expires_at q) (strftime_z (now_secs w'))))"
  using run_query [OF assms [unfolded find_pending_by_memo_def]] by (auto dest!: find_eq_SomeD)

lemma resolution_fst: "fst (resolution t e) = (if e \<le> t then ''completed'' else ''underpaid'')"
  by (simp add: resolution_def)

text \<open>
  The effect of a matched record on the tables: nothing; or the ledger row alone (when a later
  statement fails or the intent was closed meanwhile); or the ledger row and the settled intent.
\<close>

definition credits ::
  "payment \<Rightarrow> horizon_payment \<Rightarrow> int \<Rightarrow> int \<Rightarrow> bool \<Rightarrow> db \<Rightarrow> db \<Rightarrow> bool" where
  "credits p hp n e settled d d' \<longleftrightarrow>
     unseen (p_id p) (hash_or_empty hp) d \<and>
     (\<exists>ts. processed_transactions d' = processed_transactions d @
        [\<lparr>t_payment_id = p_id p, t_tx_hash = hash_or_empty hp, t_amount_stroops = n, t_created_at = ts\<rparr>]) \<and>
     (if settled
      then (let total_paid = ledger_total (p_id p) d' in
            \<exists>ts. payments d' =
              update_where (\<lambda>q. p_id q = p_id p \<and> watchable (p_status q))
                (settle_row (if e \<le> total_paid then ''completed'' else ''underpaid'')
                   (hash_or_empty hp) (stroops_to_string total_paid) ts) (payments d))
      else payments d' = payments d)"

lemma reconcile_matched_run:
  assumes ids: "distinct (map p_id (payments (w_db w)))"
    and e: "parse_stroops (p_amount p) = Some e"
    and n: "Option.bind (hp_amount hp) parse_stroops = Some n"
    and run: "run (reconcile_matched x c p hp) w = (r, w')"
  shows "keeps_books w w' \<and> r \<noteq> Inr True \<or> credits p hp n e (r = Inr True) (w_db w) (w_db w')"
proof -
  let ?tx = "hash_or_empty hp"
  have amt: "stroops_or_zero (hp_amount hp) = n" "stroops_or_zero (Some (p_amount p)) = e"
    using e n by (simp_all add: stroops_or_zero_def)
  from run show ?thesis unfolding reconcile_matched_def amt
  proof (cases rule: run_and_thenE)
    case (fails er)
    then have "w_db w' = w_db w"
      using run_record [OF fails(1)] insert_processed_cases by blast
    with fails show ?thesis by (simp add: keeps_books_def)
  next
    case (goes fresh w1)
    then have rec: "insert_processed (p_id p) ?tx n (now_secs w1) (w_db w) = (Inr fresh, w_db w1)"
      using run_record [OF goes(1)] by blast
    note ins = insert_processed_cases [OF rec]
    show ?thesis
    proof (cases fresh)
      case False
      with ins goes(2) show ?thesis by (auto simp: keeps_books_def)
    next
      case True
      then obtain ts where led: "unseen (p_id p) ?tx (w_db w)"
        "w_db w1 = (w_db w)\<lparr>processed_transactions := processed_transactions (w_db w) @
          [\<lparr>t_payment_id = p_id p, t_tx_hash = ?tx, t_amount_stroops = n, t_created_at = ts\<rparr>]\<rparr>"
        using ins by blast
      then have same: "payments (w_db w1) = payments (w_db w)" by simp
      from goes(2) True have "run (and_then (sum_processed_stroops (p_id p)) (\<lambda>total_paid.
          case resolution total_paid e of (status, event, delta) \<Rightarrow>
            bindP (settle x c p status ?tx (stroops_to_string total_paid) event delta) ok)) w1 = (r, w')"
        by simp
      then show ?thesis
      proof (cases rule: run_and_thenE)
        case (fails er)
        then have "w_db w' = w_db w1" using run_sum by blast
        with fails led show ?thesis by (auto simp: credits_def)
      next
        case (goes t w2)
        then have w2: "w_db w2 = w_db w1" "sql_sum 0 (amounts_of (p_id p) (w_db w1)) = Some t"
          using run_query(1) [OF goes(1) [unfolded sum_processed_stroops_def]]
            run_query(2) [OF goes(1) [unfolded sum_processed_stroops_def] refl]
          by (auto split: option.splits)
        have t: "t = ledger_total (p_id p) (w_db w1)"
          using sql_sum_Some [OF w2(2)] by (simp add: ledger_total_def)
        obtain status event delta where res: "resolution t e = (status, event, delta)"
          by (metis prod_cases3)
        obtain did where did: "run (settle x c p status ?tx (stroops_to_string t) event delta) w2 = (did, w')"
          "r = Inr did" using goes(2) res by (auto split: prod.splits)
        have st: "status = (if e \<le> t then ''completed'' else ''underpaid'')"
          using resolution_fst [of t e] res by simp
        have ids2: "distinct (map p_id (payments (w_db w2)))" using ids same w2 by simp
        note s = settle_run [OF ids2 did(1)]
        then have lt: "ledger_total (p_id p) (w_db w') = t"
          using t w2 by (simp add: ledger_total_def amounts_of_def)
        show ?thesis
          using s led same w2(1) did(2) unfolding credits_def lt Let_def st
          by (cases did) auto
      qed
    qed
  qed
qed

lemma row_to_payment_ok: "payment_ok p \<Longrightarrow> row_to_payment p = p"
  by (simp add: row_to_payment_def payment_ok_def is_ts_normal)

lemma pays_amount: "pays p hp n \<Longrightarrow> Option.bind (hp_amount hp) parse_stroops = Some n"
  by (auto simp: pays_def)

lemma reconcile_run:
  assumes "world_inv w" "run (reconcile_payment x c hp) w = (r, w')"
  shows "keeps_books w w' \<and> r \<noteq> Inr True \<or>
    (\<exists>p\<in>set (payments (w_db w)). \<exists>n e. watchable (p_status p) \<and> pays p hp n \<and>
       parse_stroops (p_amount p) = Some e \<and> credits p hp n e (r = Inr True) (w_db w) (w_db w'))"
proof (cases "hp_memo hp")
  case None
  with assms(2) show ?thesis by (auto simp: reconcile_payment_def keeps_books_def)
next
  case (Some memo)
  have ok: "\<And>p. p \<in> set (payments (w_db w)) \<Longrightarrow> payment_ok p" "distinct (map p_id (payments (w_db w)))"
    using assms(1) by (simp_all add: world_inv_def db_inv_def db_ok_def)
  from assms(2) show ?thesis unfolding reconcile_payment_def Some option.case
  proof (cases rule: run_and_thenE)
    case (fails er)
    then have "w_db w' = w_db w" using run_find by blast
    with fails show ?thesis by (simp add: keeps_books_def)
  next
    case (goes found w1)
    note q = run_find [OF goes(1)]
    show ?thesis
    proof (cases found)
      case None
      with goes(2) q show ?thesis by (auto simp: keeps_books_def)
    next
      case f: (Some p)
      then obtain p0 where p0: "p0 \<in> set (payments (w_db w))" "watchable (p_status p0)" "p = row_to_payment p0"
        using q by blast
      then have p: "p \<in> set (payments (w_db w))" "watchable (p_status p)" "payment_ok p"
        using ok(1) row_to_payment_ok by auto
      from goes(2) f have "run (and_then (sum_processed_stroops (p_id p)) (\<lambda>paid.
          if verify p hp paid = None then ok False else reconcile_matched x c p hp)) w1 = (r, w')" by simp
      then show ?thesis
      proof (cases rule: run_and_thenE)
        case (fails er)
        then have "w_db w' = w_db w1" using run_sum by blast
        with fails q show ?thesis by (simp add: keeps_books_def)
      next
        case (goes paid w2)
        then have w2: "w_db w2 = w_db w"
          using run_sum q by metis
        show ?thesis
        proof (cases "verify p hp paid = None")
          case True
          with goes(2) w2 show ?thesis by (auto simp: keeps_books_def)
        next
          case False
          then obtain n where n: "pays p hp n" using verify_pays [OF p(3)] by blast
          obtain e where e: "parse_stroops (p_amount p) = Some e"
            using p(3) by (auto simp: payment_ok_def canonical_def)
          have "run (reconcile_matched x c p hp) w2 = (r, w')" using goes(2) False by simp
          from reconcile_matched_run [OF _ e pays_amount [OF n] this] w2 ok(2) n e p
          show ?thesis by (auto simp: keeps_books_def)
        qed
      qed
    qed
  qed
qed

section \<open>The abstract ledger\<close>

text \<open>
  What a merchant relies on, without tables: an intent is a requested amount, the set of transactions
  received for it and a status, and receiving a transaction adds it to the set and compares the sum
  with the request. \<open>book\<close> reads this view off the tables.
\<close>

record intent =
  in_status :: string
  in_due :: "int option"
  in_received :: "(string \<times> int) set"

definition receive :: "string \<Rightarrow> int \<Rightarrow> intent \<Rightarrow> intent" where
  "receive tx n it =
     (let received = insert (tx, n) (in_received it) in
      it\<lparr>in_received := received,
         in_status := (case in_due it of
             Some due \<Rightarrow> if due \<le> (\<Sum>(h, a)\<in>received. a) then ''completed'' else ''underpaid''
           | None \<Rightarrow> in_status it)\<rparr>)"

definition credited :: "db \<Rightarrow> string \<Rightarrow> processed_tx list" where
  "credited d pid = filter (\<lambda>t. t_payment_id t = pid) (processed_transactions d)"

definition received :: "db \<Rightarrow> string \<Rightarrow> (string \<times> int) set" where
  "received d pid = (\<lambda>t. (t_tx_hash t, t_amount_stroops t)) ` set (credited d pid)"

definition book :: "db \<Rightarrow> string \<Rightarrow> intent option" where
  "book d pid =
     map_option (\<lambda>p. \<lparr>in_status = p_status p, in_due = parse_stroops (p_amount p),
                      in_received = received d pid\<rparr>)
       (find (\<lambda>p. p_id p = pid) (payments d))"

lemma credited_distinct:
  assumes "db_ok d"
  shows "distinct (map t_tx_hash (credited d pid))"
proof -
  have "inj_on (\<lambda>t. (t_payment_id t, t_tx_hash t)) (set (processed_transactions d))"
    "distinct (processed_transactions d)"
    using assms by (simp_all add: db_ok_def distinct_map)
  then show ?thesis by (auto simp: credited_def distinct_map inj_on_def)
qed

lemma credited_total: "ledger_total pid d = (\<Sum>t\<leftarrow>credited d pid. t_amount_stroops t)"
  by (simp add: ledger_total_def amounts_of_def credited_def)

lemma received_total:
  assumes "db_ok d"
  shows "(\<Sum>(h, a)\<in>received d pid. a) = ledger_total pid d"
proof -
  let ?f = "\<lambda>t. (t_tx_hash t, t_amount_stroops t)"
  have "distinct (map ?f (credited d pid))"
    using credited_distinct [OF assms, of pid] by (auto simp: distinct_map inj_on_def)
  then have "sum snd (set (map ?f (credited d pid))) = sum_list (map snd (map ?f (credited d pid)))"
    by (simp only: sum_list_distinct_conv_sum_set)
  then show ?thesis
    by (simp add: received_def credited_total case_prod_unfold comp_def)
qed

lemma find_unique:
  assumes "distinct (map p_id ps)" "p \<in> set ps"
  shows "find (\<lambda>q. p_id q = p_id p) ps = Some p"
  using assms by (induction ps) (auto simp: image_iff)

lemma find_update:
  assumes "\<And>q. p_id (f q) = p_id q"
  shows "find (\<lambda>q. p_id q = i) (update_where P f ps) =
    map_option (\<lambda>q. if P q then f q else q) (find (\<lambda>q. p_id q = i) ps)"
  using assms by (induction ps) (auto simp: update_where_def)

lemma find_update_other:
  assumes "i \<noteq> j" "\<And>q. p_id (f q) = p_id q"
  shows "find (\<lambda>q. p_id q = i) (update_where (\<lambda>q. p_id q = j \<and> R q) f ps) = find (\<lambda>q. p_id q = i) ps"
  using assms by (induction ps) (auto simp: update_where_def)

lemma credits_book:
  assumes ok: "db_ok d" "db_ok d'" and p: "p \<in> set (payments d)" "watchable (p_status p)"
    and e: "parse_stroops (p_amount p) = Some e" and cr: "credits p hp n e True d d'"
  shows "\<exists>it. book d (p_id p) = Some it \<and> watchable (in_status it) \<and>
    hash_or_empty hp \<notin> fst ` in_received it \<and>
    book d' = (book d)(p_id p \<mapsto> receive (hash_or_empty hp) n it)"
proof -
  let ?tx = "hash_or_empty hp" let ?P = "\<lambda>q. p_id q = p_id p \<and> watchable (p_status q)"
  obtain ts where led: "processed_transactions d' = processed_transactions d @
      [\<lparr>t_payment_id = p_id p, t_tx_hash = ?tx, t_amount_stroops = n, t_created_at = ts\<rparr>]"
    using cr by (auto simp: credits_def)
  obtain ts' where pay: "payments d' = update_where ?P (settle_row
      (if e \<le> ledger_total (p_id p) d' then ''completed'' else ''underpaid'') ?tx
      (stroops_to_string (ledger_total (p_id p) d')) ts') (payments d)"
    using cr by (auto simp: credits_def Let_def)
  have ids: "distinct (map p_id (payments d))" using ok by (simp add: db_ok_def)
  have rec: "received d' i = (if i = p_id p then insert (?tx, n) (received d i) else received d i)" for i
    by (auto simp: received_def credited_def led)
  let ?it = "\<lparr>in_status = p_status p, in_due = Some e, in_received = received d (p_id p)\<rparr>"
  have "book d (p_id p) = Some ?it" using find_unique [OF ids p(1)] e by (simp add: book_def)
  moreover have "?tx \<notin> fst ` in_received ?it"
    using cr by (auto simp: credits_def unseen_def received_def credited_def)
  moreover have "book d' i = ((book d)(p_id p \<mapsto> receive ?tx n ?it)) i" for i
  proof (cases "i = p_id p")
    case True
    have "find (\<lambda>q. p_id q = p_id p) (payments d') = Some (settle_row
        (if e \<le> ledger_total (p_id p) d' then ''completed'' else ''underpaid'') ?tx
        (stroops_to_string (ledger_total (p_id p) d')) ts' p)"
      unfolding pay using find_unique [OF ids p(1)] p(2) by (subst find_update) (simp_all add: settle_row_def)
    then show ?thesis
      using True e rec [of "p_id p"] received_total [OF ok(2), of "p_id p"]
      by (simp add: book_def receive_def settle_row_def Let_def)
  next
    case False
    have "find (\<lambda>q. p_id q = i) (payments d') = find (\<lambda>q. p_id q = i) (payments d)"
      unfolding pay using False by (rule find_update_other) (simp add: settle_row_def)
    then show ?thesis using False rec by (simp add: book_def)
  qed
  ultimately show ?thesis using p(2) by (intro exI [of _ ?it]) auto
qed

section \<open>A payment is settled\<close>

text \<open>Statements succeed and take at most \<open>D\<close> nanoseconds.\<close>

definition healthy :: "nat \<Rightarrow> world \<Rightarrow> bool" where
  "healthy D w \<longleftrightarrow> (\<forall>k. \<not> snd (e_stmt (w_env w) k) \<and> fst (e_stmt (w_env w) k) \<le> D)"

text \<open>The clock is still within the years SQLite can print.\<close>

definition clock_end :: nat where
  "clock_end = 253402300800000000000"

lemma run_stmt_healthy:
  assumes "healthy D w" "run (stmt f) w = (r, w')"
  shows "f (now_secs w') (w_db w) = (r, w_db w') \<and> healthy D w' \<and> w_clock w' \<le> w_clock w + D"
proof -
  obtain dt fault where e: "e_stmt (w_env w) (w_tick w) = (dt, fault)" by fastforce
  with assms(1) have "\<not> fault" "dt \<le> D" by (auto simp: healthy_def dest: spec [of _ "w_tick w"])
  with e assms show ?thesis by (auto simp: run_stmt Let_def healthy_def split: prod.splits)
qed

lemma clock_ts: "w_clock w < clock_end \<Longrightarrow> \<exists>ts. strftime_z (now_secs w) = Some ts"
  by (simp add: strftime_z_def now_secs_def ts_min_def ts_max_def clock_end_def less_mult_imp_div_less)

lemma now_secs_less: "w_clock w < n * 1000000000 \<Longrightarrow> now_secs w < int n"
  by (simp add: now_secs_def less_mult_imp_div_less)

lemma sql_sum_fits:
  assumes "\<forall>a\<in>set xs. 0 < a" "0 \<le> acc" "acc + sum_list xs \<le> i64_max"
  shows "sql_sum acc xs = Some (acc + sum_list xs)"
  using assms
proof (induction acc xs rule: sql_sum.induct)
  case (2 acc a as)
  have "0 \<le> sum_list as" using "2.prems"(1) by (intro sum_list_nonneg) fastforce
  with 2 show ?case by (simp add: in_i64_def i64_min_def i64_max_def)
qed simp

lemma settle_healthy:
  assumes h: "healthy D w" and t: "w_clock w + D < clock_end"
    and p: "distinct (map p_id (payments (w_db w)))" "p \<in> set (payments (w_db w))" "watchable (p_status p)"
  shows "fst (run (settle x c p status tx paid event delta) w) = True"
proof -
  let ?P = "\<lambda>q. p_id q = p_id p \<and> watchable (p_status q)"
  obtain r w1 where u: "run (update_payment_status (p_id p) status tx paid) w = (r, w1)" by fastforce
  note s = run_stmt_healthy [OF h u [unfolded update_payment_status_def]]
  then obtain ts where ts: "strftime_z (now_secs w1) = Some ts" using clock_ts [of w1] t by force
  have "count_where ?P (payments (w_db w)) = 1"
    using count_id [OF p(1), of "p_id p" "\<lambda>q. watchable (p_status q)"]
      count_where_pos [of ?P "payments (w_db w)"] p(2,3) by fastforce
  then have "r = Inr True" using s ts by (auto simp: update_status_rows_def Let_def)
  with u show ?thesis by (auto simp: settle_def split: prod.splits)
qed

lemma find_open:
  assumes "distinct (map p_memo ps)" "p \<in> set ps" "R p"
  shows "find (\<lambda>q. p_memo q = p_memo p \<and> R q) ps = Some p"
  using assms by (induction ps) (auto simp: image_iff)

lemma reconcile_matched_healthy:
  assumes h: "healthy D w" and t: "w_clock w + 3 * D < clock_end" and ok: "db_ok (w_db w)"
    and p: "p \<in> set (payments (w_db w))" "watchable (p_status p)"
    and n: "pays p hp n" and e: "parse_stroops (p_amount p) = Some e"
    and new: "unseen (p_id p) (hash_or_empty hp) (w_db w)"
    and fits: "ledger_total (p_id p) (w_db w) + n \<le> i64_max"
  shows "fst (run (reconcile_matched x c p hp) w) = Inr True"
proof -
  let ?tx = "hash_or_empty hp"
  have amt: "stroops_or_zero (hp_amount hp) = n" "stroops_or_zero (Some (p_amount p)) = e"
    using e pays_amount [OF n] by (simp_all add: stroops_or_zero_def)
  have n0: "0 < n" using pays_amount [OF n] by (auto simp: bind_eq_Some_conv dest: parse_stroops_range)
  obtain r1 w1 where 1: "run (record_processed_tx (p_id p) ?tx n) w = (r1, w1)" by fastforce
  note s1 = run_stmt_healthy [OF h 1 [unfolded record_processed_tx_def]]
  obtain ts where "strftime_z (now_secs w1) = Some ts" using clock_ts [of w1] s1 t by force
  with s1 new have w1: "r1 = Inr True" "w_db w1 = (w_db w)\<lparr>processed_transactions :=
      processed_transactions (w_db w) @ [\<lparr>t_payment_id = p_id p, t_tx_hash = ?tx,
        t_amount_stroops = n, t_created_at = ts\<rparr>]\<rparr>"
    by (auto simp: insert_processed_def unseen_def split: if_splits)
  obtain r2 w2 where 2: "run (sum_processed_stroops (p_id p)) w1 = (r2, w2)" by fastforce
  note s2 = run_stmt_healthy [OF conjunct1 [OF conjunct2 [OF s1]] 2 [unfolded sum_processed_stroops_def]]
  have am: "amounts_of (p_id p) (w_db w1) = amounts_of (p_id p) (w_db w) @ [n]"
    by (simp add: w1(2) amounts_of_def)
  have "\<forall>a\<in>set (amounts_of (p_id p) (w_db w)). 0 < a"
    using ok by (auto simp: amounts_of_def db_ok_def processed_ok_def)
  then have "sql_sum 0 (amounts_of (p_id p) (w_db w1)) = Some (ledger_total (p_id p) (w_db w) + n)"
    using n0 fits by (subst sql_sum_fits) (auto simp: am ledger_total_def)
  with s2 have w2: "r2 = Inr (ledger_total (p_id p) (w_db w) + n)" "w_db w2 = w_db w1" by auto
  have "fst (run (settle x c p status ?tx paid event delta) w2) = True" for status paid event delta
    using s1 s2 t ok p by (intro settle_healthy [of D]) (auto simp: w2(2) w1(2) db_ok_def)
  then show ?thesis
    by (simp add: reconcile_matched_def amt 1 w1(1) 2 w2(1) split_beta)
qed

lemma reconcile_healthy:
  assumes inv: "world_inv w" and h: "healthy D w" and t: "w_clock w + 5 * D < clock_end"
    and p: "p \<in> set (payments (w_db w))" "watchable (p_status p)" "pays p hp n"
    and due: "sqlite_parse (p_expires_at p) = Some t0" "w_clock w + D < nat t0 * 1000000000"
    and new: "unseen (p_id p) (hash_or_empty hp) (w_db w)"
    and fits: "ledger_total (p_id p) (w_db w) + n \<le> i64_max"
  shows "fst (run (reconcile_payment x c hp) w) = Inr True"
proof -
  have ok: "db_ok (w_db w)" "payment_ok p"
    using inv p(1) by (simp_all add: world_inv_def db_inv_def db_ok_def)
  obtain e where e: "parse_stroops (p_amount p) = Some e"
    using ok(2) by (auto simp: payment_ok_def canonical_def)
  have n0: "0 < n" using pays_amount [OF p(3)] by (auto simp: bind_eq_Some_conv dest: parse_stroops_range)
  have memo: "hp_memo hp = Some (p_memo p)" using p(3) by (auto simp: pays_def hp_memo_def)
  obtain r1 w1 where 1: "run (find_pending_by_memo (p_memo p)) w = (r1, w1)" by fastforce
  note s1 = run_stmt_healthy [OF h 1 [unfolded find_pending_by_memo_def]]
  obtain ts where ts: "strftime_z (now_secs w1) = Some ts" using clock_ts [of w1] s1 t by force
  have "now_secs w1 < t0" using now_secs_less [of w1 "nat t0"] s1 due(2)
    by (simp add: now_secs_def split: if_splits)
  moreover have "strftime_z t0 = Some (p_expires_at p)"
    using ok(2) due(1) by (simp add: payment_ok_def is_ts_def)
  ultimately have "sql_gt (p_expires_at p) (strftime_z (now_secs w1))"
    using ts strftime_z_less [OF ts] by (simp add: sql_gt_def)
  then have "find (\<lambda>q. p_memo q = p_memo p \<and> watchable (p_status q) \<and>
      sql_gt (p_expires_at q) (strftime_z (now_secs w1))) (payments (w_db w)) = Some p"
    using ok(1) p by (intro find_open) (auto simp: db_ok_def)
  with s1 have w1: "r1 = Inr (Some p)" "w_db w1 = w_db w"
    using row_to_payment_ok [OF ok(2)] by auto
  obtain r2 w2 where 2: "run (sum_processed_stroops (p_id p)) w1 = (r2, w2)" by fastforce
  note s2 = run_stmt_healthy [OF conjunct1 [OF conjunct2 [OF s1]] 2 [unfolded sum_processed_stroops_def]]
  have "\<forall>a\<in>set (amounts_of (p_id p) (w_db w)). 0 < a"
    using ok(1) by (auto simp: amounts_of_def db_ok_def processed_ok_def)
  then have "sql_sum 0 (amounts_of (p_id p) (w_db w)) = Some (ledger_total (p_id p) (w_db w))"
    using n0 fits by (subst sql_sum_fits) (auto simp: ledger_total_def)
  with s2 w1 have w2: "r2 = Inr (ledger_total (p_id p) (w_db w))" "w_db w2 = w_db w" by auto
  have "fst (run (reconcile_matched x c p hp) w2) = Inr True"
    using s1 s2 t ok(1) p new fits e w2(2)
    by (intro reconcile_matched_healthy [where D = D and n = n and e = e]) auto
  moreover have "verify p hp paid \<noteq> None" for paid using verify_pays [OF ok(2)] p(3) by blast
  ultimately show ?thesis
    by (simp add: reconcile_payment_def memo 1 w1(1) 2 w2(1))
qed

text \<open>The record that was read last decides the cursor, however its reconciliation went.\<close>

definition advance_cursor :: "string \<Rightarrow> horizon_payment list \<Rightarrow> string" where
  "advance_cursor cursor page =
     foldl (\<lambda>cur hp. case hp_paging_token hp of Some t \<Rightarrow> t | None \<Rightarrow> cur) cursor page"

lemma reconcile_page_cursor:
  "fst (fst (run (reconcile_page x c hps cursor k) w)) = advance_cursor cursor hps \<and>
   k \<le> snd (fst (run (reconcile_page x c hps cursor k) w)) \<and>
   snd (fst (run (reconcile_page x c hps cursor k) w)) \<le> k + length hps"
proof (induction hps arbitrary: cursor k w)
  case (Cons hp hps)
  have "fst (fst (run (reconcile_page x c hps cur k') w')) = advance_cursor cur hps"
    "k' \<le> snd (fst (run (reconcile_page x c hps cur k') w'))"
    "snd (fst (run (reconcile_page x c hps cur k') w')) \<le> k' + length hps" for cur k' w'
    using Cons.IH by blast+
  note IH = this
  obtain r w1 where r: "run (reconcile_payment x c hp) w = (r, w1)" by fastforce
  let ?cur = "case hp_paging_token hp of Some t \<Rightarrow> t | None \<Rightarrow> cursor"
  have e: "run (reconcile_page x c (hp # hps) cursor k) w =
      run (reconcile_page x c hps ?cur (if r = Inr True then k + 1 else k)) w1"
    by (simp add: Let_def r)
  show ?case unfolding e
    using IH [where cur = ?cur and k' = "k + 1" and w' = w1] IH [where cur = ?cur and k' = k and w' = w1]
    by (simp add: advance_cursor_def)
qed (simp add: advance_cursor_def)

section \<open>Properties\<close>

text \<open>
  C5: for an intent with a readable amount, \<open>verify\<close> returns a verdict exactly when the record is a
  successful payment to the intent's destination, with its text memo, in its asset and from its issuer,
  and the verdict is the comparison of the cumulative total with the requested amount.
\<close>

theorem verify_correct:
  assumes "parse_stroops (p_amount p) = Some e"
  shows "verify p hp paid = Some v \<longleftrightarrow>
    (\<exists>n. pays p hp n \<and>
       (let t = wrap_i64 (paid + n); h = hash_or_empty hp; a = stroops_to_string t in
        v = (if t = e then Completed h a else if e < t then Overpaid h a else Underpaid h a)))"
  by (rule verify_iff [OF assms])

lemma pays0: "pays payment0 hp0 50000000"
  by (simp add: pays_def payment0_def hp0_def canonical5)

lemma verify0: "verify payment0 hp0 0 = Some (Completed ''tx1'' ''5'')"
  by (simp add: verify_def payment0_def hp0_def hp_memo_def is_successful_def asset_matches_def
    canonical5 hash_or_empty_def wrap_i64_def Let_def)

theorem verify_correct_witness:
  "parse_stroops (p_amount payment0) = Some 50000000 \<and>
   (\<exists>n. pays payment0 hp0 n \<and>
      (let t = wrap_i64 (0 + n); h = hash_or_empty hp0; a = stroops_to_string t in
       Completed ''tx1'' ''5'' =
         (if t = 50000000 then Completed h a else if 50000000 < t then Overpaid h a else Underpaid h a)))"
proof -
  have e: "parse_stroops (p_amount payment0) = Some 50000000" by (simp add: payment0_def canonical5)
  from verify_correct [OF e, of hp0 0 "Completed ''tx1'' ''5''"] verify0 e show ?thesis by blast
qed

text \<open>
  C1: a reconciliation that reports a settlement is one step of the abstract ledger: the record pays an
  open intent that has not received this transaction, the intent receives it, its status becomes
  completed exactly when the transactions received add up to the amount due, and no other intent
  changes. Statements may fail at any point.
\<close>

theorem reconcile_refines:
  assumes "world_inv w" "run (reconcile_payment x c hp) w = (Inr True, w')"
  shows "\<exists>p n it. p \<in> set (payments (w_db w)) \<and> pays p hp n \<and> book (w_db w) (p_id p) = Some it \<and>
    watchable (in_status it) \<and> hash_or_empty hp \<notin> fst ` in_received it \<and>
    book (w_db w') = (book (w_db w))(p_id p \<mapsto> receive (hash_or_empty hp) n it)"
proof -
  have "world_inv w'" using gateway.rg_run [OF rgP_reconcile assms(1), of x c hp] assms(2) by simp
  then have ok: "db_ok (w_db w)" "db_ok (w_db w')"
    using assms(1) by (simp_all add: world_inv_def db_inv_def)
  obtain p n e where p: "p \<in> set (payments (w_db w))" "watchable (p_status p)" "pays p hp n"
    "parse_stroops (p_amount p) = Some e" "credits p hp n e True (w_db w) (w_db w')"
    using reconcile_run [OF assms] by auto
  from credits_book [OF ok p(1,2,4,5)] p(1,3) show ?thesis by blast
qed

lemma healthy0: "healthy 0 (world0 d)"
  by (simp add: healthy_def)

lemma settle_facts0:
  "w_clock (world0 db0) + 5 * 0 < clock_end" "payment0 \<in> set (payments (w_db (world0 db0)))"
  "watchable (p_status payment0)" "pays payment0 hp0 50000000"
  "sqlite_parse (p_expires_at payment0) = Some (noon0 + 3600)"
  "w_clock (world0 db0) + 0 < nat (noon0 + 3600) * 1000000000"
  "unseen (p_id payment0) (hash_or_empty hp0) (w_db (world0 db0))"
  "ledger_total (p_id payment0) (w_db (world0 db0)) + 50000000 \<le> i64_max"
  using sqlite_parse_strftime [OF noon0_plus_hour] pays0
  by (simp_all add: world0_def clock_end_def noon0_def db0_def empty_db_def watchable_def unseen_def
      ledger_total_def amounts_of_def i64_max_def) (simp_all add: payment0_def)

lemma settles0: "fst (run (reconcile_payment ext0 config0 hp0) (world0 db0)) = Inr True"
  by (rule reconcile_healthy [OF inv0 healthy0 settle_facts0])

theorem reconcile_refines_witness:
  "world_inv (world0 db0) \<and> fst (run (reconcile_payment ext0 config0 hp0) (world0 db0)) = Inr True \<and>
   (\<exists>p n it. p \<in> set (payments db0) \<and> pays p hp0 n \<and> book db0 (p_id p) = Some it \<and>
    watchable (in_status it) \<and> hash_or_empty hp0 \<notin> fst ` in_received it \<and>
    book (w_db (snd (run (reconcile_payment ext0 config0 hp0) (world0 db0)))) =
      (book db0)(p_id p \<mapsto> receive (hash_or_empty hp0) n it))"
proof -
  have "run (reconcile_payment ext0 config0 hp0) (world0 db0) =
      (Inr True, snd (run (reconcile_payment ext0 config0 hp0) (world0 db0)))"
    using settles0 by (simp add: prod_eq_iff)
  from reconcile_refines [OF inv0 this] inv0 settles0 show ?thesis by simp
qed

text \<open>
  C4: a payment is not missed: when the database answers (each statement within \<open>D\<close> nanoseconds) and
  an open intent has not yet expired, reconciling a record that pays it with a transaction not yet
  credited settles it.
\<close>

theorem reconcile_settles:
  assumes "world_inv w" "healthy D w" "w_clock w + 5 * D < clock_end"
    and "p \<in> set (payments (w_db w))" "watchable (p_status p)" "pays p hp n"
    and "sqlite_parse (p_expires_at p) = Some t0" "w_clock w + D < nat t0 * 1000000000"
    and "unseen (p_id p) (hash_or_empty hp) (w_db w)"
    and "ledger_total (p_id p) (w_db w) + n \<le> i64_max"
  shows "fst (run (reconcile_payment x c hp) w) = Inr True"
  using assms by (rule reconcile_healthy)

theorem reconcile_settles_witness:
  "fst (run (reconcile_payment ext0 config0 hp0) (world0 db0)) = Inr True"
  by (rule reconcile_settles [OF inv0 healthy0 settle_facts0])

text \<open>
  C7: a transaction is credited once: as long as every intent the record pays already has this
  transaction in its ledger, any number of further reconciliations of it leaves the intents and the
  ledger as they are. This also holds of an intent that the recorded transaction pays in full but
  whose settlement statement failed: it is not settled by seeing the transaction again.
\<close>

theorem seen_transaction_ignored:
  assumes "world_inv w"
    and "\<forall>p\<in>set (payments (w_db w)). \<forall>n. pays p hp n \<longrightarrow> \<not> unseen (p_id p) (hash_or_empty hp) (w_db w)"
  shows "keeps_books w (((\<lambda>w. snd (run (reconcile_payment x c hp) w)) ^^ k) w) \<and>
    fst (run (reconcile_payment x c hp) (((\<lambda>w. snd (run (reconcile_payment x c hp) w)) ^^ k) w)) \<noteq> Inr True"
proof -
  let ?f = "\<lambda>w. snd (run (reconcile_payment x c hp) w)"
  let ?I = "\<lambda>v. world_inv v \<and> keeps_books w v"
  have step: "?I (?f v) \<and> fst (run (reconcile_payment x c hp) v) \<noteq> Inr True" if v: "?I v" for v
  proof -
    obtain r v' where run: "run (reconcile_payment x c hp) v = (r, v')" by fastforce
    have "world_inv v'" using gateway.rg_run [OF rgP_reconcile, of v x c hp] v run by simp
    moreover have "keeps_books v v' \<and> r \<noteq> Inr True"
      using reconcile_run [OF _ run] v assms(2) by (fastforce simp: keeps_books_def credits_def unseen_def)
    ultimately show ?thesis using v run books.R_trans by auto
  qed
  have "?I ((?f ^^ k) w)" using assms(1) step by (induction k) (auto simp: books.R_refl)
  with step show ?thesis by blast
qed

definition db_stuck :: db where
  "db_stuck = db0\<lparr>processed_transactions := [\<lparr>t_payment_id = ''p1'', t_tx_hash = ''tx1'',
     t_amount_stroops = 50000000, t_created_at = ''2000-01-01T00:00:00Z''\<rparr>]\<rparr>"

lemma inv_stuck: "world_inv (world0 db_stuck)"
  using payment0_ok
  by (simp add: world_inv_def db_inv_def db_ok_def db_stuck_def db0_def empty_db_def processed_ok_def
      i64_max_def) (simp add: payment0_def)

theorem seen_transaction_ignored_witness:
  "covered db_stuck payment0 \<and> p_status payment0 = ''pending'' \<and> payment0 \<in> set (payments db_stuck) \<and>
   keeps_books (world0 db_stuck)
     (((\<lambda>w. snd (run (reconcile_payment ext0 config0 hp0) w)) ^^ 10) (world0 db_stuck))"
proof -
  have "\<not> unseen (p_id payment0) (hash_or_empty hp0) db_stuck"
    by (simp add: unseen_def db_stuck_def payment0_def hp0_def hash_or_empty_def)
  then have "\<forall>p\<in>set (payments (w_db (world0 db_stuck))). \<forall>n. pays p hp0 n \<longrightarrow>
      \<not> unseen (p_id p) (hash_or_empty hp0) (w_db (world0 db_stuck))"
    by (simp add: db_stuck_def db0_def)
  from seen_transaction_ignored [OF inv_stuck this, where x = ext0 and c = config0 and k = 10]
  show ?thesis
    by (simp add: covered_def ledger_total_def amounts_of_def db_stuck_def db0_def payment0_def canonical5)
qed

text \<open>
  C32: the paging cursor after a page is the last paging token on it, whatever became of the records:
  a reconciliation that failed is passed over like one that succeeded. The number of settlements
  reported lies between none and one per record.
\<close>

theorem page_cursor:
  "fst (fst (run (reconcile_page x c page cursor 0) w)) = advance_cursor cursor page \<and>
   snd (fst (run (reconcile_page x c page cursor 0) w)) \<le> length page"
  using reconcile_page_cursor [of x c page cursor 0 w] by simp

end
