(* ===== verification/Lifecycle.thy ===== *)
theory Lifecycle
  imports Settlement
begin

text \<open>
  What every run of the gateway guarantees, for any set of tasks (reconciliations, polls, streams,
  sweeps, redrives, retention passes and API requests) interleaved statement by statement in any order:
  the properties of \<open>after\<close>.
\<close>

section \<open>The invariant\<close>

text \<open>
  C3: the invariant of the tables (unique keys, valid statuses, canonical amounts and timestamps,
  completed intents covered, expired intents overdue) holds after any interleaving of any tasks.
\<close>

theorem gateway_invariant:
  assumes "world_inv w"
  shows "world_inv (after x c ts sched w)"
  using assms by (rule tasks_inv)

theorem gateway_invariant_witness:
  "world_inv (after ext0 config0 [T_Reconcile hp0, T_Sweep, T_Reconcile hp0] [0, 2, 1, 0, 2, 2, 0, 1]
     (world0 db0))"
  by (rule gateway_invariant) (rule inv0)

text \<open>
  C2: in every reachable state a completed intent has been paid: its ledger rows carry pairwise
  different transaction hashes, positive amounts, and add up to at least the requested amount.
\<close>

theorem completed_is_paid:
  assumes "world_inv w" "p \<in> set (payments (w_db (after x c ts sched w)))"
    and "p_status p = ''completed''"
  shows "\<exists>e. parse_stroops (p_amount p) = Some e \<and>
    e \<le> (\<Sum>t\<leftarrow>credited (w_db (after x c ts sched w)) (p_id p). t_amount_stroops t) \<and>
    distinct (map t_tx_hash (credited (w_db (after x c ts sched w)) (p_id p))) \<and>
    (\<forall>t\<in>set (credited (w_db (after x c ts sched w)) (p_id p)). 0 < t_amount_stroops t)"
proof -
  let ?d = "w_db (after x c ts sched w)"
  have i: "db_inv (now_secs (after x c ts sched w)) ?d"
    using tasks_inv [OF assms(1)] by (simp add: world_inv_def)
  then have ok: "db_ok ?d" by (simp add: db_inv_def)
  have "covered ?d p" using i assms(2,3) by (simp add: db_inv_def)
  moreover have "\<forall>t\<in>set (credited ?d (p_id p)). 0 < t_amount_stroops t"
    using ok by (auto simp: credited_def db_ok_def processed_ok_def)
  ultimately show ?thesis
    using credited_distinct [OF ok] by (auto simp: covered_def credited_total split: option.splits)
qed

lemma run_interleave:
  "\<exists>n. interleave (replicate n 0) [p] w = ([Ret (fst (run p w))], snd (run p w))"
proof (induction p arbitrary: w rule: proc_induct)
  case (Ret a)
  show ?case by (rule exI [of _ 0]) simp
next
  case (Atomic f)
  obtain q w' where f: "f w = (q, w')" by fastforce
  with Atomic obtain n where "interleave (replicate n 0) [q] w' = ([Ret (fst (run q w'))], snd (run q w'))"
    by (metis fst_conv)
  with f have "interleave (replicate (Suc n) 0) [Atomic f] w =
      ([Ret (fst (run (Atomic f) w))], snd (run (Atomic f) w))" by simp
  then show ?case by blast
qed

lemma after_run: "\<exists>n. after x c [t] (replicate n 0) w = snd (run (task_proc x c t) w)"
  using run_interleave [of "task_proc x c t" w] by (metis after_def list.simps(8,9) snd_conv)

text \<open>The example world once its payment has arrived.\<close>

definition paid0 :: "nat list \<Rightarrow> world" where
  "paid0 sched = after ext0 config0 [T_Reconcile hp0] sched (world0 db0)"

lemma paid0_completed:
  "\<exists>sched. \<exists>p\<in>set (payments (w_db (paid0 sched))). p_status p = ''completed'' \<and> p_id p = ''p1''"
proof -
  obtain r w' where run: "run (reconcile_payment ext0 config0 hp0) (world0 db0) = (r, w')" by fastforce
  with settles0 have r: "r = Inr True" by simp
  obtain n where n: "paid0 (replicate n 0) = w'"
    using after_run [of ext0 config0 "T_Reconcile hp0" "world0 db0"] run by (auto simp: paid0_def)
  from reconcile_run [OF inv0 run] r obtain k e where cr: "pays payment0 hp0 k"
    "parse_stroops (p_amount payment0) = Some e" "credits payment0 hp0 k e True db0 (w_db w')"
    by (auto simp: db0_def)
  then have k: "k = 50000000" "e = 50000000" by (auto simp: pays_def payment0_def hp0_def canonical5)
  have "ledger_total ''p1'' (w_db w') = 50000000"
    using cr(3) by (auto simp: credits_def ledger_total_def amounts_of_def db0_def empty_db_def k payment0_def)
  then have "\<exists>ts tx. payments (w_db w') = [settle_row ''completed'' tx ''5'' ts payment0]"
    using cr(3) by (auto simp: credits_def k payment0_def canonical5 db0_def update_where_def watchable_def Let_def)
  with n show ?thesis by (intro exI [of _ "replicate n 0"]) (auto simp: settle_row_def payment0_def)
qed

theorem completed_is_paid_witness:
  "\<exists>sched. \<exists>p\<in>set (payments (w_db (paid0 sched))). p_status p = ''completed'' \<and>
     (\<exists>e. parse_stroops (p_amount p) = Some e \<and>
        e \<le> (\<Sum>t\<leftarrow>credited (w_db (paid0 sched)) (p_id p). t_amount_stroops t))"
proof -
  obtain sched p where p: "p \<in> set (payments (w_db (paid0 sched)))" "p_status p = ''completed''"
    using paid0_completed by blast
  from completed_is_paid [OF inv0 p(1) [unfolded paid0_def] p(2)] p show ?thesis
    unfolding paid0_def by blast
qed

section \<open>What tasks may change\<close>

text \<open>
  C6: whatever runs, every intent is still there with the same id, merchant, destination, memo, amount,
  asset, issuer, deadline and webhook; and once it is completed or expired its whole row never changes
  again.
\<close>

theorem intents_are_final:
  assumes "world_inv w" "p \<in> set (payments (w_db w))"
  shows "\<exists>q\<in>set (payments (w_db (after x c ts sched w))).
    same_terms p q \<and> (p_status p = ''completed'' \<or> p_status p = ''expired'' \<longrightarrow> q = p)"
proof -
  have "grows payment_evolves (payments (w_db w)) (payments (w_db (after x c ts sched w)))"
    using tasks_evolve [OF assms(1)] by (simp add: world_evolves_def evolves_def)
  then obtain q where "q \<in> set (payments (w_db (after x c ts sched w)))" "payment_evolves p q"
    using grows_mem [OF _ assms(2)] by blast
  then show ?thesis by (auto simp: payment_evolves_def watchable_def)
qed

theorem intents_are_final_witness:
  "\<exists>q\<in>set (payments (w_db (after ext0 config0 [T_Reconcile hp0, T_Sweep] [0, 1, 0, 0, 1] (world0 db0)))).
     same_terms payment0 q"
  using intents_are_final [OF inv0, of payment0 ext0 config0 "[T_Reconcile hp0, T_Sweep]" "[0, 1, 0, 0, 1]"]
  by (auto simp: db0_def)

text \<open>An intent is only ever marked expired at or after its deadline.\<close>

theorem expired_is_overdue:
  assumes "world_inv w" "p \<in> set (payments (w_db (after x c ts sched w)))" "p_status p = ''expired''"
  shows "\<exists>t. sqlite_parse (p_expires_at p) = Some t \<and> t \<le> now_secs (after x c ts sched w)"
  using tasks_inv [OF assms(1)] assms(2,3)
  by (fastforce simp: world_inv_def db_inv_def deadline_passed_def split: option.splits)

definition expired0 :: db where
  "expired0 = empty_db\<lparr>payments := [payment0\<lparr>p_status := ''expired'', p_expires_at := ''2000-01-01T00:00:00Z''\<rparr>]\<rparr>"

lemma inv_expired0: "world_inv (world0 expired0)"
  using payment0_ok sqlite_parse_strftime [OF noon0_ts]
  by (simp add: world_inv_def db_inv_def db_ok_def expired0_def empty_db_def payment_ok_def statuses_def
      example_ts deadline_passed_def)

theorem expired_is_overdue_witness:
  "\<exists>t. sqlite_parse ''2000-01-01T00:00:00Z'' = Some t \<and>
       t \<le> now_secs (after ext0 config0 [] [] (world0 expired0))"
  using expired_is_overdue [OF inv_expired0, where ts = "[]" and sched = "[]" and x = ext0 and c = config0]
  by (simp add: after_def expired0_def)

text \<open>
  C8: the ledger is append-only, a pair of intent and transaction occurs in it once, and the total
  received for an intent never goes down.
\<close>

theorem ledger_append_only:
  assumes "world_inv w"
  shows "(\<exists>rows. processed_transactions (w_db (after x c ts sched w)) = processed_transactions (w_db w) @ rows) \<and>
    distinct (map (\<lambda>t. (t_payment_id t, t_tx_hash t)) (processed_transactions (w_db (after x c ts sched w)))) \<and>
    ledger_total pid (w_db w) \<le> ledger_total pid (w_db (after x c ts sched w))"
proof -
  have e: "evolves (w_db w) (w_db (after x c ts sched w))"
    using tasks_evolve [OF assms] by (simp add: world_evolves_def)
  have ok: "db_ok (w_db (after x c ts sched w))"
    using tasks_inv [OF assms] by (simp add: world_inv_def db_inv_def)
  from e have "\<exists>rows. processed_transactions (w_db (after x c ts sched w)) = processed_transactions (w_db w) @ rows"
    by (simp add: evolves_def grows_eq)
  with ok ledger_total_mono [OF e ok] show ?thesis by (simp add: db_ok_def)
qed

theorem ledger_append_only_witness:
  "ledger_total ''p1'' db_stuck \<le>
     ledger_total ''p1'' (w_db (after ext0 config0 [T_Reconcile hp0, T_Prune] [0, 1, 0, 1, 0] (world0 db_stuck)))"
  using ledger_append_only [OF inv_stuck, of ext0 config0 "[T_Reconcile hp0, T_Prune]" "[0, 1, 0, 1, 0]" "''p1''"]
  unfolding world0_simps by blast

text \<open>
  C20: a revoked API key never authenticates again: once the only key with a hash is revoked, no
  schedule of later tasks makes the lookup of that hash succeed.
\<close>

theorem revoked_stays_revoked:
  assumes "world_inv w" "k \<in> set (api_keys (w_db w))" "k_revoked_at k \<noteq> None"
  shows "live_key (k_key_hash k) (w_db (after x c ts sched w)) = None"
proof -
  let ?d = "w_db (after x c ts sched w)"
  have "grows key_evolves (api_keys (w_db w)) (api_keys ?d)"
    using tasks_evolve [OF assms(1)] by (simp add: world_evolves_def evolves_def)
  then obtain l where l: "l \<in> set (api_keys ?d)" "key_evolves k l" using grows_mem [OF _ assms(2)] by blast
  then have lr: "k_revoked_at l \<noteq> None" "k_key_hash l = k_key_hash k"
    using assms(3) by (auto simp: key_evolves_def)
  have "inj_on k_key_hash (set (api_keys ?d))"
    using tasks_inv [OF assms(1), of x c ts sched] by (simp add: world_inv_def db_inv_def db_ok_def distinct_map)
  then have "k_revoked_at k' \<noteq> None" if "k' \<in> set (api_keys ?d)" "k_key_hash k' = k_key_hash k" for k'
    using that l(1) lr inj_onD [of k_key_hash _ k' l] by auto
  then show ?thesis unfolding live_key_def find_eq_None by auto
qed

definition key0 :: api_key where
  "key0 = \<lparr>k_id = ''k1'', k_merchant_id = ''m1'', k_key_hash = ''h1'', k_prefix = ''sg_1'', k_label = None,
     k_created_at = ''2000-01-01T00:00:00Z'', k_last_used_at = None,
     k_revoked_at = Some ''2000-01-01T00:00:00Z''\<rparr>"

lemma inv_keys: "world_inv (world0 (empty_db\<lparr>api_keys := ks\<rparr>))" if "distinct (map k_id ks)" "distinct (map k_key_hash ks)"
  using that by (simp add: world_inv_def db_inv_def db_ok_def empty_db_def)

theorem revoked_stays_revoked_witness:
  "live_key ''h1'' (w_db (after ext0 config0 [T_Issue_Key ''m1'' None, T_Revoke_Key ''m1'' ''k1'']
     [0, 1, 0, 1] (world0 (empty_db\<lparr>api_keys := [key0]\<rparr>)))) = None"
  using revoked_stays_revoked [OF inv_keys, of "[key0]" key0 ext0 config0
      "[T_Issue_Key ''m1'' None, T_Revoke_Key ''m1'' ''k1'']" "[0, 1, 0, 1]"]
  by (simp add: key0_def)

section \<open>What is sent\<close>

lemmas db_query_defs = get_payment_def find_payment_id_by_idempotency_key_def list_payments_def
  count_payments_def list_payments_keyset_def list_webhook_deliveries_keyset_def
  list_deliveries_for_merchant_def get_webhook_delivery_def memo_exists_def list_api_keys_def
  count_active_api_keys_def merchant_exists_def ping_def find_pending_by_memo_def
  sum_processed_stroops_def get_state_def list_redrivable_deliveries_def

lemmas db_update_defs = create_payment_def save_idempotency_key_def record_processed_tx_def
  update_payment_status_def set_state_def expire_overdue_def prune_webhook_deliveries_def
  compact_stale_failed_deliveries_def prune_idempotency_keys_def requeue_failed_deliveries_def
  create_merchant_def create_api_key_def revoke_api_key_def find_merchant_by_key_def

lemma sends_lift_db [proc_safe]: "obeys (sends good) p \<Longrightarrow> obeys (sends good) (lift_db p)"
  unfolding lift_db_def by (intro proc_safe)

lemma sends_small [proc_safe]:
  "obeys (sends good) (generate_api_key x)" "obeys (sends good) (http_get_within n u)"
  "obeys (sends good) cursor_age"
  by (auto simp: generate_api_key_def http_get_within_def cursor_age_def intro!: obeys_effect sends_same
      split: prod.split)

lemma sends_forP: "(\<And>a. a \<in> set as \<Longrightarrow> obeys R (f a)) \<Longrightarrow> obeys R (forP f as)"
  by (induction as) (auto intro!: proc_safe)

lemma sends_memo [proc_safe]: "obeys (sends good) (generate_memo n x)" "obeys (sends good) (await_winner n i)"
  by (induction n) (auto simp only: generate_memo.simps await_winner.simps db_query_defs intro!: proc_safe)

lemma sends_reconcile [proc_safe]: "obeys (sends (good_post x c)) (reconcile_payment x c hp)"
  unfolding reconcile_payment_def reconcile_matched_def settle_def db_query_defs db_update_defs
  by (intro proc_safe)

lemma sends_page [proc_safe]: "obeys (sends (good_post x c)) (reconcile_page x c hps cursor k)"
  by (induction hps arbitrary: cursor k) (auto simp only: reconcile_page.simps intro!: proc_safe)

lemma sends_pages [proc_safe]: "obeys (sends (good_post x c)) (poll_pages n x c cursor k)"
  by (induction n arbitrary: cursor k)
    (auto simp only: poll_pages.simps fetch_recent_payments_def db_update_defs intro!: proc_safe)

lemma sends_stream [proc_safe]: "obeys (sends (good_post x c)) (stream_once x c cursor)"
proof -
  have "obeys (sends (good_post x c)) (handle_blocks x c bs cur)" for bs cur
    by (induction bs arbitrary: cur)
      (auto simp only: handle_blocks.simps handle_stream_event_def intro!: proc_safe)
  then have "obeys (sends (good_post x c)) (stream_chunks x c chunks buf cur)" for chunks buf cur
    by (induction x c chunks buf cur rule: stream_chunks.induct)
      (auto intro!: proc_safe split: prod.split)
  then show ?thesis unfolding stream_once_def by (intro proc_safe)
qed

lemma sends_redeliver [proc_safe]: "obeys (sends (good_post x c)) (redeliver_webhook x c m i k)"
proof -
  have *: "obeys (sends (good_post x c)) (bindP (safe_client x c (d_url r)) (\<lambda>res.
      case res of Inl e \<Rightarrow> err e' | Inr cl \<Rightarrow> resend x c cl r))" for r e'
  proof (rule obeys_bind_results)
    fix res assume "res \<in> results (safe_client x c (d_url r))"
    then show "obeys (sends (good_post x c)) (case res of Inl e \<Rightarrow> err e' | Inr cl \<Rightarrow> resend x c cl r)"
      using good_post_of [of _ x c "d_url r"] unfolding resend_def
      by (cases res) (auto simp only: sum.case intro!: proc_safe)
  qed (rule proc_safe)
  then show ?thesis
    unfolding redeliver_webhook_def owned_payment_def db_query_defs 
    by (intro obeys_and_then obeys_case_option obeys_if obeys_Ret sends_lift_db sends_stmt *)
qed

lemma sends_drain_once [proc_safe]: "obeys (sends good) (prune_once c)"
  unfolding prune_once_def db_update_defs by (intro proc_safe)

lemma sends_redrive_once [proc_safe]: "obeys (sends (good_post x c)) (redrive_once x c)"
proof -
  have "obeys (sends (good_post x c)) (forP id (redrive_tasks x c rows))" for rows
    by (rule sends_forP) (auto simp: redrive_tasks_def intro: proc_safe)
  then show ?thesis
    unfolding redrive_once_def redrive_candidates_def db_query_defs by (intro proc_safe)
qed

lemma sends_task: "obeys (sends (good_post x c)) (task_proc x c t)"
  by (cases t)
    (auto simp only: task_proc.simps poll_once_def starting_cursor_def get_json_def sweep_once_def
      create_def check_webhook_url_def
      validate_def create_reserved_def replay_idempotent_def reserve_key_def mint_payment_def
      generate_unique_memo_def get_by_id_def list_handler_def list_webhooks_def list_merchant_webhooks_def
      owned_payment_def redeliver_webhooks_bulk_def provision_merchant_def issue_api_key_def
      list_api_keys_handler_def revoke_api_key_handler_def ready_def check_horizon_ready_def
      db_query_defs db_update_defs intro!: proc_safe sends_forP)

text \<open>
  C9: every webhook request any task starts carries the HMAC of its own timestamp and body under the
  configured secret, and goes to an address the SSRF guard accepted for that URL (an http or https URL
  with a host; no blocked address unless private targets are allowed). Every other request in the log was
  sent by following at most ten redirects from such a request: it repeats its signature, timestamp and
  event, and its body or none. Where it goes is not checked.
\<close>

theorem posts_are_signed_and_guarded:
  "\<exists>qs. w_posts (after x c ts sched w) = w_posts w @ qs \<and>
     (\<forall>q\<in>fst ` set qs. \<exists>origin\<in>fst ` set qs.
        q_signature origin = sign x (c_webhook_secret c) (q_timestamp origin) (q_body origin) \<and>
        (\<exists>u. x_url_parse x (q_url origin) = Some u \<and> (u_scheme u = ''http'' \<or> u_scheme u = ''https'')) \<and>
        (c_webhook_allow_private_targets c \<or> \<not> is_blocked_ip (fst (q_addr origin))) \<and>
        (q_redirects q = 0 \<longrightarrow> q = origin) \<and> q_redirects origin = 0 \<and> q_redirects q \<le> MAX_REDIRECTS \<and>
        q_signature q = q_signature origin \<and> q_timestamp q = q_timestamp origin \<and> q_event q = q_event origin \<and>
        (q_body q = q_body origin \<or> q_body q = []))"
proof -
  have "sends (good_post x c) w (after x c ts sched w)"
    unfolding after_def using sends_task
    by (intro sends.interleave_obeys [THEN conjunct1]) auto
  then obtain qs where qs: "w_posts (after x c ts sched w) = w_posts w @ qs"
    "\<forall>q\<in>set qs. \<exists>origin\<in>set qs. good_post x c (fst origin) \<and> derived_from (fst origin) (fst q)"
    unfolding sends_def by blast
  show ?thesis
  proof (intro exI conjI ballI)
    fix q assume "q \<in> fst ` set qs"
    with qs(2) obtain origin where "origin \<in> set qs" "good_post x c (fst origin)" "derived_from (fst origin) q" by blast
    then show "\<exists>origin\<in>fst ` set qs.
        q_signature origin = sign x (c_webhook_secret c) (q_timestamp origin) (q_body origin) \<and>
        (\<exists>u. x_url_parse x (q_url origin) = Some u \<and> (u_scheme u = ''http'' \<or> u_scheme u = ''https'')) \<and>
        (c_webhook_allow_private_targets c \<or> \<not> is_blocked_ip (fst (q_addr origin))) \<and>
        (q_redirects q = 0 \<longrightarrow> q = origin) \<and> q_redirects origin = 0 \<and> q_redirects q \<le> MAX_REDIRECTS \<and>
        q_signature q = q_signature origin \<and> q_timestamp q = q_timestamp origin \<and> q_event q = q_event origin \<and>
        (q_body q = q_body origin \<or> q_body q = [])"
      by (intro bexI [of _ "fst origin"]) (auto simp: good_post_def target_ok_def derived_from_def)
  qed (rule qs(1))
qed

lemma redeliver0: "length (w_posts (snd (run (task_proc ext0 config0 (T_Redeliver ''m1'' ''p1'' ''d1''))
    (world0 (db0\<lparr>webhook_deliveries := [delivery0]\<rparr>))))) = 1"
  unfolding task_proc.simps redeliver_webhook_def owned_payment_def lift_db_def get_payment_def
    get_webhook_delivery_def safe_client_def validate_def pinned_client_def resend_def
    current_timestamp_def and_then_def
  by (simp add: run_stmt world0_def env0_def db0_def Let_def payment0_def lookup_host_def
      build_client_def http_post_def row_to_payment_def delivery0_def row_to_webhook_delivery_def
      RESOLVE_TIMEOUT_def config0_def update_webhook_delivery_def is_success_def post_of_def
      get_clock_def advance_def split_beta noon0_def split: sum.split)

theorem posts_are_signed_and_guarded_witness:
  "\<exists>sched q. w_posts (after ext0 config0 [T_Redeliver ''m1'' ''p1'' ''d1''] sched
       (world0 (db0\<lparr>webhook_deliveries := [delivery0]\<rparr>))) = [q] \<and> \<not> is_blocked_ip (fst (q_addr (fst q)))"
proof -
  let ?t = "T_Redeliver ''m1'' ''p1'' ''d1''" let ?w = "world0 (db0\<lparr>webhook_deliveries := [delivery0]\<rparr>)"
  obtain n where n: "after ext0 config0 [?t] (replicate n 0) ?w = snd (run (task_proc ext0 config0 ?t) ?w)"
    using after_run by blast
  then obtain q where q: "w_posts (after ext0 config0 [?t] (replicate n 0) ?w) = [q]"
    using redeliver0 by (auto simp: length_Suc_conv)
  have "\<not> is_blocked_ip (fst (q_addr (fst q)))"
    using posts_are_signed_and_guarded [of ext0 config0 "[?t]" "replicate n 0" ?w] q
    by (simp add: config0_def world0_def)
  with q show ?thesis by blast
qed

end
