(* ===== verification/Tenancy.thy ===== *)
theory Tenancy
  imports Lifecycle
begin

text \<open>
  What the API lets a caller see and change: authentication, the two views of a payment, the listings
  and their paging, creation with idempotency keys, and key administration.
\<close>

section \<open>Reading through the database\<close>

lemma run_lift_db:
  "run (lift_db p) w = (case run p w of (Inl e, w') \<Rightarrow> (Inl (app_error e), w') | (Inr v, w') \<Rightarrow> (Inr v, w'))"
  by (auto simp: lift_db_def split: prod.splits sum.splits)

lemma run_lift_dbE:
  assumes "run (lift_db p) w = (r, w')"
  obtains (fails) e where "run p w = (Inl e, w')" "r = Inl (app_error e)"
    | (goes) v where "run p w = (Inr v, w')" "r = Inr v"
  using assms by (auto simp: run_lift_db split: prod.splits sum.splits)

lemma row_fields [simp]:
  "p_id (row_to_payment p) = p_id p" "p_merchant_id (row_to_payment p) = p_merchant_id p"
  "p_status (row_to_payment p) = p_status p" "p_amount (row_to_payment p) = p_amount p"
  by (simp_all add: row_to_payment_def)

lemma run_get_payment:
  assumes "run (get_payment i) w = (r, w')"
  shows "w_db w' = w_db w \<and> (\<forall>v. r = Inr v \<longrightarrow>
    v = map_option row_to_payment (find (\<lambda>p. p_id p = i) (payments (w_db w))))"
  using run_query [OF assms [unfolded get_payment_def]] by auto

lemma lift_get_payment:
  assumes "run (lift_db (get_payment i)) w = (Inr found, w')"
  shows "w_db w' = w_db w \<and> found = map_option row_to_payment (find (\<lambda>p. p_id p = i) (payments (w_db w)))"
  using assms by (cases rule: run_lift_dbE) (auto dest: run_get_payment)

text \<open>Authentication: the merchant returned is the owner of a key that is not revoked.\<close>

lemma run_find_merchant:
  assumes "run (find_merchant_by_key x raw) w = (Inr (Some m), w')"
  shows "\<exists>k\<in>set (api_keys (w_db w)). k_key_hash k = hash_api_key x raw \<and> k_revoked_at k = None \<and>
    k_merchant_id k = m"
  using assms unfolding find_merchant_by_key_def
proof (cases rule: run_and_thenE)
  case (goes row w1)
  from run_query(2) [OF goes(1) refl] have row: "row = live_key (hash_api_key x raw) (w_db w)" by simp
  with goes(2) obtain k where k: "live_key (hash_api_key x raw) (w_db w) = Some k" "k_merchant_id k = m"
    by (auto split: option.splits prod.splits sum.splits)
  then show ?thesis by (auto simp: live_key_def dest!: find_eq_SomeD)
qed simp

section \<open>Properties\<close>

text \<open>
  C17: the authenticated routes are only entered with the merchant of a live key: the middleware answers
  401 or 500 by itself, or the presented token hashes to an unrevoked key and the handler runs as that
  key's merchant.
\<close>

theorem auth_admits_live_keys:
  assumes "run (auth_middleware x authorization handler) w = (r, w')"
  shows "r = auth_error \<or> r = internal_error \<or>
    (\<exists>token k w1. bearer_token authorization = Some token \<and> k \<in> set (api_keys (w_db w)) \<and>
       k_key_hash k = hash_api_key x token \<and> k_revoked_at k = None \<and>
       run (handler (k_merchant_id k)) w1 = (r, w'))"
proof (cases "bearer_token authorization")
  case None
  with assms show ?thesis by (auto simp: auth_middleware_def split: prod.splits)
next
  case (Some token)
  obtain res w1 where res: "run (find_merchant_by_key x token) w = (res, w1)" by fastforce
  show ?thesis
  proof (cases "\<exists>m. res = Inr (Some m)")
    case True
    then obtain m where m: "res = Inr (Some m)" by blast
    then obtain w2 where "run (handler m) w2 = (r, w')"
      using assms Some res by (auto simp: auth_middleware_def split: prod.splits)
    with run_find_merchant [OF res [unfolded m]] Some show ?thesis by blast
  next
    case False
    with assms Some res show ?thesis
      by (auto simp: auth_middleware_def split: prod.splits sum.splits option.splits)
  qed
qed

definition merchant_db0 :: db where
  "merchant_db0 = db0\<lparr>api_keys := [key0\<lparr>k_revoked_at := None\<rparr>]\<rparr>"

theorem auth_admits_live_keys_witness:
  "let run0 = run (auth_middleware ext0 (Some ''Bearer h1'') (\<lambda>m. Ret (200, JStr m))) (world0 merchant_db0);
       r = fst run0; w' = snd run0 in
   r = auth_error \<or> r = internal_error \<or>
   (\<exists>token k w1. bearer_token (Some ''Bearer h1'') = Some token \<and>
      k \<in> set (api_keys (w_db (world0 merchant_db0))) \<and> k_key_hash k = hash_api_key ext0 token \<and>
      k_revoked_at k = None \<and> run (Ret (200, JStr (k_merchant_id k))) w1 = (r, w'))"
  unfolding Let_def by (rule auth_admits_live_keys) simp

text \<open>
  C16: what \<open>GET /payments/:id\<close> discloses: without a token exactly id, status and deadline; the full
  record only to the holder of a live key of the owning merchant; nothing else is ever answered 2xx.
\<close>

theorem payment_disclosure:
  assumes "run (get_by_id x authorization i) w = (Inr (status, body), w')"
  shows "status = 200 \<and> (\<exists>p\<in>set (payments (w_db w)). p_id p = i \<and>
    (bearer_token authorization = None \<and>
       body = JObj [(''id'', JStr i), (''status'', JStr (p_status p)),
                    (''expires_at'', JStr (normalize_ts (p_expires_at p)))] \<or>
     (\<exists>token k. bearer_token authorization = Some token \<and> k \<in> set (api_keys (w_db w)) \<and>
        k_key_hash k = hash_api_key x token \<and> k_revoked_at k = None \<and>
        k_merchant_id k = p_merchant_id p \<and> body = to_json (row_to_payment p))))"
  using assms unfolding get_by_id_def
proof (cases rule: run_and_thenE)
  case (goes found w1)
  note f = lift_get_payment [OF goes(1)]
  show ?thesis
  proof (cases "find (\<lambda>p. p_id p = i) (payments (w_db w))")
    case None
    with goes(2) f show ?thesis by simp
  next
    case (Some p)
    then have p: "p \<in> set (payments (w_db w))" "p_id p = i" using find_eq_SomeD by fastforce+
    show ?thesis
    proof (cases "bearer_token authorization")
      case None
      with goes(2) f Some p show ?thesis by (auto simp: public_view_def row_to_payment_def)
    next
      case t: (Some token)
      with goes(2) f Some have "run (and_then (lift_db (find_merchant_by_key x token)) (\<lambda>m.
          case m of
            Some merchant \<Rightarrow>
              if merchant = p_merchant_id p then ok (200, to_json (row_to_payment p))
              else err (not_found ''payment_not_found'')
          | None \<Rightarrow> err (Api_Error 401 ''unauthorized''))) w1 = (Inr (status, body), w')"
        by simp
      then show ?thesis
      proof (cases rule: run_and_thenE)
        case m: (goes v w2)
        then obtain merchant where v: "v = Some merchant" "merchant = p_merchant_id p" "status = 200"
          "body = to_json (row_to_payment p)"
          by (auto split: option.splits if_splits)
        from m(1) have "run (find_merchant_by_key x token) w1 = (Inr v, w2)"
          by (cases rule: run_lift_dbE) auto
        from run_find_merchant [OF this [unfolded v(1)]] f v t p show ?thesis by auto
      qed simp
    qed
  qed
qed simp


lemma find_payment0: "find (\<lambda>p. p_id p = ''p1'') (payments merchant_db0) = Some payment0"
  by (simp add: merchant_db0_def db0_def payment0_def)

lemma get_payment0: "run (get_payment ''p1'') (world0 merchant_db0) = (Inr (Some payment0), advance 0 (world0 merchant_db0))"
  using find_payment0 row_to_payment_ok [OF payment0_ok]
  by (simp add: get_payment_def run_stmt advance_def world0_def)

theorem payment_disclosure_witness:
  "\<exists>p\<in>set (payments merchant_db0). p_id p = ''p1'' \<and>
     run (get_by_id ext0 None ''p1'') (world0 merchant_db0) =
       (Inr (200, JObj [(''id'', JStr ''p1''), (''status'', JStr (p_status p)),
              (''expires_at'', JStr (normalize_ts (p_expires_at p)))]), advance 0 (world0 merchant_db0))"
proof -
  have run: "run (get_by_id ext0 None ''p1'') (world0 merchant_db0) =
      (Inr (200, public_view payment0), advance 0 (world0 merchant_db0))"
    by (simp add: get_by_id_def run_lift_db get_payment0 bearer_token_def)
  from payment_disclosure [OF this] obtain p where "p \<in> set (payments merchant_db0)" "p_id p = ''p1''"
    "public_view payment0 = JObj [(''id'', JStr ''p1''), (''status'', JStr (p_status p)),
       (''expires_at'', JStr (normalize_ts (p_expires_at p)))]"
    by (auto simp: bearer_token_def)
  with run show ?thesis by metis
qed

lemma set_order_desc [simp]: "set (order_desc key xs) = set xs"
  by (simp add: order_desc_def)

lemma length_sql_limit: "0 \<le> n \<Longrightarrow> length (sql_limit n xs) \<le> nat n"
  by (simp add: sql_limit_def)

lemma clamp_limit_range: "1 \<le> clamp_limit l \<and> clamp_limit l \<le> 100"
  by (simp add: clamp_limit_def MAX_LIMIT_def)

definition listable :: "string \<Rightarrow> string option \<Rightarrow> db \<Rightarrow> payment \<Rightarrow> bool" where
  "listable merchant status d p \<longleftrightarrow>
     (\<exists>q\<in>set (payments d). p = row_to_payment q \<and> p_merchant_id q = merchant \<and> status_is status (p_status q))"

lemma listed_page:
  assumes "ps = map row_to_payment (sql_limit limit xs)"
    and "\<And>q. q \<in> set xs \<Longrightarrow> q \<in> set (payments d) \<and> p_merchant_id q = m \<and> status_is st (p_status q)"
  shows "(\<forall>p\<in>set ps. listable m st d p) \<and> (0 \<le> limit \<longrightarrow> length ps \<le> nat limit)"
  using assms by (auto simp: listable_def length_sql_limit dest!: set_sql_limit)

lemma run_list_payments:
  assumes "run (list_payments m st limit off) w = (Inr ps, w')"
  shows "(\<forall>p\<in>set ps. listable m st (w_db w) p) \<and> (0 \<le> limit \<longrightarrow> length ps \<le> nat limit)"
  using run_query(2) [OF assms [unfolded list_payments_def] refl]
  by (intro listed_page) (auto simp: sql_offset_def dest!: in_set_dropD)

lemma run_list_keyset:
  assumes "run (list_payments_keyset m st limit cur) w = (Inr ps, w')"
  shows "(\<forall>p\<in>set ps. listable m st (w_db w) p) \<and> (0 \<le> limit \<longrightarrow> length ps \<le> nat limit)"
  using run_query(2) [OF assms [unfolded list_payments_keyset_def select_keyset_def] refl]
  by (intro listed_page) auto

text \<open>
  A listing only contains the caller's payments, in the requested status, and at most as many as
  the clamped limit (between 1 and 100).
\<close>

theorem listing_isolation:
  assumes "run (list_handler x merchant q) w = (Inr (status, body), w')"
  shows "\<exists>ps rest. body = JObj ((''payments'', JArr (map to_json ps)) # rest) \<and> length ps \<le> 100 \<and>
    (\<forall>p\<in>set ps. p_merchant_id p = merchant \<and> status_is (lq_status q) (p_status p))"
proof -
  let ?limit = "clamp_limit (lq_limit q)"
  have lim: "0 \<le> ?limit" "nat ?limit \<le> 100" using clamp_limit_range [of "lq_limit q"] by linarith+
  have fin: ?thesis if "\<forall>p\<in>set ps. listable merchant (lq_status q) d p" "length ps \<le> nat ?limit"
    "body = JObj ((''payments'', JArr (map to_json ps)) # rest)" for ps d rest
    using that lim by (intro exI [of _ ps] exI [of _ rest]) (auto simp: listable_def)
  show ?thesis
  proof (cases "lq_cursor q")
    case (Some raw)
    with assms obtain cur where "run (and_then (lift_db (list_payments_keyset merchant (lq_status q) ?limit (Some cur)))
        (\<lambda>ps. ok (200, JObj [(''payments'', JArr (map to_json ps)), (''limit'', JInt ?limit),
          (''next_cursor'', json_opt (next_cursor x payment_order ?limit ps))]))) w = (Inr (status, body), w')"
      by (auto simp: list_handler_def Let_def split: if_splits option.splits)
    then show ?thesis
    proof (cases rule: run_and_thenE)
      case (goes ps w1)
      then have "run (list_payments_keyset merchant (lq_status q) ?limit (Some cur)) w = (Inr ps, w1)"
        by (auto elim: run_lift_dbE)
      from run_list_keyset [OF this] goes(2) lim show ?thesis by (intro fin [of ps]) auto
    qed simp
  next
    case None
    define off where "off = max (case lq_offset q of Some o' \<Rightarrow> o' | None \<Rightarrow> 0) 0"
    from assms None have "run (and_then (lift_db (list_payments merchant (lq_status q) ?limit off)) (\<lambda>ps.
        let body = [(''payments'', JArr (map to_json ps)), (''limit'', JInt ?limit), (''offset'', JInt off),
               (''next_cursor'', json_opt (next_cursor x payment_order ?limit ps))] in
            if lq_include_total q = Some True
            then and_then (lift_db (count_payments merchant (lq_status q)))
                   (\<lambda>n. ok (200, JObj (body @ [(''total'', JInt n)])))
            else ok (200, JObj body))) w = (Inr (status, body), w')"
      unfolding list_handler_def off_def Let_def option.case by (simp split: if_splits)
    then show ?thesis
    proof (cases rule: run_and_thenE)
      case (goes ps w1)
      then have "run (list_payments merchant (lq_status q) ?limit off) w = (Inr ps, w1)"
        by (auto elim: run_lift_dbE)
      from run_list_payments [OF this] have ps: "\<forall>p\<in>set ps. listable merchant (lq_status q) (w_db w) p"
        "length ps \<le> nat ?limit" using lim by auto
      from goes(2) have "\<exists>rest. body = JObj ((''payments'', JArr (map to_json ps)) # rest)"
        by (auto simp: Let_def split: if_splits prod.splits sum.splits)
      then show ?thesis using ps fin by blast
    qed simp
  qed
qed

definition query0 :: list_query where
  "query0 = \<lparr>lq_status = None, lq_limit = None, lq_offset = None, lq_cursor = None, lq_include_total = None\<rparr>"

theorem listing_isolation_witness:
  "\<exists>body w'. run (list_handler ext0 ''m1'' query0) (world0 merchant_db0) = (Inr (200, body), w') \<and>
     (\<exists>ps rest. body = JObj ((''payments'', JArr (map to_json ps)) # rest) \<and> length ps \<le> 100 \<and>
        (\<forall>p\<in>set ps. p_merchant_id p = ''m1'' \<and> status_is (lq_status query0) (p_status p)))"
proof -
  have "\<exists>body w'. run (list_handler ext0 ''m1'' query0) (world0 merchant_db0) = (Inr (200, body), w')"
    by (simp add: list_handler_def query0_def Let_def run_lift_db list_payments_def run_stmt)
  then obtain body w' where "run (list_handler ext0 ''m1'' query0) (world0 merchant_db0) = (Inr (200, body), w')"
    by blast
  with listing_isolation [OF this] show ?thesis by blast
qed

text \<open>
  C24: bulk redelivery touches only the caller's own failed deliveries (those named, when ids are
  given): each becomes pending with no attempts and is acknowledged; every other delivery row, and the
  order of the rows, stays as it was.
\<close>

theorem requeue_isolation:
  assumes "run (redeliver_webhooks_bulk merchant ids) w = (r, w')"
  shows "length (webhook_deliveries (w_db w')) = length (webhook_deliveries (w_db w)) \<and>
    (\<forall>i < length (webhook_deliveries (w_db w)).
       let a = webhook_deliveries (w_db w) ! i; b = webhook_deliveries (w_db w') ! i in
       b = a \<or> owned_by merchant (w_db w) a \<and> d_status a = ''failed'' \<and>
               (case ids of Some (j # js) \<Rightarrow> d_id a \<in> set (j # js) | _ \<Rightarrow> True) \<and>
               (\<exists>ack. b = a\<lparr>d_status := ''pending'', d_attempts := 0, d_acknowledged_at := ack\<rparr>))"
proof -
  define l where "l = (case ids of Some l \<Rightarrow> l | None \<Rightarrow> [])"
  show ?thesis
  proof (cases "MAX_BULK_DELIVERY_IDS < length l")
    case True
    with assms show ?thesis by (simp add: redeliver_webhooks_bulk_def l_def Let_def)
  next
    case False
    with assms obtain v where "run (requeue_failed_deliveries merchant l) w = (v, w')"
      by (auto simp: redeliver_webhooks_bulk_def l_def Let_def run_lift_db split: prod.splits sum.splits)
    from run_stmtD [OF this [unfolded requeue_failed_deliveries_def]]
    have "w_db w' = w_db w \<or> webhook_deliveries (w_db w') = update_where
        (\<lambda>r. d_status r = ''failed'' \<and> owned_by merchant (w_db w) r \<and> (l \<noteq> [] \<longrightarrow> d_id r \<in> set l))
        (\<lambda>r. r\<lparr>d_status := ''pending'', d_attempts := 0, d_acknowledged_at := strftime_z (now_secs w')\<rparr>)
        (webhook_deliveries (w_db w))"
      by (auto simp: requeue_rows_def Let_def dest!: sym [of _ "w_db w'"])
    then show ?thesis
      by (auto simp: update_where_def Let_def l_def split: option.splits list.splits if_splits)
  qed
qed

definition delivery_db0 :: db where
  "delivery_db0 = merchant_db0\<lparr>webhook_deliveries := [delivery0]\<rparr>"

theorem requeue_isolation_witness:
  "webhook_deliveries (w_db (snd (run (redeliver_webhooks_bulk ''m2'' None) (world0 delivery_db0)))) = [delivery0]"
proof -
  let ?w = "snd (run (redeliver_webhooks_bulk ''m2'' None) (world0 delivery_db0))"
  have "run (redeliver_webhooks_bulk ''m2'' None) (world0 delivery_db0) =
      (fst (run (redeliver_webhooks_bulk ''m2'' None) (world0 delivery_db0)), ?w)" by simp
  from requeue_isolation [OF this]
  have "length (webhook_deliveries (w_db ?w)) = 1 \<and> (webhook_deliveries (w_db ?w) ! 0 = delivery0 \<or>
      owned_by ''m2'' delivery_db0 delivery0)"
    by (auto simp: delivery_db0_def Let_def)
  moreover have "\<not> owned_by ''m2'' delivery_db0 delivery0"
    by (simp add: owned_by_def delivery_db0_def merchant_db0_def db0_def payment0_def)
  ultimately show ?thesis by (auto simp: length_Suc_conv)
qed

section \<open>Cursors and paging\<close>

text \<open>
  The opaque cursor round-trips: decoding what was encoded gives back the timestamp and the id,
  provided they are text without a tab, which stored timestamps are.
\<close>

theorem cursor_round_trip:
  assumes "hex_ok x" "utf8_valid (ts @ TAB # i)" "TAB \<notin> set ts"
  shows "decode_cursor x (encode_cursor x ts i) = Some (ts, i)"
  using assms by (simp add: decode_cursor_def encode_cursor_def hex_ok_def split_once_Some)

theorem cursor_round_trip_witness:
  "decode_cursor ext0 (encode_cursor ext0 ''2000-01-01T00:00:00Z'' ''p1'') = Some (''2000-01-01T00:00:00Z'', ''p1'')"
  by (rule cursor_round_trip [OF hex_ok_ext0]) (simp_all add: byte_def)

text \<open>
  A client that reads a listing page by page: it takes the payments of an answer and asks again with the
  cursor in it, until an answer has none. The first argument bounds the number of requests.
\<close>

definition page_items :: "(string \<times> json) list \<Rightarrow> json list" where
  "page_items fs = (case map_of fs ''payments'' of Some (JArr js) \<Rightarrow> js | _ \<Rightarrow> [])"

fun collect_pages :: "nat \<Rightarrow> ext \<Rightarrow> string \<Rightarrow> list_query \<Rightarrow> json list api" where
  "collect_pages 0 x merchant q = ok []"
| "collect_pages (Suc k) x merchant q =
     and_then (list_handler x merchant q) (\<lambda>(status, body).
       case body of
         JObj fs \<Rightarrow>
           (case map_of fs ''next_cursor'' of
              Some (JStr cursor) \<Rightarrow>
                and_then (collect_pages k x merchant (q\<lparr>lq_cursor := Some cursor\<rparr>)) (\<lambda>rest.
                  ok (page_items fs @ rest))
            | _ \<Rightarrow> ok (page_items fs))
       | _ \<Rightarrow> ok [])"

lemma before_cursor_less: "before_cursor (Some c) k \<longleftrightarrow> k < c"
  by (cases c; cases k) (auto simp: before_cursor_def)

lemma order_desc_filter: "order_desc key (filter P xs) = filter P (order_desc key xs)"
  by (simp add: order_desc_def rev_filter [symmetric] filter_sort)

lemma order_desc_strict:
  assumes "distinct (map key xs)"
  shows "sorted_wrt (\<lambda>a b. key b < key a) (order_desc key xs)"
proof -
  let ?ys = "sort_key key (rev xs)"
  have "sorted_wrt (<) (map key ?ys)"
    using assms sorted_sort_key [of key "rev xs"]
    by (simp add: strict_sorted_iff distinct_map)
  then have "sorted_wrt (\<lambda>a b. key a < key b) ?ys" by (simp add: sorted_wrt_map)
  then show ?thesis by (simp add: order_desc_def sorted_wrt_rev)
qed

lemma filter_after_last:
  assumes "sorted_wrt (\<lambda>a b. key b < (key a :: 'k :: linorder)) (as @ bs)" "as \<noteq> []"
  shows "filter (\<lambda>a. key a < key (last as)) (as @ bs) = bs"
proof -
  have "\<not> key a < key (last as)" if "a \<in> set as" for a
    using assms that by (induction as) (auto simp: sorted_wrt_append dest: less_asym split: if_splits)
  moreover have "key b < key (last as)" if "b \<in> set bs" for b
    using assms that by (auto simp: sorted_wrt_append)
  ultimately show ?thesis by (simp add: filter_empty_conv)
qed

lemma keyset_page:
  fixes m st d
  defines "L \<equiv> order_desc payment_order (filter (\<lambda>p. p_merchant_id p = m \<and> status_is st (p_status p)) (payments d))"
  assumes "sorted_wrt (\<lambda>a b. payment_order b < payment_order a) L" "1 \<le> limit"
    and "L = as @ bs" "cur = (if as = [] then None else Some (payment_order (last as)))"
  shows "select_keyset m st limit cur d = take (nat limit) bs"
proof -
  have "filter (\<lambda>p. before_cursor cur (payment_order p)) L = bs"
    using filter_after_last [of payment_order as bs] assms(2,4,5)
    by (cases "as = []") (simp_all add: before_cursor_less before_cursor_def [of None] cong: filter_cong)
  then show ?thesis
    using assms(3) by (simp add: select_keyset_def L_def sql_limit_def order_desc_filter [symmetric] conj_ac)
qed

lemma utf8_ascii: "(\<forall>c\<in>set s. byte c < 0x80) \<Longrightarrow> utf8_valid (s @ t) = utf8_valid t"
  by (induction s) simp_all

lemma payment_cursor:
  assumes "hex_ok x" "payment_ok p" "utf8_valid (p_id p)"
  shows "decode_cursor x (encode_cursor x (fst (payment_order p)) (snd (payment_order p))) = Some (payment_order p)"
proof -
  obtain t where "strftime_z t = Some (p_created_at p)"
    using assms(2) by (auto simp: payment_ok_def is_ts_def split: option.splits)
  from strftime_ascii [OF this] have "\<forall>c\<in>set (p_created_at p @ [TAB]). byte c < 0x80" "TAB \<notin> set (p_created_at p)"
    by (auto simp: byte_def)
  then have "utf8_valid (p_created_at p @ TAB # p_id p)" "TAB \<notin> set (p_created_at p)"
    using utf8_ascii [of "p_created_at p @ [TAB]" "p_id p"] assms(3) by simp_all
  then show ?thesis
    using assms(1) by (simp add: decode_cursor_def encode_cursor_def hex_ok_def split_once_Some payment_order_def)
qed

lemma run_lift_query_healthy:
  assumes "healthy D w" "p = query (\<lambda>now d. Inr (g d))"
  obtains w' where "run (lift_db p) w = (Inr (g (w_db w)), w')" "w_db w' = w_db w" "healthy D w'"
proof -
  obtain r w' where r: "run p w = (r, w')" by fastforce
  from run_stmt_healthy [OF assms(1) r [unfolded assms(2)]] have "r = Inr (g (w_db w))" "w_db w' = w_db w" "healthy D w'" by auto
  with r show ?thesis by (intro that) (simp_all add: run_lift_db)
qed

text \<open>One answer of the listing while the database answers: the page after the cursor, and the next cursor.\<close>

lemma list_handler_page:
  assumes "healthy D w" "\<forall>s. lq_status q = Some s \<longrightarrow> s \<in> set VALID_STATUSES" "lq_offset q = None"
    and "case lq_cursor q of None \<Rightarrow> cur = None | Some raw \<Rightarrow> decode_cursor x raw = cur \<and> cur \<noteq> None"
  shows "\<exists>fs w'. run (list_handler x m q) w = (Inr (200, JObj fs), w') \<and> w_db w' = w_db w \<and> healthy D w' \<and>
    (let ps = map row_to_payment (select_keyset m (lq_status q) (clamp_limit (lq_limit q)) cur (w_db w)) in
     page_items fs = map to_json ps \<and>
     map_of fs ''next_cursor'' = Some (json_opt (next_cursor x payment_order (clamp_limit (lq_limit q)) ps)))"
proof -
  have v: "\<not> (\<exists>s. lq_status q = Some s \<and> s \<notin> set VALID_STATUSES)" using assms(2) by blast
  let ?l = "clamp_limit (lq_limit q)"
  show ?thesis
  proof (cases "lq_cursor q")
    case (Some raw)
    with assms(4) obtain c where c: "decode_cursor x raw = Some c" "cur = Some c" by auto
    obtain w1 where w1: "run (lift_db (list_payments_keyset m (lq_status q) ?l (Some c))) w =
        (Inr (map row_to_payment (select_keyset m (lq_status q) ?l (Some c) (w_db w))), w1)" "w_db w1 = w_db w" "healthy D w1"
      using run_lift_query_healthy [OF assms(1) list_payments_keyset_def] by blast
    with v Some c show ?thesis unfolding list_handler_def by (simp add: page_items_def Let_def)
  next
    case None
    let ?first = "\<lambda>d. map row_to_payment (sql_limit ?l (sql_offset 0 (order_desc payment_order (filter
        (\<lambda>p. p_merchant_id p = m \<and> status_is (lq_status q) (p_status p)) (payments d)))))"
    have "?first (w_db w) = map row_to_payment (select_keyset m (lq_status q) ?l None (w_db w))"
      by (simp add: select_keyset_def before_cursor_def sql_offset_def)
    moreover obtain w1 where "run (lift_db (list_payments m (lq_status q) ?l 0)) w = (Inr (?first (w_db w)), w1)"
        "w_db w1 = w_db w" "healthy D w1"
      by (rule run_lift_query_healthy [OF assms(1) list_payments_def])
    ultimately have w1: "run (lift_db (list_payments m (lq_status q) ?l 0)) w =
        (Inr (map row_to_payment (select_keyset m (lq_status q) ?l None (w_db w))), w1)" "w_db w1 = w_db w" "healthy D w1"
      by (simp_all only:)
    obtain n w2 where w2: "run (lift_db (count_payments m (lq_status q))) w1 = (Inr n, w2)" "w_db w2 = w_db w1" "healthy D w2"
      using run_lift_query_healthy [OF w1(3) count_payments_def] by blast
    from None assms(4) have "cur = None" by simp
    with v None assms(3) w1 w2 show ?thesis
      unfolding list_handler_def by (cases "lq_include_total q = Some True") (simp_all add: page_items_def Let_def)
  qed
qed

lemma map_row_ok: "(\<And>p. p \<in> set ps \<Longrightarrow> payment_ok p) \<Longrightarrow> map row_to_payment ps = ps"
  by (intro map_idI) (simp add: row_to_payment_ok)

lemma collect_suffix:
  fixes m q d
  defines "L \<equiv> order_desc payment_order (filter (\<lambda>p. p_merchant_id p = m \<and> status_is (lq_status q) (p_status p)) (payments d))"
  assumes x: "hex_ok x" and L: "sorted_wrt (\<lambda>a b. payment_order b < payment_order a) L"
    and ok: "\<And>p. p \<in> set L \<Longrightarrow> payment_ok p \<and> utf8_valid (p_id p)"
    and q: "\<forall>s. lq_status q = Some s \<longrightarrow> s \<in> set VALID_STATUSES" "lq_offset q = None"
  shows "healthy D w \<Longrightarrow> w_db w = d \<Longrightarrow> L = as @ bs \<Longrightarrow> length bs < k \<Longrightarrow>
    raw = (if as = [] then None
      else Some (encode_cursor x (fst (payment_order (last as))) (snd (payment_order (last as))))) \<Longrightarrow>
    fst (run (collect_pages k x m (q\<lparr>lq_cursor := raw\<rparr>)) w) = Inr (map to_json bs)"
proof (induction k arbitrary: as bs raw w)
  case (Suc k)
  let ?l = "clamp_limit (lq_limit q)" let ?q = "q\<lparr>lq_cursor := raw\<rparr>" let ?page = "take (nat (clamp_limit (lq_limit q))) bs"
  define cur where "cur = (if as = [] then None else Some (payment_order (last as)))"
  have last: "payment_ok (last as) \<and> utf8_valid (p_id (last as))" if "as \<noteq> []" using that ok Suc.prems(3) by simp
  have lim: "1 \<le> ?l" "0 < nat ?l" using clamp_limit_range [of "lq_limit q"] by auto
  have "case raw of None \<Rightarrow> cur = None | Some r \<Rightarrow> decode_cursor x r = cur \<and> cur \<noteq> None"
    using Suc.prems(5) payment_cursor [OF x] last by (simp add: cur_def)
  with list_handler_page [of D w ?q cur x m] Suc.prems(1,2) q
  obtain fs w' where h: "run (list_handler x m ?q) w = (Inr (200, JObj fs), w')" "w_db w' = d" "healthy D w'"
    "page_items fs = map to_json (map row_to_payment (select_keyset m (lq_status q) ?l cur d))"
    "map_of fs ''next_cursor'' = Some (json_opt (next_cursor x payment_order ?l
       (map row_to_payment (select_keyset m (lq_status q) ?l cur d))))"
    by (auto simp: Let_def)
  have "select_keyset m (lq_status q) ?l cur d = ?page"
    using keyset_page [of m "lq_status q" d ?l as bs cur] L lim(1) Suc.prems(3) by (simp add: L_def cur_def)
  moreover have "map row_to_payment ?page = ?page"
    using ok Suc.prems(3) by (intro map_row_ok) (auto dest: in_set_takeD)
  ultimately have items: "page_items fs = map to_json ?page"
    and cursor: "map_of fs ''next_cursor'' = Some (json_opt (next_cursor x payment_order ?l ?page))"
    using h(4,5) by simp_all
  show ?case
  proof (cases "length ?page = nat ?l")
    case True
    then have ne: "?page \<noteq> []" using lim(2) by (metis list.size(3) less_irrefl)
    define c where "c = encode_cursor x (fst (payment_order (last ?page))) (snd (payment_order (last ?page)))"
    have "fst (run (collect_pages k x m (q\<lparr>lq_cursor := Some c\<rparr>)) w') = Inr (map to_json (drop (nat ?l) bs))"
      by (rule Suc.IH [OF h(3,2), of "as @ ?page"]) (use Suc.prems(3,4) ne lim(2) True in \<open>auto simp: c_def\<close>)
    then obtain w2 where r: "run (collect_pages k x m (q\<lparr>lq_cursor := Some c\<rparr>)) w' = (Inr (map to_json (drop (nat ?l) bs)), w2)"
      by (metis prod.collapse)
    have "map_of fs ''next_cursor'' = Some (JStr c)"
      using cursor True ne by (simp add: next_cursor_def json_opt_def c_def)
    then show ?thesis
      using h(1) r items by (simp flip: map_append add: run_and_then)
  next
    case False
    then have "?page = bs" by simp
    moreover have "map_of fs ''next_cursor'' = Some JNull" using cursor False by (simp add: next_cursor_def json_opt_def)
    ultimately show ?thesis using h(1) items by simp
  qed
qed simp

lemma payment_order_distinct: "distinct (map p_id ps) \<Longrightarrow> distinct (map payment_order (filter P ps))"
  by (auto simp: distinct_map inj_on_def payment_order_def)

text \<open>
  C10: paging is complete: a client that starts without a cursor and follows the cursors in the answers
  receives exactly its payments in the requested status, newest first, each once, whatever the page
  size and however many payments share a timestamp, while the database answers and no payment changes
  in between.
\<close>

theorem paging_complete:
  assumes "hex_ok x" "db_ok (w_db w)" "healthy D w" "\<forall>p\<in>set (payments (w_db w)). utf8_valid (p_id p)"
    and "\<forall>s. lq_status q = Some s \<longrightarrow> s \<in> set VALID_STATUSES" "lq_offset q = None" "lq_cursor q = None"
    and "length (payments (w_db w)) < k"
  shows "fst (run (collect_pages k x merchant q) w) = Inr (map to_json (order_desc payment_order
    (filter (\<lambda>p. p_merchant_id p = merchant \<and> status_is (lq_status q) (p_status p)) (payments (w_db w)))))"
proof -
  let ?P = "\<lambda>p. p_merchant_id p = merchant \<and> status_is (lq_status q) (p_status p)"
  let ?L = "order_desc payment_order (filter ?P (payments (w_db w)))"
  have "distinct (map p_id (payments (w_db w)))" using assms(2) by (simp add: db_ok_def)
  then have "sorted_wrt (\<lambda>a b. payment_order b < payment_order a) ?L"
    by (intro order_desc_strict payment_order_distinct)
  moreover have "payment_ok p \<and> utf8_valid (p_id p)" if "p \<in> set ?L" for p
    using that assms(2,4) by (auto simp: order_desc_def db_ok_def)
  moreover have "length ?L < k"
    using le_less_trans [OF length_filter_le [of ?P] assms(8)] by (simp add: order_desc_def)
  ultimately have "fst (run (collect_pages k x merchant (q\<lparr>lq_cursor := None\<rparr>)) w) = Inr (map to_json ?L)"
    by (intro collect_suffix [of x merchant q "w_db w" D w "[]"]) (use assms in auto)
  moreover have "q\<lparr>lq_cursor := None\<rparr> = q" using assms(7) by simp
  ultimately show ?thesis by simp
qed

lemma healthy_world0: "healthy 0 (world0 d)"
  by (simp add: healthy_def)

theorem paging_complete_witness:
  "fst (run (collect_pages 2 ext0 ''m1'' (query0\<lparr>lq_limit := Some 1\<rparr>)) (world0 db0)) = Inr [to_json payment0]"
proof -
  have ok: "db_ok (w_db (world0 db0))" using inv0 by (simp add: world_inv_def db_inv_def)
  have "order_desc payment_order (filter (\<lambda>p. p_merchant_id p = ''m1'' \<and> status_is None (p_status p)) (payments db0)) = [payment0]"
    by (simp add: db0_def payment0_def status_is_def order_desc_def)
  with paging_complete [OF hex_ok_ext0 ok healthy_world0, of "query0\<lparr>lq_limit := Some 1\<rparr>" 2 "''m1''"]
  show ?thesis by (simp add: query0_def db0_def payment0_def byte_def)
qed

end
