(* ===== verification/Creation.thy ===== *)
theory Creation
  imports Tenancy
begin

text \<open>
  Creating intents and administering keys: what \<open>POST /payments\<close> stores and answers, how an idempotency
  key replays, that revocation keeps a key, and the races the handlers leave open.
\<close>

section \<open>Steps before the insert\<close>

lemma keeps_books_lift [proc_safe]: "obeys keeps_books p \<Longrightarrow> obeys keeps_books (lift_db p)"
  unfolding lift_db_def by (intro proc_safe)

lemma keeps_books_query [proc_safe]: "obeys keeps_books (query f)"
  by (rule keeps_books_stmt) simp

lemma keeps_books_check_url [proc_safe]: "obeys keeps_books (check_webhook_url x c u)"
  unfolding check_webhook_url_def validate_def by (intro proc_safe)

lemma keeps_books_replay [proc_safe]: "obeys keeps_books (replay_idempotent m idem)"
  unfolding replay_idempotent_def find_payment_id_by_idempotency_key_def get_payment_def
  by (intro proc_safe keeps_books_stmt) (simp add: delete_idempotency_rows_def)

lemma keeps_books_await [proc_safe]: "obeys keeps_books (await_winner n i)"
  by (induction n) (auto simp only: await_winner.simps get_payment_def intro!: proc_safe)

lemma keeps_books_reserve [proc_safe]: "obeys keeps_books (reserve_key m idem i)"
  unfolding reserve_key_def save_idempotency_key_def find_payment_id_by_idempotency_key_def
  by (intro proc_safe keeps_books_stmt) (simp add: insert_idempotency_key_def split: option.split)

lemma keeps_books_memo [proc_safe]: "obeys keeps_books (generate_memo n x)"
  by (induction n) (auto simp only: generate_memo.simps memo_exists_def intro!: proc_safe)

lemma books_run: "obeys keeps_books p \<Longrightarrow> run p w = (r, w') \<Longrightarrow> keeps_books w w'"
  using books.run_obeys [of p w] by simp

text \<open>The row that a request asks for, stored at second \<open>now\<close>.\<close>

definition new_row :: "new_payment \<Rightarrow> string \<Rightarrow> string \<Rightarrow> string \<Rightarrow> payment" where
  "new_row n amount ts expires =
     \<lparr>p_id = n_id n, p_merchant_id = n_merchant_id n, p_destination_address = n_destination_address n,
      p_memo = n_memo n, p_amount = amount, p_asset = n_asset n, p_status = ''pending'',
      p_webhook_url = n_webhook_url n, p_tx_hash = None, p_paid_amount = None,
      p_created_at = ts, p_updated_at = ts, p_expires_at = expires, p_asset_issuer = n_asset_issuer n\<rparr>"

lemma insert_payment_cases:
  assumes "insert_payment n amount now d = (Inr u, d')"
  shows "\<exists>ts expires. strftime_z now = Some ts \<and> strftime_z (now + n_ttl_secs n) = Some expires \<and>
    (\<forall>p\<in>set (payments d). p_id p \<noteq> n_id n \<and> p_memo p \<noteq> n_memo n) \<and>
    d' = d\<lparr>payments := payments d @ [new_row n amount ts expires]\<rparr>"
  using assms by (auto simp: insert_payment_def new_row_def split: option.splits if_splits)

lemma run_create_payment:
  assumes "run (create_payment n) w = (Inr p, w')"
  shows "\<exists>amount now ts expires. parse_stroops (n_amount n) = Some amount \<and>
    strftime_z now = Some ts \<and> strftime_z (now + n_ttl_secs n) = Some expires \<and>
    payments (w_db w') = payments (w_db w) @ [new_row n (stroops_to_string amount) ts expires] \<and>
    processed_transactions (w_db w') = processed_transactions (w_db w) \<and>
    (\<forall>p\<in>set (payments (w_db w)). p_id p \<noteq> n_id n \<and> p_memo p \<noteq> n_memo n) \<and>
    p = new_row n (stroops_to_string amount) ts expires"
proof -
  obtain amount where a: "parse_stroops (n_amount n) = Some amount"
    using assms by (auto simp: create_payment_def split: option.splits)
  with assms have "run (and_then (stmt (insert_payment n (stroops_to_string amount))) (\<lambda>_.
      and_then (get_payment (n_id n)) (\<lambda>found. case found of Some p \<Rightarrow> ok p
        | None \<Rightarrow> err (Msg ''Payment not found after insert'')))) w = (Inr p, w')"
    by (simp add: create_payment_def)
  then show ?thesis
  proof (cases rule: run_and_thenE)
    case (goes u w1)
    obtain ts expires where ins: "strftime_z (now_secs w1) = Some ts"
      "strftime_z (now_secs w1 + n_ttl_secs n) = Some expires"
      "\<forall>p\<in>set (payments (w_db w)). p_id p \<noteq> n_id n \<and> p_memo p \<noteq> n_memo n"
      "w_db w1 = (w_db w)\<lparr>payments := payments (w_db w) @ [new_row n (stroops_to_string amount) ts expires]\<rparr>"
      using insert_payment_cases [OF run_stmt_Inr [OF goes(1)]] by blast
    let ?row = "new_row n (stroops_to_string amount) ts expires"
    have f: "find (\<lambda>p. p_id p = n_id n) (payments (w_db w1)) = Some ?row"
      using ins(3) by (auto simp: ins(4) find_append new_row_def find_eq_None split: option.splits
        dest!: find_eq_SomeD)
    have norm: "row_to_payment ?row = ?row"
      using is_ts_normal [OF is_ts_strftime [OF ins(1)]] is_ts_normal [OF is_ts_strftime [OF ins(2)]]
      by (simp add: row_to_payment_def new_row_def)
    from goes(2) show ?thesis
    proof (cases rule: run_and_thenE)
      case g: (goes found w2)
      from run_get_payment [OF g(1)] f norm have "w_db w2 = w_db w1" "found = Some ?row" by auto
      with g(2) a ins show ?thesis by auto
    qed simp
  qed simp
qed

text \<open>One new intent was stored for this request, priced in the accepted asset \<open>a\<close>.\<close>

definition minted ::
  "config \<Rightarrow> string \<Rightarrow> create_request \<Rightarrow> accepted_asset \<Rightarrow> db \<Rightarrow> db \<Rightarrow> json \<Rightarrow> bool" where
  "minted c merchant body a d d' resp \<longleftrightarrow>
     (\<exists>p amount now.
        payments d' = payments d @ [p] \<and> resp = to_json p \<and>
        (\<forall>p'\<in>set (payments d). p_id p' \<noteq> p_id p \<and> p_memo p' \<noteq> p_memo p) \<and>
        processed_transactions d' = processed_transactions d \<and>
        p_merchant_id p = merchant \<and> p_status p = ''pending'' \<and>
        p_destination_address p = c_gateway_public c \<and>
        parse_stroops (cr_amount body) = Some amount \<and> p_amount p = stroops_to_string amount \<and>
        p_asset p = a_code a \<and> p_asset_issuer p = a_issuer a \<and> p_webhook_url p = cr_webhook_url body \<and>
        strftime_z now = Some (p_created_at p) \<and>
        strftime_z (now + wrap_i64 (int (c_payment_ttl_secs c))) = Some (p_expires_at p))"

lemma minted_books: "keeps_books w w1 \<Longrightarrow> minted c m body a (w_db w1) d' resp \<Longrightarrow> minted c m body a (w_db w) d' resp"
  by (simp add: minted_def keeps_books_def)

lemma run_mint_payment:
  assumes "run (mint_payment x c merchant body (a_code a) (a_issuer a) i) w = (Inr (status, resp), w')"
  shows "status = 201 \<and> minted c merchant body a (w_db w) (w_db w') resp"
  using assms unfolding mint_payment_def
proof (cases rule: run_and_thenE)
  case g1: (goes memo w1)
  note k = books_run [OF keeps_books_memo g1(1) [unfolded generate_unique_memo_def]]
  from g1(2) show ?thesis
  proof (cases rule: run_and_thenE)
    case g2: (goes p w2)
    from g2(1) have "run (create_payment \<lparr>n_id = i, n_merchant_id = merchant,
        n_destination_address = c_gateway_public c, n_memo = memo, n_amount = cr_amount body,
        n_asset = a_code a, n_asset_issuer = a_issuer a, n_webhook_url = cr_webhook_url body,
        n_ttl_secs = wrap_i64 (int (c_payment_ttl_secs c))\<rparr>) w1 = (Inr p, w2)"
      by (cases rule: run_lift_dbE) auto
    from run_create_payment [OF this] g2(2) have "status = 201 \<and> minted c merchant body a (w_db w1) (w_db w') resp"
      unfolding minted_def by (auto simp: new_row_def)
    with minted_books [OF k] show ?thesis by blast
  qed simp
qed simp

lemma run_create_reserved:
  assumes "run (create_reserved x c merchant idem body (a_code a) (a_issuer a)) w = (Inr (status, resp), w')"
  shows "status = 200 \<and> keeps_books w w' \<or> status = 201 \<and> minted c merchant body a (w_db w) (w_db w') resp"
  using assms unfolding create_reserved_def
proof (cases rule: run_and_thenE)
  case g1: (goes replay w1)
  note k1 = books_run [OF keeps_books_replay g1(1)]
  show ?thesis
  proof (cases replay)
    case (Some p)
    with g1(2) k1 show ?thesis by simp
  next
    case None
    obtain i w2 where u: "run new_uuid w1 = (i, w2)" by fastforce
    note k2 = books.R_trans [OF k1 books_run [OF keeps_books_effects(1) u]]
    from g1(2) None u have "run (and_then (reserve_key merchant idem i) (\<lambda>winner.
        case winner of Some p \<Rightarrow> ok (200, to_json p)
        | None \<Rightarrow> mint_payment x c merchant body (a_code a) (a_issuer a) i)) w2 = (Inr (status, resp), w')"
      by simp
    then show ?thesis
    proof (cases rule: run_and_thenE)
      case g3: (goes winner w3)
      note k3 = books.R_trans [OF k2 books_run [OF keeps_books_reserve g3(1)]]
      show ?thesis
      proof (cases winner)
        case (Some p)
        with g3(2) k3 show ?thesis by simp
      next
        case None
        with g3(2) run_mint_payment minted_books [OF k3] show ?thesis by fastforce
      qed
    qed simp
  qed
qed simp

lemma run_create:
  assumes "run (create x c merchant header body) w = (Inr (status, resp), w')"
  shows "status = 200 \<and> keeps_books w w' \<or>
    status = 201 \<and> (\<exists>a\<in>set (c_accepted_assets c). a_code a = x_to_uppercase x (cr_asset body) \<and>
      minted c merchant body a (w_db w) (w_db w') resp)"
proof -
  let ?asset = "x_to_uppercase x (cr_asset body)"
  obtain a where a: "select_asset c ?asset = Inr a"
    using assms by (auto simp: create_def Let_def split: sum.splits)
  then have acc: "a \<in> set (c_accepted_assets c)" "a_code a = ?asset"
    by (auto simp: select_asset_def filter_eq_Cons_iff split: list.splits)
  from assms a acc(2) have "run (and_then (check_webhook_url x c (cr_webhook_url body)) (\<lambda>_.
      create_reserved x c merchant (idempotency_header header) body (a_code a) (a_issuer a))) w =
      (Inr (status, resp), w')"
    by (simp add: create_def Let_def split: if_splits)
  then show ?thesis
  proof (cases rule: run_and_thenE)
    case (goes u w1)
    note k = books_run [OF keeps_books_check_url goes(1)]
    from run_create_reserved [OF goes(2)] acc books.R_trans [OF k] minted_books [OF k]
    show ?thesis by blast
  qed simp
qed

section \<open>Properties\<close>

text \<open>
  C18: what a successful creation did: either it replayed (200, no intent stored) or it minted (201)
  exactly one new pending intent for the caller, payable to the gateway account, with an id and a memo
  that no other intent has, the canonical amount, the upper-cased asset and its accepted issuer, expiring the configured time after its
  creation; and the body describes that intent.
\<close>

theorem create_stores_the_request:
  assumes "run (create x c merchant header body) w = (Inr (status, resp), w')"
  shows "status = 200 \<and> payments (w_db w') = payments (w_db w) \<or>
    status = 201 \<and> (\<exists>p a amount now.
      payments (w_db w') = payments (w_db w) @ [p] \<and> resp = to_json p \<and>
      (\<forall>p'\<in>set (payments (w_db w)). p_id p' \<noteq> p_id p \<and> p_memo p' \<noteq> p_memo p) \<and>
      p_merchant_id p = merchant \<and> p_status p = ''pending'' \<and> p_destination_address p = c_gateway_public c \<and>
      parse_stroops (cr_amount body) = Some amount \<and> p_amount p = stroops_to_string amount \<and>
      a \<in> set (c_accepted_assets c) \<and> a_code a = x_to_uppercase x (cr_asset body) \<and>
      p_asset p = a_code a \<and> p_asset_issuer p = a_issuer a \<and> p_webhook_url p = cr_webhook_url body \<and>
      strftime_z now = Some (p_created_at p) \<and>
      strftime_z (now + wrap_i64 (int (c_payment_ttl_secs c))) = Some (p_expires_at p))"
  using run_create [OF assms] unfolding minted_def keeps_books_def by blast

definition request0 :: create_request where
  "request0 = \<lparr>cr_amount = ''5.0000000'', cr_asset = ''XLM'', cr_webhook_url = None\<rparr>"

lemma upper_xlm: "to_ascii_uppercase ''XLM'' = ''XLM''" "to_ascii_uppercase ''1'' = ''1''"
  by code_simp+

lemma valid5: "is_valid_amount ''5.0000000''"
  by (simp add: is_valid_amount_def canonical5)

lemma select_xlm: "select_asset config0 ''XLM'' = Inr \<lparr>a_code = ''XLM'', a_issuer = None\<rparr>"
  by (simp add: select_asset_def config0_def default_list_def)

text \<open>A world like the example one, before any intent exists.\<close>

definition fresh0 :: "world \<Rightarrow> bool" where
  "fresh0 w \<longleftrightarrow> w_env w = env0 \<and> now_secs w = noon0 \<and> payments (w_db w) = []"

lemma fresh0_world0: "fresh0 (world0 empty_db)"
  by (simp add: fresh0_def empty_db_def)

lemma fresh0_memo: "fresh0 w \<Longrightarrow> \<exists>m w'. run (generate_unique_memo ext0) w = (Inr m, w') \<and> fresh0 w'"
proof -
  assume w: "fresh0 w"
  have "10 = Suc 9" by simp
  with w show ?thesis unfolding generate_unique_memo_def
    by (simp only: generate_memo.simps)
      (simp add: new_uuid_def Let_def run_lift_db memo_exists_def run_stmt count_where_def fresh0_def)
qed

lemma fresh0_payment:
  assumes "fresh0 w" "n_amount n = ''5.0000000''" "n_ttl_secs n = 3600"
  shows "\<exists>p w'. run (create_payment n) w = (Inr p, w')"
  using assms by (simp add: create_payment_def canonical5 run_stmt fresh0_def insert_payment_def noon0_ts
      noon0_plus_hour get_payment_def Let_def)

lemma creates0: "\<exists>resp w'. run (create ext0 config0 ''m1'' None request0) (world0 empty_db) = (Inr (201, resp), w')"
proof -
  have ttl: "wrap_i64 (int (c_payment_ttl_secs config0)) = 3600" by (simp add: config0_def wrap_i64_def)
  obtain i w1 where u: "run new_uuid (world0 empty_db) = (i, w1)" by fastforce
  then have "fresh0 w1" using fresh0_world0 by (auto simp: new_uuid_def fresh0_def)
  then obtain m w2 where m: "run (generate_unique_memo ext0) w1 = (Inr m, w2)" "fresh0 w2"
    using fresh0_memo by blast
  obtain p w3 where "run (create_payment \<lparr>n_id = i, n_merchant_id = ''m1'',
      n_destination_address = c_gateway_public config0, n_memo = m, n_amount = ''5.0000000'',
      n_asset = ''XLM'', n_asset_issuer = None, n_webhook_url = None, n_ttl_secs = 3600\<rparr>) w2 = (Inr p, w3)"
    using fresh0_payment [OF m(2)] by fastforce
  with u m(1) show ?thesis
    by (simp add: create_def request0_def upper_xlm select_xlm valid5 check_webhook_url_def
        idempotency_header_def create_reserved_def replay_idempotent_def reserve_key_def mint_payment_def
        run_lift_db ttl)
qed

theorem create_stores_the_request_witness:
  "\<exists>resp w'. run (create ext0 config0 ''m1'' None request0) (world0 empty_db) = (Inr (201, resp), w') \<and>
     (\<exists>p. payments (w_db w') = [p] \<and> resp = to_json p \<and> p_amount p = ''5'' \<and> p_merchant_id p = ''m1'')"
proof -
  obtain resp w' where run: "run (create ext0 config0 ''m1'' None request0) (world0 empty_db) = (Inr (201, resp), w')"
    using creates0 by blast
  from create_stores_the_request [OF run] run show ?thesis
    by (auto simp: request0_def canonical5 empty_db_def)
qed

definition same_db :: "world \<Rightarrow> world \<Rightarrow> bool" where
  "same_db w w' \<longleftrightarrow> w_db w' = w_db w"

interpretation tables: step_guarantee same_db
  by unfold_locales (auto simp: same_db_def)

lemma same_db_check_url: "obeys same_db (check_webhook_url x c u)"
  unfolding check_webhook_url_def validate_def lookup_host_def
  by (intro proc_safe) (simp add: same_db_def split: prod.split)

lemma run_lift_query:
  assumes "run (lift_db (query f)) w = (r, w')"
  shows "w_db w' = w_db w \<and> (\<forall>v. r = Inr v \<longrightarrow> f (now_secs w') (w_db w) = Inr v)"
  using assms
proof (cases rule: run_lift_dbE)
  case (fails e)
  with run_query(1) [OF fails(1)] show ?thesis by simp
next
  case (goes v)
  with run_query [OF goes(1)] show ?thesis by simp
qed

interpretation same_env: step_guarantee "\<lambda>w w' :: world. w_env w' = w_env w"
  by unfold_locales auto

lemma run_find_idem:
  assumes "run (lift_db (find_payment_id_by_idempotency_key m k)) w = (Inr v, w')"
  shows "w_db w' = w_db w \<and> v = map_option i_payment_id
    (find (\<lambda>i. i_merchant_id i = m \<and> i_key i = k) (idempotency_keys (w_db w)))"
  using assms
proof (cases rule: run_lift_dbE)
  case (goes u)
  from run_query [OF goes(1) [unfolded find_payment_id_by_idempotency_key_def]] goes(2) show ?thesis by simp
qed simp

lemma run_replay:
  assumes "find (\<lambda>i. i_merchant_id i = merchant \<and> i_key i = key) (idempotency_keys (w_db w)) = Some row"
    and "find (\<lambda>p. p_id p = i_payment_id row) (payments (w_db w)) = Some p"
    and "run (replay_idempotent merchant (Some key)) w = (r, w')"
  shows "w_db w' = w_db w \<and> (\<forall>replay. r = Inr replay \<longrightarrow> replay = Some (row_to_payment p))"
  using assms(3) unfolding replay_idempotent_def option.case
proof (cases rule: run_and_thenE)
  case g1: (goes existing w1)
  have e: "existing = Some (i_payment_id row)" "w_db w1 = w_db w"
    using run_find_idem [OF g1(1)] assms(1) by simp_all
  with g1(2) have "run (and_then (lift_db (get_payment (i_payment_id row))) (\<lambda>found.
      case found of Some p \<Rightarrow> ok (Some p) | None \<Rightarrow>
        and_then (lift_db (stmt (delete_idempotency_rows merchant key))) (\<lambda>_. ok None))) w1 =
      (r, w')" by simp
  then show ?thesis
  proof (cases rule: run_and_thenE)
    case g2: (goes found w2)
    from lift_get_payment [OF g2(1)] e(2) assms(2) g2(2) show ?thesis by auto
  next
    case (fails e')
    then show ?thesis using e(2) by (auto elim!: run_lift_dbE dest: run_get_payment)
  qed
next
  case (fails e)
  then show ?thesis
    using run_lift_query [OF fails(1) [unfolded find_payment_id_by_idempotency_key_def]] by simp
qed

text \<open>The checks a create request passes before the key is looked up.\<close>

definition passes_checks :: "ext \<Rightarrow> config \<Rightarrow> create_request \<Rightarrow> world \<Rightarrow> bool" where
  "passes_checks x c body w \<longleftrightarrow>
     (\<exists>a. select_asset c (x_to_uppercase x (cr_asset body)) = Inr a) \<and> is_valid_amount (cr_amount body) \<and>
     fst (run (check_webhook_url x c (cr_webhook_url body)) w) = Inr ()"

lemma replay_healthy:
  assumes "healthy D w" "find (\<lambda>i. i_merchant_id i = merchant \<and> i_key i = key) (idempotency_keys (w_db w)) = Some row"
    and "find (\<lambda>p. p_id p = i_payment_id row) (payments (w_db w)) = Some p"
  shows "\<exists>w'. run (replay_idempotent merchant (Some key)) w = (Inr (Some (row_to_payment p)), w')"
proof -
  obtain w1 where w1: "run (lift_db (find_payment_id_by_idempotency_key merchant key)) w =
      (Inr (map_option i_payment_id (find (\<lambda>i. i_merchant_id i = merchant \<and> i_key i = key) (idempotency_keys (w_db w)))), w1)"
      "w_db w1 = w_db w" "healthy D w1"
    by (rule run_lift_query_healthy [OF assms(1) find_payment_id_by_idempotency_key_def])
  obtain w2 where "run (lift_db (get_payment (i_payment_id row))) w1 =
      (Inr (map_option row_to_payment (find (\<lambda>p. p_id p = i_payment_id row) (payments (w_db w1)))), w2)"
    by (rule run_lift_query_healthy [OF w1(3) get_payment_def])
  with w1 assms(2,3) show ?thesis by (simp add: replay_idempotent_def)
qed

lemma healthy_check_url:
  assumes "healthy D w" "run (check_webhook_url x c u) w = (r, w')"
  shows "healthy D w'"
proof -
  have "obeys (\<lambda>w w'. w_env w' = w_env w) (check_webhook_url x c u)"
    unfolding check_webhook_url_def validate_def lookup_host_def
    by (intro proc_safe) (simp split: prod.split)
  then have "w_env w' = w_env w" using same_env.run_obeys [of "check_webhook_url x c u" w] assms(2) by simp
  with assms(1) show ?thesis by (simp add: healthy_def)
qed

text \<open>
  C19: an idempotency key replays: when the caller's key is already mapped to a stored payment, a
  create request changes no table, whatever it asks for, and if it is not refused it answers 200 with that
  payment. It is not refused when its asset, its amount and its webhook URL pass the checks again and the
  database answers; these checks come before the key is looked up, and the last resolves the host.
\<close>

theorem idempotent_replay:
  assumes "idempotency_header header = Some key"
    and "find (\<lambda>i. i_merchant_id i = merchant \<and> i_key i = key) (idempotency_keys (w_db w)) = Some row"
    and "find (\<lambda>p. p_id p = i_payment_id row) (payments (w_db w)) = Some p"
    and "run (create x c merchant header body) w = (r, w')"
  shows "w_db w' = w_db w \<and> ((\<exists>e. r = Inl e) \<or> r = Inr (200, to_json (row_to_payment p))) \<and>
    (passes_checks x c body w \<and> healthy D w \<longrightarrow> r = Inr (200, to_json (row_to_payment p)))"
proof (cases "(\<exists>a. select_asset c (x_to_uppercase x (cr_asset body)) = Inr a) \<and> is_valid_amount (cr_amount body)")
  case False
  with assms(4) show ?thesis by (auto simp: create_def Let_def passes_checks_def split: sum.splits if_splits)
next
  case True
  then obtain a where "select_asset c (x_to_uppercase x (cr_asset body)) = Inr a" by blast
  with True assms(1,4) have "run (and_then (check_webhook_url x c (cr_webhook_url body)) (\<lambda>_.
      create_reserved x c merchant (Some key) body (x_to_uppercase x (cr_asset body)) (a_issuer a))) w = (r, w')"
    by (simp add: create_def Let_def)
  then show ?thesis
  proof (cases rule: run_and_thenE)
    case g1: (goes u w1)
    have d1: "w_db w1 = w_db w"
      using tables.run_obeys [OF same_db_check_url [of x c "cr_webhook_url body"], of w] g1(1)
      by (simp add: same_db_def)
    from g1(2) show ?thesis unfolding create_reserved_def
    proof (cases rule: run_and_thenE)
      case g2: (goes replay w2)
      from run_replay [OF _ _ g2(1)] assms(2,3) d1 g2(2) show ?thesis by auto
    next
      case (fails e)
      then have "\<not> healthy D w"
        using replay_healthy [OF healthy_check_url [OF _ g1(1)]] assms(2,3) d1 by fastforce
      with fails run_replay [OF _ _ fails(1)] assms(2,3) d1 show ?thesis by simp
    qed
  next
    case (fails e)
    then show ?thesis
      using tables.run_obeys [OF same_db_check_url [of x c "cr_webhook_url body"], of w]
      by (simp add: same_db_def passes_checks_def)
  qed
qed

definition idem_db0 :: db where
  "idem_db0 = db0\<lparr>idempotency_keys := [\<lparr>i_merchant_id = ''m1'', i_key = ''a'', i_payment_id = ''p1'',
     i_created_at = ''2000-01-01T00:00:00Z''\<rparr>]\<rparr>"

lemma header_a: "idempotency_header (Some ''a'') = Some ''a''"
  by (simp add: idempotency_header_def header_text_def trim_visible visible_def byte_def)

lemma idem_find:
  "find (\<lambda>i. i_merchant_id i = ''m1'' \<and> i_key i = ''a'') (idempotency_keys idem_db0) = Some
     \<lparr>i_merchant_id = ''m1'', i_key = ''a'', i_payment_id = ''p1'', i_created_at = ''2000-01-01T00:00:00Z''\<rparr>"
  "find (\<lambda>p. p_id p = ''p1'') (payments idem_db0) = Some payment0"
  by (simp_all add: idem_db0_def db0_def payment0_def)

lemma checks0: "passes_checks ext0 config0 request0 (world0 d)"
  by (simp add: passes_checks_def request0_def upper_xlm select_xlm valid5 check_webhook_url_def)

theorem idempotent_replay_witness:
  "\<exists>w'. run (create ext0 config0 ''m1'' (Some ''a'') request0) (world0 idem_db0) = (Inr (200, to_json payment0), w') \<and>
        w_db w' = idem_db0"
proof -
  obtain r w' where run: "run (create ext0 config0 ''m1'' (Some ''a'') request0) (world0 idem_db0) = (r, w')"
    by fastforce
  have "w_db w' = w_db (world0 idem_db0) \<and> r = Inr (200, to_json (row_to_payment payment0))"
    using idempotent_replay [OF header_a _ _ run, of _ _ 0] idem_find checks0 [of idem_db0] healthy_world0 [of idem_db0] by simp
  with run row_to_payment_ok [OF payment0_ok] show ?thesis by auto
qed

section \<open>Keys\<close>

lemma count_one:
  assumes "distinct (map k_id ks)"
  shows "count_where (\<lambda>k. k_merchant_id k = m \<and> k_revoked_at k = None) ks \<le>
    Suc (count_where (\<lambda>k. k_merchant_id k = m \<and> k_revoked_at k = None)
      (update_where (\<lambda>k. k_id k = i \<and> k_merchant_id k = m \<and> k_revoked_at k = None) (\<lambda>k. k\<lparr>k_revoked_at := t\<rparr>) ks))"
  using assms
proof (induction ks)
  case (Cons k ks)
  show ?case
  proof (cases "k_id k = i")
    case True
    then have "\<forall>l\<in>set ks. k_id l \<noteq> i" using Cons.prems by (auto simp: image_iff)
    then have "update_where (\<lambda>k. k_id k = i \<and> k_merchant_id k = m \<and> k_revoked_at k = None)
        (\<lambda>k. k\<lparr>k_revoked_at := t\<rparr>) ks = ks"
      by (auto simp: update_where_def intro: map_idI)
    then show ?thesis by (simp add: update_where_def count_where_def)
  next
    case False
    with Cons show ?thesis by (simp add: update_where_def count_where_def)
  qed
qed (simp add: count_where_def update_where_def)

lemma run_revoke:
  assumes "run (revoke_api_key_handler m i) w = (r, w')" "db_ok (w_db w)" "0 < active_keys m (w_db w)"
  shows "0 < active_keys m (w_db w')"
  using assms(1) unfolding revoke_api_key_handler_def
proof (cases rule: run_and_thenE)
  case (fails e)
  then have "w_db w' = w_db w" using run_lift_query [OF fails(1) [unfolded merchant_exists_def]] by simp
  with assms(3) show ?thesis by simp
next
  case g1: (goes ex w1)
  then have d1: "w_db w1 = w_db w" using run_lift_query [OF g1(1) [unfolded merchant_exists_def]] by simp
  show ?thesis
  proof (cases ex)
    case True
    with g1(2) have "run (and_then (lift_db (count_active_api_keys m)) (\<lambda>n.
       if n \<le> 1 then err (bad_request ''last_active_key'')
       else and_then (lift_db (revoke_api_key m i)) (\<lambda>revoked.
         if \<not> revoked then err (not_found ''key_not_found'')
         else ok (200, JObj [(''key_id'', JStr i), (''revoked'', JBool True)])))) w1 = (r, w')" by simp
    then show ?thesis
    proof (cases rule: run_and_thenE)
      case (fails e)
      then have "w_db w' = w_db w1" using run_lift_query [OF fails(1) [unfolded count_active_api_keys_def]] by simp
      with assms(3) d1 show ?thesis by simp
    next
      case g2: (goes n w2)
      from g2(1) have n: "n = int (active_keys m (w_db w)) \<and> w_db w2 = w_db w"
        using run_lift_query [OF g2(1) [unfolded count_active_api_keys_def]] d1 by simp
      show ?thesis
      proof (cases "n \<le> 1")
        case True
        with g2(2) n assms(3) show ?thesis by simp
      next
        case False
        with g2(2) obtain v where "run (revoke_api_key m i) w2 = (v, w')"
          by (auto simp: run_lift_db split: prod.splits sum.splits if_splits)
        from run_stmtD [OF this [unfolded revoke_api_key_def]] n
        have "w_db w' = w_db w \<or> (\<exists>t. api_keys (w_db w') = update_where
            (\<lambda>k. k_id k = i \<and> k_merchant_id k = m \<and> k_revoked_at k = None)
            (\<lambda>k. k\<lparr>k_revoked_at := t\<rparr>) (api_keys (w_db w)))"
          by (auto simp: revoke_rows_def Let_def dest!: sym [of _ "w_db w'"])
        then show ?thesis
        proof
          assume "\<exists>t. api_keys (w_db w') = update_where
            (\<lambda>k. k_id k = i \<and> k_merchant_id k = m \<and> k_revoked_at k = None)
            (\<lambda>k. k\<lparr>k_revoked_at := t\<rparr>) (api_keys (w_db w))"
          then obtain t where t: "api_keys (w_db w') = update_where
            (\<lambda>k. k_id k = i \<and> k_merchant_id k = m \<and> k_revoked_at k = None)
            (\<lambda>k. k\<lparr>k_revoked_at := t\<rparr>) (api_keys (w_db w))" ..
          have "distinct (map k_id (api_keys (w_db w)))" using assms(2) by (simp add: db_ok_def)
          then have "active_keys m (w_db w) \<le> Suc (active_keys m (w_db w'))"
            unfolding active_keys_def t by (rule count_one)
          with False n show ?thesis by linarith
        qed (use assms(3) in simp)
      qed
    qed
  next
    case False
    with g1(2) d1 assms(3) show ?thesis by simp
  qed
qed

text \<open>
  C23: revoking keys one request at a time never locks a merchant out: a merchant with an active key
  still has one after the request, whatever key it names and whichever statement fails.
\<close>

theorem revoke_keeps_a_key:
  assumes "world_inv w" "0 < active_keys merchant (w_db w)"
    and "run (revoke_api_key_handler merchant key_id) w = (r, w')"
  shows "0 < active_keys merchant (w_db w')"
  using run_revoke [OF assms(3)] assms(1,2) by (simp add: world_inv_def db_inv_def)

definition two_keys :: db where
  "two_keys = empty_db\<lparr>merchants := [\<lparr>m_id = ''m1'', m_api_key_hash = ''h1'', m_created_at = ''2000-01-01T00:00:00Z''\<rparr>],
     api_keys := [key0\<lparr>k_revoked_at := None\<rparr>, key0\<lparr>k_id := ''k2'', k_key_hash := ''h2'', k_revoked_at := None\<rparr>]\<rparr>"

lemma inv_two_keys: "world_inv (world0 two_keys)"
  by (simp add: world_inv_def db_inv_def db_ok_def two_keys_def empty_db_def key0_def)

theorem revoke_keeps_a_key_witness:
  "0 < active_keys ''m1'' (w_db (snd (run (revoke_api_key_handler ''m1'' ''k1'') (world0 two_keys))))"
  by (rule revoke_keeps_a_key [OF inv_two_keys, of "''m1''" "''k1''"
        "fst (run (revoke_api_key_handler ''m1'' ''k1'') (world0 two_keys))"])
    (simp_all add: active_keys_def two_keys_def key0_def count_where_def)

text \<open>
  Two requests at once can: both count two active keys before either revokes.
\<close>

lemma revoke_race:
  "active_keys ''m1'' (w_db (after ext0 config0 [T_Revoke_Key ''m1'' ''k1'', T_Revoke_Key ''m1'' ''k2'']
     [0, 1, 0, 1, 0, 1] (world0 two_keys))) = 0"
  by (simp add: after_def revoke_api_key_handler_def and_then_def lift_db_def merchant_exists_def
      count_active_api_keys_def revoke_api_key_def stmt_rnd_def effect_def map_prod_def split_beta
      count_where_def active_keys_def two_keys_def key0_def revoke_rows_def update_where_def noon0_ts
      empty_db_def Let_def)

end
