(* ===== verification/Operations.thy ===== *)
theory Operations
  imports Creation
begin

text \<open>
  Properties of the background machinery and of the HTTP edge: the retry schedule against the redrive
  grace, event streams cut at arbitrary points, retention, the supervisor, the probes and the client
  key of the rate limiter.
\<close>

section \<open>Delivery timing\<close>



text \<open>
  The part of \<open>dispatch_to\<close> that sends: from the resolution of the host to the end of the last attempt.
\<close>

definition inline_attempts ::
  "ext \<Rightarrow> config \<Rightarrow> string \<Rightarrow> int \<Rightarrow> string \<Rightarrow> string \<Rightarrow> (nat \<times> nat option) result io" where
  "inline_attempts x c url timestamp event body =
     and_then (safe_client x c url) (\<lambda>cl.
       let attempts = max (c_webhook_retry_attempts c) 1 in
       bindP get_clock (\<lambda>start.
       bindP (attempt_loop c cl (post_of x c cl url timestamp event body) attempts attempts) (\<lambda>outcome.
         ok (start, outcome))))"

lemma dispatch_to_inline:
  "dispatch_to x c url timestamp event body i =
     bindP (inline_attempts x c url timestamp event body) (\<lambda>r.
       case r of
         Inl e \<Rightarrow> seqP (on_webhook_metrics record_failed) (seqP (update_webhook_delivery i ''failed'' 0) (Ret ()))
       | Inr (start, Some attempt) \<Rightarrow>
           seqP (on_webhook_metrics record_delivered)
           (seqP (record_latency start)
           (seqP (update_webhook_delivery i ''delivered'' (int attempt)) (Ret ())))
       | Inr (start, None) \<Rightarrow>
           seqP (on_webhook_metrics record_failed)
           (seqP (record_latency start)
           (seqP (update_webhook_delivery i ''failed'' (int (max (c_webhook_retry_attempts c) 1))) (Ret ()))))"
  unfolding dispatch_to_def inline_attempts_def and_then_def dispatch_with_def bindP_assoc Let_def
  by (rule arg_cong [where f = "bindP _"]) (auto simp: bindP_assoc fun_eq_iff split: sum.split)





lemma run_in_results: "run p w = (r, w') \<Longrightarrow> r \<in> results p"
  using run_results [of p w] by simp

text \<open>
  After \<open>n\<close> failures in a row the poller waits at most two minutes and at most \<open>2 ^ (n - 1)\<close> seconds,
  and at least half of the smaller of the two (to the millisecond), unless Horizon named a delay itself.
\<close>

theorem poll_backoff_bounds:
  assumes "run (next_poll_delay failures None) w = (d, w')" "failures \<le> 32"
  shows "min (2 ^ (failures - 1)) 120 * 500000000 \<le> d \<and> d \<le> min (2 ^ (failures - 1)) 120 * 1000000000"
proof -
  have "d \<in> results (retry_delay failures POLL_BACKOFF_BASE POLL_BACKOFF_MAX)"
    using run_in_results [OF assms(1)] by (simp add: next_poll_delay_def)
  from retry_delay_bounds [OF this] have
    b: "delay_ceiling failures POLL_BACKOFF_BASE POLL_BACKOFF_MAX div 2000000 * 1000000 \<le> d"
    "d \<le> delay_ceiling failures POLL_BACKOFF_BASE POLL_BACKOFF_MAX"
    by (simp_all add: POLL_BACKOFF_MAX_def)
  have "(2 :: nat) ^ (failures - 1) \<le> 2 ^ 31" using assms(2) by (intro power_increasing) simp_all
  then have "delay_ceiling failures POLL_BACKOFF_BASE POLL_BACKOFF_MAX = min (2 ^ (failures - 1)) 120 * 1000000000"
    by (simp add: delay_ceiling_def POLL_BACKOFF_BASE_def POLL_BACKOFF_MAX_def sat_u32_def u32_max_def
        duration_max_def u64_max_def min_def)
  moreover have "min (2 ^ (failures - 1)) 120 * 1000000000 div 2000000 * 1000000 = min (2 ^ (failures - 1)) 120 * (500000000 :: nat)"
    by simp
  ultimately show ?thesis using b by simp
qed

theorem poll_backoff_bounds_witness:
  "4000000000 \<le> fst (run (next_poll_delay 4 None) (world0 db0))"
  using poll_backoff_bounds [of 4 "world0 db0" "fst (run (next_poll_delay 4 None) (world0 db0))"] by (simp add: prod_eq_iff)

section \<open>Event streams\<close>

text \<open>
  C31: how the network cuts an event stream into chunks is irrelevant: the same bytes have the same
  effects and leave the same cursor.
\<close>

theorem chunking_irrelevant:
  assumes "concat chunks = concat chunks'"
  shows "stream_chunks x c (map Some chunks) [] cursor = stream_chunks x c (map Some chunks') [] cursor"
proof -
  have "split_events [] = ([], [])" by (simp add: split_events.simps)
  from stream_chunks_concat [OF this] show ?thesis by (simp add: assms)
qed

theorem chunking_irrelevant_witness:
  "stream_chunks ext0 config0 (map Some [''id: 7'', [CHR 0x0A], [CHR 0x0A, CHR ''d'']]) [] ''now'' =
   stream_chunks ext0 config0 (map Some [''id: 7'' @ [CHR 0x0A, CHR 0x0A, CHR ''d'']]) [] ''now''"
  by (rule chunking_irrelevant) simp

section \<open>Retention\<close>

text \<open>
  C33: a retention pass, even one that fails half way, removes no delivery that is pending or that failed
  without being acknowledged; at most it drops the payload of a failed one.
\<close>

theorem retention_keeps_open_deliveries:
  assumes "r \<in> set (webhook_deliveries (w_db w))"
    and "d_status r = ''pending'' \<or> d_status r = ''failed'' \<and> d_acknowledged_at r = None"
  shows "\<exists>r'\<in>set (webhook_deliveries (w_db (snd (run (prune_once c) w)))).
    r' = r \<or> d_status r = ''failed'' \<and> r' = r\<lparr>d_payload := []\<rparr>"
proof -
  have "retaining w (snd (run (prune_once c) w))" using retention.run_obeys retaining_prune_once by blast
  with assms show ?thesis by (auto simp: retaining_def protected_def kept_as_def)
qed

theorem retention_keeps_open_deliveries_witness:
  "webhook_deliveries (w_db (snd (run (prune_once config0)
     (world0 (db0\<lparr>webhook_deliveries := [delivery0]\<rparr>))))) \<noteq> []"
  using retention_keeps_open_deliveries [of delivery0 "world0 (db0\<lparr>webhook_deliveries := [delivery0]\<rparr>)" config0]
  by (auto simp: world0_def delivery0_def)

lemma on_first_none: "(\<And>r. r \<in> set rows \<Longrightarrow> \<not> P r) \<Longrightarrow> on_first n P g rows = rows"
  by (induction n P g rows rule: on_first.induct) auto

text \<open>
  C34: a drain that stops below its cap has removed every delivery that was old enough when it stopped.
\<close>

theorem drain_removes_all:
  assumes "run (drain MAX_PER_CYCLE (prune_webhook_deliveries days) 0) w = (Inr n, w')" "n < MAX_PER_CYCLE"
  shows "\<forall>r\<in>set (webhook_deliveries (w_db w')). \<not> prunable days (now_secs w') r"
  using drain_short [where P = "\<lambda>w. \<forall>r\<in>set (webhook_deliveries (w_db w)). \<not> prunable days (now_secs w) r"]
    prune_deliveries_short assms by blast

theorem drain_removes_all_witness:
  "\<exists>w'. run (drain MAX_PER_CYCLE (prune_webhook_deliveries 30) 0)
      (world0 (db0\<lparr>webhook_deliveries := [delivery0]\<rparr>)) = (Inr 0, w') \<and> \<not> prunable 30 (now_secs w') delivery0"
proof -
  let ?w = "world0 (db0\<lparr>webhook_deliveries := [delivery0]\<rparr>)"
  have np: "\<not> prunable 30 now delivery0" for now by (simp add: prunable_def delivery0_def)
  then have "on_first n (prunable 30 now) g [delivery0] = [delivery0]" for n now g by (intro on_first_none) simp
  with np obtain w' where w': "run (prune_webhook_deliveries 30) ?w = (Inr 0, w')" "webhook_deliveries (w_db w') = [delivery0]"
    by (simp add: prune_webhook_deliveries_def run_stmt Let_def world0_def env0_def prune_delivery_rows_def
        count_where_def PRUNE_BATCH_def)
  then have r: "run (drain MAX_PER_CYCLE (prune_webhook_deliveries 30) 0) ?w = (Inr 0, w')"
    by (subst drain.simps) (simp add: PRUNE_BATCH_def)
  then show ?thesis using drain_removes_all [OF r] w'(2) by (auto simp: MAX_PER_CYCLE_def)
qed

section \<open>Supervision and probes\<close>

text \<open>
  C35: in every reachable state of a supervisor the task is reported running exactly while its child is
  watched, the restart counter has gone up by the number of fatal exits and panics seen, and the backoff
  stays below its ceiling.
\<close>

theorem supervisor_reports_truly:
  assumes "supervised name bo h es s"
  shows "(case su_phase s of
      Watching _ \<Rightarrow> running name (su_health s)
    | Backing_off \<Rightarrow> \<not> running name (su_health s)
    | Returned \<Rightarrow> \<not> running name (su_health s)
    | Deciding \<Rightarrow> True) \<and>
    su_delay s \<le> max (bo_initial bo) (bo_max bo) \<and>
    restarts (su_health s) name = restarts h name + of_nat (length (filter restarting es))"
  using supervised_inv [OF assms] restarts_count [OF assms] by (simp add: sup_inv_def)

definition crash_events :: "sup_event list" where
  "crash_events =
     concat (replicate 3 [Loop_Top False, Child_Joined False Panicked, Backoff_Elapsed]) @ [Loop_Top False]"

primrec sup_run :: "string \<Rightarrow> backoff \<Rightarrow> sup_event list \<Rightarrow> supervisor \<Rightarrow> supervisor option" where
  "sup_run name bo [] s = Some s"
| "sup_run name bo (e # es) s = Option.bind (supervise_step name bo e s) (sup_run name bo es)"

lemma sup_run_supervised:
  "supervised name bo h es s \<Longrightarrow> sup_run name bo es' s = Some s' \<Longrightarrow> supervised name bo h (es @ es') s'"
proof (induction es' arbitrary: es s)
  case (Cons e es')
  then obtain t where t: "supervise_step name bo e s = Some t" "sup_run name bo es' t = Some s'"
    by (auto simp: bind_eq_Some_conv)
  from Cons.IH [OF supervised_step [OF Cons.prems(1) t(1)] t(2)] show ?case by simp
qed simp

definition health0 :: task_health where
  "health0 = require ''sweeper'' task_health_new"

lemma crash_cycles:
  "su_phase t = Deciding \<Longrightarrow>
   \<exists>s. sup_run name bo (concat (replicate k [Loop_Top False, Child_Joined False Panicked, Backoff_Elapsed])
          @ [Loop_Top False]) t = Some s \<and> su_phase s = Watching False"
  by (induction k arbitrary: t) (simp_all add: supervise_step_def restart_with_def)

lemma crash_run:
  "\<exists>s. supervised ''sweeper'' default_backoff health0 crash_events s \<and> su_phase s = Watching False"
proof -
  obtain s where s: "sup_run ''sweeper'' default_backoff crash_events (supervise_init default_backoff health0) = Some s"
    "su_phase s = Watching False"
    using crash_cycles [of "supervise_init default_backoff health0" "''sweeper''" default_backoff 3]
    by (auto simp: crash_events_def supervise_init_def)
  from sup_run_supervised [OF supervised_init s(1)] s(2) show ?thesis by auto
qed

theorem supervisor_reports_truly_witness:
  "\<exists>s. supervised ''sweeper'' default_backoff health0 crash_events s \<and>
     running ''sweeper'' (su_health s) \<and> restarts (su_health s) ''sweeper'' = 3"
proof -
  obtain s where s: "supervised ''sweeper'' default_backoff health0 crash_events s" "su_phase s = Watching False"
    using crash_run by blast
  have "restarts health0 ''sweeper'' = 0" "length (filter restarting crash_events) = 3"
    by (simp_all add: crash_events_def eval_nat_numeral restarts_def get_or_def health0_def require_def task_health_new_def)
  then have "running ''sweeper'' (su_health s) \<and> restarts (su_health s) ''sweeper'' = 3"
    using supervisor_reports_truly [OF s(1)] s(2) by simp
  with s(1) show ?thesis by blast
qed

text \<open>The panics since the child last stayed up for the stability window.\<close>

fun is_panic :: "sup_event \<Rightarrow> bool" where
  "is_panic (Child_Joined False Panicked) = True"
| "is_panic _ = False"

definition panic_streak :: "sup_event list \<Rightarrow> nat" where
  "panic_streak es = length (filter is_panic (takeWhile (\<lambda>e. e \<noteq> Stability_Elapsed) (rev es)))"

lemma failures_step:
  assumes "supervise_step name bo e s = Some s'"
  shows "consecutive_failures (su_health s') name =
    (if e = Stability_Elapsed then 0 else consecutive_failures (su_health s) name + of_bool (is_panic e))"
proof -
  have join: "consecutive_failures (su_health (on_join name j s)) name =
      consecutive_failures (su_health s) name + of_bool (is_panic (Child_Joined False j))" for j
    by (cases "(name, j, s)" rule: on_join.cases)
      (simp_all add: consecutive_failures_def get_or_update sup_defs)
  show ?thesis
  proof (cases e)
    case (Child_Joined shutdown j)
    then show ?thesis
      using join_step [of name bo shutdown j s s'] join [of j] assms
      by (cases shutdown) (simp_all add: consecutive_failures_def sup_defs)
  qed (use assms in \<open>auto simp: supervise_step_def consecutive_failures_def get_or_update sup_defs
        split: phase.splits bool.splits if_splits\<close>)
qed

lemma failures_streak:
  assumes "supervised name bo h es s" "consecutive_failures h name = 0"
  shows "consecutive_failures (su_health s) name = of_nat (panic_streak es)"
  using assms
proof (induction rule: supervised.induct)
  case (supervised_step es s e s')
  then show ?case using failures_step [of name bo e s s'] by (simp add: panic_streak_def)
qed (simp add: supervise_init_def panic_streak_def)

lemma required_kept: "supervised name bo h es s \<Longrightarrow> th_required (su_health s) = th_required h"
proof (induction rule: supervised.induct)
  case (supervised_step es s e s')
  have "th_required (su_health (on_join name j s)) = th_required (su_health s)" for j
    by (cases "(name, j, s)" rule: on_join.cases) (simp_all add: sup_defs)
  then have "th_required (su_health s') = th_required (su_health s)"
    using supervised_step.hyps(2)
    by (auto simp: supervise_step_def sup_defs split: phase.splits bool.splits if_splits sup_event.splits)
  with supervised_step show ?case by simp
qed (simp add: supervise_init_def)

text \<open>
  C36: a required task that has panicked three times without staying up for the stability window in
  between turns the liveness probe to 503, also while its next child is running.
\<close>

theorem crash_loop_fails_liveness:
  assumes "supervised name bo h es s" "name \<in> set (th_required h)" "consecutive_failures h name = 0"
    and "3 \<le> panic_streak es" "panic_streak es < 2 ^ 32"
  shows "fst (health_response (su_health s)) = 503"
proof -
  have "CRASH_LOOP_THRESHOLD \<le> consecutive_failures (su_health s) name"
    using failures_streak [OF assms(1,3)] assms(4,5)
    by (simp add: CRASH_LOOP_THRESHOLD_def word_le_nat_alt unat_of_nat take_bit_nat_eq_self)
  then have "name \<in> set (crash_looping_required_tasks (su_health s))"
    using required_kept [OF assms(1)] assms(2) by (simp add: crash_looping_required_tasks_def consecutive_failures_def)
  then have "crash_looping_required_tasks (su_health s) \<noteq> []" by auto
  then show ?thesis by (simp add: health_response_def)
qed

theorem crash_loop_fails_liveness_witness:
  "\<exists>s. supervised ''sweeper'' default_backoff health0 crash_events s \<and> fst (health_response (su_health s)) = 503"
proof -
  obtain s where s: "supervised ''sweeper'' default_backoff health0 crash_events s" using crash_run by blast
  have h: "''sweeper'' \<in> set (th_required health0)" "consecutive_failures health0 ''sweeper'' = 0"
    by (simp_all add: health0_def require_def task_health_new_def consecutive_failures_def get_or_def)
  have "panic_streak crash_events = 3" by (simp add: panic_streak_def crash_events_def eval_nat_numeral)
  then show ?thesis using crash_loop_fails_liveness [OF s h] s by auto
qed

section \<open>The client key of the rate limiter\<close>

lemma split_on_append: "split_on c (a @ c # b) = split_on c a @ split_on c b"
  by (induction a) (auto split: list.splits simp: split_on_nonempty)

text \<open>A hop that identifies the client: no empty element and no address of a trusted proxy.\<close>

definition client_hop :: "ext \<Rightarrow> ip_net list \<Rightarrow> string \<Rightarrow> bool" where
  "client_hop x nets hop \<longleftrightarrow>
     hop \<noteq> [] \<and> (case x_parse_ip x hop of Some ip \<Rightarrow> \<not> trusted x nets ip | None \<Rightarrow> True)"

lemma walk_hops_find:
  "walk_hops x nets hops =
     map_option (\<lambda>hop. case x_parse_ip x hop of Some ip \<Rightarrow> x_show_ip x ip | None \<Rightarrow> hop)
       (find (client_hop x nets) hops)"
  by (induction hops) (auto simp: client_hop_def split: option.splits)

lemma header_text_append:
  "header_text (a @ CHR '','' # b) = (if header_text a = None \<or> header_text b = None then None else Some (a @ CHR '','' # b))"
  by (simp add: header_text_def byte_def)

text \<open>
  C39: what a client writes into the line of \<open>X-Forwarded-For\<close> in front of the hops the proxies appended
  does not change the key it is limited under: with an untrusted peer the header is ignored, with a
  trusted one the rightmost hop that is no trusted proxy decides. This needs what it writes to be
  visible ASCII; a byte that is not makes the code drop the whole header, as if there were none.
\<close>

theorem forwarded_prefix_ignored:
  assumes "trusted x nets peer \<longrightarrow> list_ex (client_hop x nets) (map trim (split_on (CHR '','') appended))"
    and "header_text appended = Some appended"
  shows "client_ip_key x nets (Some peer) (Some (forged @ CHR '','' # appended)) real_ip =
    client_ip_key x nets (Some peer)
      (if header_text forged = None then None else Some appended) real_ip"
proof (cases "trusted x nets peer")
  case True
  define hops where "hops = rev (map trim (split_on (CHR '','') appended))"
  with assms(1) True have "list_ex (client_hop x nets) hops" by (simp add: list_ex_iff)
  then have "find (client_hop x nets) (hops @ hs) = find (client_hop x nets) hops" for hs
    by (induction hops) auto
  then show ?thesis
    unfolding client_ip_key_def
    by (simp add: walk_hops_find hops_def split_on_append header_text_append assms(2))
qed (simp add: client_ip_key_def)

theorem forwarded_prefix_ignored_witness:
  "client_ip_key (ext0\<lparr>x_net_contains := \<lambda>n a. n = (a, 32)\<rparr>) [(V4 (Ipv4 10 0 0 1), 32)] (Some (V4 (Ipv4 10 0 0 1)))
     (Some ''evil,client.example'') None = ''client.example''"
proof -
  let ?x = "ext0\<lparr>x_net_contains := \<lambda>n a. n = (a, 32)\<rparr>"
  let ?nets = "[(V4 (Ipv4 10 0 0 1), 32)]"
  have s: "map trim (split_on (CHR '','') ''client.example'') = [''client.example'']" by code_simp
  have k: "client_hop ?x ?nets ''client.example''" by (simp add: client_hop_def ext0_def)
  have h: "header_text ''client.example'' = Some ''client.example''" "header_text ''evil'' = Some ''evil''" by code_simp+
  show ?thesis
    using forwarded_prefix_ignored [of ?x ?nets "V4 (Ipv4 10 0 0 1)" "''client.example''" "''evil''" None] s k h
    by (simp add: client_ip_key_def trusted_def walk_hops_find) (simp add: ext0_def)
qed

text \<open>
  A refused request is told to wait at least as long as the limiter asks for, and at least one second;
  never a full second more than needed.
\<close>

theorem retry_after_covers_wait:
  "wait \<le> retry_after_secs wait * 1000000000 \<and> 1 \<le> retry_after_secs wait \<and>
   (retry_after_secs wait - 1) * 1000000000 < max wait 1"
proof -
  have "ceil_secs wait * 1000000000 + (wait + 999999999) mod 1000000000 = wait + 999999999"
    unfolding ceil_secs_def by (rule div_mult_mod_eq)
  moreover have "(wait + 999999999) mod 1000000000 < 1000000000" by simp
  ultimately show ?thesis by (auto simp: retry_after_secs_def max_def diff_mult_distrib)
qed

end
