(* ===== verification/Migrate.thy ===== *)
theory Migrate
  imports Db_Inv Config
begin

text \<open>
  What start-up does to the data (\<open>migrate\<close> and \<open>backfill_asset_issuers\<close> of \<open>src/db.rs\<close>). The statements of
  \<open>migrate\<close> that change rows or columns are one step each, in the order of the code, on the tables as an
  older version may have left them: columns that may be missing, a nullable deadline, timestamps in one of
  the older layouts. Creating a table or an index that is missing changes no row; a missing table is an empty
  one. The key table is the one this version creates: its insert ignores a row that violates the
  \<open>CHECK\<close> on \<open>created_at\<close>; every other value the steps write has the canonical layout. A process that stops
  between two steps leaves the effect of a prefix of them.
\<close>

section \<open>Tables of older versions\<close>

record old_payment =
  o_id :: string
  o_merchant_id :: string
  o_destination_address :: string
  o_memo :: string
  o_amount :: string
  o_asset :: string
  o_status :: string
  o_webhook_url :: "string option"
  o_tx_hash :: "string option"
  o_paid_amount :: "string option"
  o_created_at :: string
  o_updated_at :: string
  o_expires_at :: "string option"
  o_asset_issuer :: "string option"

record old_db =
  s_payments :: "old_payment list"
  s_has_expires_at :: bool
  s_has_asset_issuer :: bool
  s_deliveries :: "webhook_delivery list"
  s_has_event_type :: bool
  s_has_acknowledged_at :: bool
  s_merchants :: "merchant list"
  s_api_keys :: "api_key list"
  s_processed :: "processed_tx list"
  s_idempotency_keys :: "idempotency_key list"
  s_kv_state :: "kv_row list"

section \<open>The steps\<close>

text \<open>\<open>ALTER TABLE ... ADD COLUMN\<close>, when \<open>pragma_table_info\<close> does not list the column: \<open>NULL\<close> in every row.\<close>

definition add_expires_at :: "old_db \<Rightarrow> old_db" where
  "add_expires_at s =
     (if s_has_expires_at s then s
      else s\<lparr>s_payments := map (\<lambda>p. p\<lparr>o_expires_at := None\<rparr>) (s_payments s), s_has_expires_at := True\<rparr>)"

definition add_asset_issuer :: "old_db \<Rightarrow> old_db" where
  "add_asset_issuer s =
     (if s_has_asset_issuer s then s
      else s\<lparr>s_payments := map (\<lambda>p. p\<lparr>o_asset_issuer := None\<rparr>) (s_payments s), s_has_asset_issuer := True\<rparr>)"

definition add_event_type :: "old_db \<Rightarrow> old_db" where
  "add_event_type s =
     (if s_has_event_type s then s
      else s\<lparr>s_deliveries := map (\<lambda>r. r\<lparr>d_event_type := None\<rparr>) (s_deliveries s), s_has_event_type := True\<rparr>)"

definition add_acknowledged_at :: "old_db \<Rightarrow> old_db" where
  "add_acknowledged_at s =
     (if s_has_acknowledged_at s then s
      else s\<lparr>s_deliveries := map (\<lambda>r. r\<lparr>d_acknowledged_at := None\<rparr>) (s_deliveries s),
             s_has_acknowledged_at := True\<rparr>)"

text \<open>\<open>strftime('%Y-%m-%dT%H:%M:%SZ', created_at, '+1 hour')\<close> where the deadline is \<open>NULL\<close>.\<close>

definition fill_row :: "old_payment \<Rightarrow> old_payment" where
  "fill_row p =
     (if o_expires_at p = None
      then p\<lparr>o_expires_at := Option.bind (sqlite_parse (o_created_at p)) (\<lambda>t. strftime_z (t + 3600))\<rparr>
      else p)"

definition fill_expires_at :: "old_db \<Rightarrow> old_db" where
  "fill_expires_at s = s\<lparr>s_payments := map fill_row (s_payments s)\<rparr>"

text \<open>\<open>INSERT OR IGNORE ... SELECT\<close> of one merchant; \<open>fresh\<close> is the random identifier drawn for its row.\<close>

definition carry_key :: "(string \<Rightarrow> string) \<Rightarrow> merchant \<Rightarrow> api_key list \<Rightarrow> api_key list" where
  "carry_key fresh m ks =
     (if m_api_key_hash m = [] \<or> (\<exists>k\<in>set ks. k_id k = fresh (m_id m) \<or> k_key_hash k = m_api_key_hash m)
        \<or> \<not> ts_pattern (m_created_at m)
      then ks
      else ks @ [\<lparr>k_id = fresh (m_id m), k_merchant_id = m_id m, k_key_hash = m_api_key_hash m,
                  k_prefix = ''legacy'', k_label = Some ''migrated'', k_created_at = m_created_at m,
                  k_last_used_at = None, k_revoked_at = None\<rparr>])"

definition carry_keys :: "(string \<Rightarrow> string) \<Rightarrow> old_db \<Rightarrow> old_db" where
  "carry_keys fresh s = s\<lparr>s_api_keys := fold (carry_key fresh) (s_merchants s) (s_api_keys s)\<rparr>"

text \<open>The ledger rows of payments recorded before the ledger existed; \<open>ts\<close> is the default timestamp.\<close>

definition legacy_tx :: "old_payment \<Rightarrow> (string \<times> int) option" where
  "legacy_tx p =
     (case (o_tx_hash p, o_paid_amount p) of
        (Some tx, Some paid) \<Rightarrow> if tx = [] then None else map_option (Pair tx) (parse_stroops paid)
      | _ \<Rightarrow> None)"

definition backfill_tx :: "string \<Rightarrow> old_payment \<Rightarrow> processed_tx list \<Rightarrow> processed_tx list" where
  "backfill_tx ts p rows =
     (case legacy_tx p of
        None \<Rightarrow> rows
      | Some (tx, n) \<Rightarrow>
          if \<exists>t\<in>set rows. t_payment_id t = o_id p \<and> t_tx_hash t = tx then rows
          else rows @ [\<lparr>t_payment_id = o_id p, t_tx_hash = tx, t_amount_stroops = n, t_created_at = ts\<rparr>])"

definition backfill_ledger :: "string \<Rightarrow> old_db \<Rightarrow> old_db" where
  "backfill_ledger ts s = s\<lparr>s_processed := fold (backfill_tx ts) (s_payments s) (s_processed s)\<rparr>"

text \<open>\<open>replace(col, ' ', 'T') || 'Z'\<close> where the value has no \<open>T\<close>; \<open>LIKE\<close> ignores case.\<close>

definition repair_ts :: "string \<Rightarrow> string" where
  "repair_ts v =
     (if CHR ''T'' \<in> set (to_ascii_uppercase v) then v
      else map (\<lambda>c. if c = CHR '' '' then CHR ''T'' else c) v @ ''Z'')"

definition repair_created_at :: "old_db \<Rightarrow> old_db" where
  "repair_created_at s =
     s\<lparr>s_payments := map (\<lambda>p. p\<lparr>o_created_at := repair_ts (o_created_at p)\<rparr>) (s_payments s)\<rparr>"

definition repair_updated_at :: "old_db \<Rightarrow> old_db" where
  "repair_updated_at s =
     s\<lparr>s_payments := map (\<lambda>p. p\<lparr>o_updated_at := repair_ts (o_updated_at p)\<rparr>) (s_payments s)\<rparr>"

definition repair_expires_at :: "old_db \<Rightarrow> old_db" where
  "repair_expires_at s =
     s\<lparr>s_payments := map (\<lambda>p. p\<lparr>o_expires_at := map_option repair_ts (o_expires_at p)\<rparr>) (s_payments s)\<rparr>"

definition repair_deliveries :: "old_db \<Rightarrow> old_db" where
  "repair_deliveries s =
     s\<lparr>s_deliveries := map (\<lambda>r. r\<lparr>d_created_at := repair_ts (d_created_at r)\<rparr>) (s_deliveries s)\<rparr>"

definition migrate_steps :: "(string \<Rightarrow> string) \<Rightarrow> string \<Rightarrow> (old_db \<Rightarrow> old_db) list" where
  "migrate_steps fresh ts =
     [add_expires_at, fill_expires_at, add_asset_issuer, add_event_type, add_acknowledged_at,
      carry_keys fresh, backfill_ledger ts,
      repair_created_at, repair_updated_at, repair_expires_at, repair_deliveries]"

definition migrate :: "(string \<Rightarrow> string) \<Rightarrow> string \<Rightarrow> old_db \<Rightarrow> old_db" where
  "migrate fresh ts s = fold (\<lambda>f. f) (migrate_steps fresh ts) s"

section \<open>Issuers of old intents\<close>

definition backfill_issuer :: "string \<Rightarrow> string \<Rightarrow> payment \<Rightarrow> payment" where
  "backfill_issuer code issuer p =
     (if to_ascii_uppercase (p_asset p) = to_ascii_uppercase code \<and>
         (p_asset_issuer p = None \<or> p_asset_issuer p = Some [])
      then p\<lparr>p_asset_issuer := Some issuer\<rparr> else p)"

primrec backfill_asset_issuers :: "accepted_asset list \<Rightarrow> db \<Rightarrow> db" where
  "backfill_asset_issuers [] d = d"
| "backfill_asset_issuers (a # as) d =
     (case a_issuer a of
        None \<Rightarrow> backfill_asset_issuers as d
      | Some issuer \<Rightarrow>
          backfill_asset_issuers as (d\<lparr>payments := map (backfill_issuer (a_code a) issuer) (payments d)\<rparr>))"

section \<open>Steps that need not run again\<close>

text \<open>
  The contract of a restartable sequence: once a step has run, a condition holds under which it does
  nothing, and which the later steps keep.
\<close>

locale restartable =
  fixes ok :: "'x \<Rightarrow> 's \<Rightarrow> bool" and steps :: "'x \<Rightarrow> ('s \<Rightarrow> 's) list" and complete :: "('s \<Rightarrow> bool) list"
  assumes steps_length: "length (steps x) = length complete"
    and keeps_ok: "f \<in> set (steps x) \<Longrightarrow> ok x s \<Longrightarrow> ok x (f s)"
    and establishes: "list_all2 (\<lambda>f P. \<forall>s. ok x s \<longrightarrow> P (f s)) (steps x) complete"
    and idle: "list_all2 (\<lambda>f P. \<forall>s. P s \<longrightarrow> f s = s) (steps x) complete"
    and keeps_complete: "sorted_wrt (\<lambda>(f, P) (g, Q). \<forall>s. ok x s \<longrightarrow> P s \<longrightarrow> P (g s)) (zip (steps x) complete)"
begin

lemma prefix_complete:
  "k \<le> length complete \<Longrightarrow> ok x s \<Longrightarrow>
   ok x (fold (\<lambda>f. f) (take k (steps x)) s) \<and> (\<forall>i<k. (complete ! i) (fold (\<lambda>f. f) (take k (steps x)) s))"
proof (induction k)
  case (Suc k)
  let ?t = "fold (\<lambda>f. f) (take k (steps x)) s"
  have k: "k < length complete" "ok x ?t" "\<forall>i<k. (complete ! i) ?t" using Suc by auto
  have "fold (\<lambda>f. f) (take (Suc k) (steps x)) s = (steps x ! k) ?t"
    using k(1) steps_length [of x] by (simp add: take_Suc_conv_app_nth)
  then show ?case
    using k keeps_ok [of "steps x ! k" x ?t] establishes [of x, THEN list_all2_nthD2, OF k(1)]
      keeps_complete [of x, THEN sorted_wrt_nth_less, of _ k] steps_length [of x]
    by (auto simp: less_Suc_eq)
qed simp

lemma idle_prefix:
  "k \<le> length complete \<Longrightarrow> (\<forall>i<k. (complete ! i) s) \<Longrightarrow> fold (\<lambda>f. f) (take k (steps y)) s = s"
proof (induction k)
  case (Suc k)
  then have "fold (\<lambda>f. f) (take k (steps y)) s = s" by simp
  with Suc.prems show ?case using steps_length [of y] idle [of y, THEN list_all2_nthD2, of k]
    by (simp add: take_Suc_conv_app_nth)
qed simp

lemma resume:
  assumes "k \<le> length complete" "ok x s"
  shows "fold (\<lambda>f. f) (steps y) (fold (\<lambda>f. f) (take k (steps x)) s) =
    fold (\<lambda>f. f) (drop k (steps y)) (fold (\<lambda>f. f) (take k (steps x)) s)"
proof -
  let ?t = "fold (\<lambda>f. f) (take k (steps x)) s"
  have "fold (\<lambda>f. f) (steps y) ?t = fold (\<lambda>f. f) (drop k (steps y)) (fold (\<lambda>f. f) (take k (steps y)) ?t)"
    by (metis append_take_drop_id comp_apply fold_append)
  then show ?thesis using idle_prefix [OF assms(1)] prefix_complete [OF assms] by simp
qed

end

section \<open>The contract holds\<close>

definition ts_readable :: "string \<Rightarrow> bool" where
  "ts_readable v \<longleftrightarrow> (\<exists>t. Some v \<in> {strftime_z t, sql_datetime t, ts_without_z t} \<and> t + 3600 \<le> ts_max)"

definition stored_ts :: "string \<Rightarrow> bool" where
  "stored_ts v \<longleftrightarrow> (\<exists>t. Some v \<in> {strftime_z t, sql_datetime t, ts_without_z t})"

definition fresh_ids :: "(string \<Rightarrow> string) \<Rightarrow> old_db \<Rightarrow> bool" where
  "fresh_ids fresh s \<longleftrightarrow>
     distinct (map m_id (s_merchants s)) \<and> inj_on fresh (m_id ` set (s_merchants s)) \<and>
     (\<forall>k\<in>set (s_api_keys s). \<forall>m\<in>set (s_merchants s).
        k_id k = fresh (m_id m) \<longrightarrow> k_key_hash k = m_api_key_hash m)"

text \<open>What an older version may have left behind: timestamps in any layout \<open>normalize_ts\<close> knows.\<close>

definition row_ok :: "old_payment \<Rightarrow> bool" where
  "row_ok p \<longleftrightarrow>
     ts_readable (o_created_at p) \<and> stored_ts (o_updated_at p) \<and>
     (\<forall>v. o_expires_at p = Some v \<longrightarrow> stored_ts v)"

definition old_ok :: "(string \<Rightarrow> string) \<times> string \<Rightarrow> old_db \<Rightarrow> bool" where
  "old_ok x s \<longleftrightarrow>
     (\<forall>p\<in>set (s_payments s). row_ok p) \<and>
     (\<forall>r\<in>set (s_deliveries s). stored_ts (d_created_at r)) \<and> fresh_ids (fst x) s"

definition complete_steps :: "(old_db \<Rightarrow> bool) list" where
  "complete_steps =
     [s_has_expires_at,
      \<lambda>s. \<forall>p\<in>set (s_payments s). o_expires_at p \<noteq> None,
      s_has_asset_issuer, s_has_event_type, s_has_acknowledged_at,
      \<lambda>s. \<forall>m\<in>set (s_merchants s). m_api_key_hash m = [] \<or> \<not> ts_pattern (m_created_at m) \<or>
             m_api_key_hash m \<in> k_key_hash ` set (s_api_keys s),
      \<lambda>s. \<forall>p\<in>set (s_payments s). \<forall>tx n. legacy_tx p = Some (tx, n) \<longrightarrow>
             (\<exists>t\<in>set (s_processed s). t_payment_id t = o_id p \<and> t_tx_hash t = tx),
      \<lambda>s. \<forall>p\<in>set (s_payments s). repair_ts (o_created_at p) = o_created_at p,
      \<lambda>s. \<forall>p\<in>set (s_payments s). repair_ts (o_updated_at p) = o_updated_at p,
      \<lambda>s. \<forall>p\<in>set (s_payments s). map_option repair_ts (o_expires_at p) = o_expires_at p,
      \<lambda>s. \<forall>r\<in>set (s_deliveries s). repair_ts (d_created_at r) = d_created_at r]"

text \<open>
  The row an intent has after an upgrade: the same seconds. A timestamp ends in the canonical layout,
  except that one with a \<open>T\<close> but no \<open>Z\<close> stays as it is.
\<close>

definition repaired :: "int \<Rightarrow> string \<Rightarrow> string \<Rightarrow> bool" where
  "repaired t v v' \<longleftrightarrow> (if ts_without_z t = Some v then v' = v else strftime_z t = Some v')"

definition stored_deadline :: "old_db \<Rightarrow> old_payment \<Rightarrow> string option" where
  "stored_deadline s p = (if s_has_expires_at s then o_expires_at p else None)"

definition upgraded :: "old_db \<Rightarrow> old_payment \<Rightarrow> old_payment \<Rightarrow> bool" where
  "upgraded s p q \<longleftrightarrow>
     (\<exists>c u e v'. sqlite_parse (o_created_at p) = Some c \<and> sqlite_parse (o_updated_at p) = Some u \<and>
        o_expires_at q = Some v' \<and>
        (case stored_deadline s p of
           None \<Rightarrow> e = c + 3600 \<and> strftime_z e = Some v'
         | Some v \<Rightarrow> sqlite_parse v = Some e \<and> repaired e v v') \<and>
        repaired c (o_created_at p) (o_created_at q) \<and> repaired u (o_updated_at p) (o_updated_at q)) \<and>
     q = p\<lparr>o_created_at := o_created_at q, o_updated_at := o_updated_at q, o_expires_at := o_expires_at q,
          o_asset_issuer := if s_has_asset_issuer s then o_asset_issuer p else None\<rparr>"

text \<open>A database of an older version: no deadline column, old timestamps, no ledger, keys on the merchants.\<close>

definition legacy_db :: old_db where
  "legacy_db =
     \<lparr>s_payments =
        [\<lparr>o_id = ''p1'', o_merchant_id = ''m1'', o_destination_address = ''G'', o_memo = ''memo1'', o_amount = ''5'',
          o_asset = ''XLM'', o_status = ''completed'', o_webhook_url = None, o_tx_hash = Some ''tx1'',
          o_paid_amount = Some ''5'', o_created_at = ''0000-01-01 00:00:00'',
          o_updated_at = ''0000-01-01T00:00:01Z'', o_expires_at = None, o_asset_issuer = None\<rparr>],
      s_has_expires_at = False, s_has_asset_issuer = False, s_deliveries = [], s_has_event_type = False,
      s_has_acknowledged_at = False,
      s_merchants =
        [\<lparr>m_id = ''m1'', m_api_key_hash = ''h1'', m_created_at = ''0000-01-01T00:00:01Z''\<rparr>,
         \<lparr>m_id = ''m2'', m_api_key_hash = ''h2'', m_created_at = ''0000-01-01 00:00:00''\<rparr>],
      s_api_keys = [], s_processed = [], s_idempotency_keys = [], s_kv_state = []\<rparr>"

lemma repair_ts_layouts:
  assumes "Some v \<in> {strftime_z t, sql_datetime t, ts_without_z t}"
  shows "if Some v = ts_without_z t then repair_ts v = v else strftime_z t = Some (repair_ts v)"
proof -
  have r: "ts_min \<le> t" "t \<le> ts_max"
    using assms by (auto simp: strftime_z_def sql_datetime_def ts_without_z_def split: if_splits)
  obtain y1 y2 y3 y4 m1 m2 d1 d2 h1 h2 i1 i2 s1 s2 where
    e: "\<forall>sep suf. render_ts sep suf (ts_fields t) =
       [y1, y2, y3, y4, CHR ''-'', m1, m2, CHR ''-'', d1, d2] @ sep @
       [h1, h2, CHR '':'', i1, i2, CHR '':'', s1, s2] @ suf"
    and d: "\<forall>c\<in>set [y1, y2, y3, y4, m1, m2, d1, d2, h1, h2, i1, i2, s1, s2]. is_ascii_digit c"
    by (rule rendered_chars [OF r])
  have dig: "to_ascii_uppercase_char c = c \<and> c \<noteq> CHR ''T'' \<and> CHR ''T'' \<noteq> c \<and> c \<noteq> CHR '' ''"
    if "is_ascii_digit c" for c
    using that by (auto simp: is_ascii_digit_def to_ascii_uppercase_char_def byte_def)
  have sym: "to_ascii_uppercase_char (CHR ''T'') = CHR ''T''" "to_ascii_uppercase_char (CHR ''-'') = CHR ''-''"
    "to_ascii_uppercase_char (CHR '':'') = CHR '':''" "to_ascii_uppercase_char (CHR '' '') = CHR '' ''"
    by (simp_all add: to_ascii_uppercase_char_def byte_def)
  show ?thesis
  proof (cases "Some v = ts_without_z t")
    case True
    then have "repair_ts v = v" using r by (simp add: ts_without_z_def repair_ts_def e sym to_ascii_uppercase_def)
    with True show ?thesis by simp
  next
    case False
    with assms r have "v = render_ts ''T'' ''Z'' (ts_fields t) \<or> v = render_ts '' '' [] (ts_fields t)"
      by (auto simp: strftime_z_def sql_datetime_def)
    then have "repair_ts v = render_ts ''T'' ''Z'' (ts_fields t)"
      using d dig by (elim disjE) (simp_all add: repair_ts_def e sym to_ascii_uppercase_def)
    with r False show ?thesis by (simp add: strftime_z_def)
  qed
qed

lemma repair_keeps_layouts:
  "Some v \<in> {strftime_z t, sql_datetime t, ts_without_z t} \<Longrightarrow>
   Some (repair_ts v) \<in> {strftime_z t, sql_datetime t, ts_without_z t}"
  using repair_ts_layouts [of v t] by (auto split: if_splits)

lemma rfc3339_repair [simp]: "strftime_z t = Some v \<Longrightarrow> repair_ts v = v"
  using repair_ts_layouts [of v t] without_z_distinct [of t v t] by (auto split: if_splits)

lemma repair_ts_kept: "stored_ts v \<Longrightarrow> stored_ts (repair_ts v)" "ts_readable v \<Longrightarrow> ts_readable (repair_ts v)"
  unfolding stored_ts_def ts_readable_def using repair_keeps_layouts by blast+

lemma readable_stored: "ts_readable v \<Longrightarrow> stored_ts v"
  by (auto simp: ts_readable_def stored_ts_def)

lemma repair_twice: "stored_ts v \<Longrightarrow> repair_ts (repair_ts v) = repair_ts v"
  using repair_ts_layouts [of v] rfc3339_repair by (fastforce simp: stored_ts_def split: if_splits)

lemma readable_plus_hour:
  assumes "ts_readable v"
  shows "\<exists>u. Option.bind (sqlite_parse v) (\<lambda>t. strftime_z (t + 3600)) = Some u \<and> stored_ts u"
proof -
  obtain t where t: "Some v \<in> {strftime_z t, sql_datetime t, ts_without_z t}" "t + 3600 \<le> ts_max"
    using assms by (auto simp: ts_readable_def)
  then have "sqlite_parse v = Some t" "ts_min \<le> t"
    using sqlite_parse_layouts [of v t]
    by (auto simp: strftime_z_def sql_datetime_def ts_without_z_def split: if_splits)
  with t(2) have "Option.bind (sqlite_parse v) (\<lambda>t. strftime_z (t + 3600)) = strftime_z (t + 3600)"
    "strftime_z (t + 3600) = Some (render_ts ''T'' ''Z'' (ts_fields (t + 3600)))"
    by (simp_all add: strftime_z_def)
  then show ?thesis unfolding stored_ts_def by (metis insertI1)
qed

lemma carried:
  assumes "distinct (map m_id ms)" "inj_on fresh (m_id ` set ms)"
    and "\<forall>k\<in>set ks. \<forall>m\<in>set ms. k_id k = fresh (m_id m) \<longrightarrow> k_key_hash k = m_api_key_hash m"
    and "set ms' \<subseteq> set ms"
  shows "(\<forall>k\<in>set (fold (carry_key fresh) ms' ks). \<forall>m\<in>set ms.
      k_id k = fresh (m_id m) \<longrightarrow> k_key_hash k = m_api_key_hash m) \<and>
    set ks \<subseteq> set (fold (carry_key fresh) ms' ks) \<and>
    (\<forall>m\<in>set ms'. m_api_key_hash m = [] \<or> \<not> ts_pattern (m_created_at m) \<or>
       m_api_key_hash m \<in> k_key_hash ` set (fold (carry_key fresh) ms' ks))"
  using assms(3,4)
proof (induction ms' arbitrary: ks)
  case (Cons m ms')
  have one: "m = m'" if "m' \<in> set ms" "fresh (m_id m) = fresh (m_id m')" for m'
    using that assms(1,2) Cons.prems(2) by (metis distinct_map inj_onD imageI insert_subset list.simps(15))
  have kept: "\<forall>k\<in>set (carry_key fresh m ks). \<forall>m\<in>set ms. k_id k = fresh (m_id m) \<longrightarrow> k_key_hash k = m_api_key_hash m"
    using Cons.prems(1) one by (auto simp: carry_key_def)
  have grow: "set ks \<subseteq> set (carry_key fresh m ks)" by (auto simp: carry_key_def)
  have here: "m_api_key_hash m = [] \<or> \<not> ts_pattern (m_created_at m) \<or>
      m_api_key_hash m \<in> k_key_hash ` set (carry_key fresh m ks)"
  proof (cases "m_api_key_hash m \<in> k_key_hash ` set ks")
    case True
    then show ?thesis using grow by blast
  next
    case False
    then have "\<not> (\<exists>k\<in>set ks. k_id k = fresh (m_id m) \<or> k_key_hash k = m_api_key_hash m)"
      using Cons.prems by force
    then show ?thesis by (simp add: carry_key_def)
  qed
  show ?case
    using Cons.IH [OF kept] Cons.prems(2) grow here by auto
qed simp

lemma carry_idle:
  "\<forall>m\<in>set ms. m_api_key_hash m = [] \<or> \<not> ts_pattern (m_created_at m) \<or> m_api_key_hash m \<in> k_key_hash ` set ks \<Longrightarrow>
   fold (carry_key fresh) ms ks = ks"
proof (induction ms)
  case (Cons m ms)
  then have "carry_key fresh m ks = ks" by (auto simp: carry_key_def)
  with Cons show ?case by simp
qed simp

lemma backfilled:
  "set rows \<subseteq> set (fold (backfill_tx ts) ps rows) \<and>
   (\<forall>p\<in>set ps. \<forall>tx n. legacy_tx p = Some (tx, n) \<longrightarrow>
      (\<exists>t\<in>set (fold (backfill_tx ts) ps rows). t_payment_id t = o_id p \<and> t_tx_hash t = tx))"
proof (induction ps arbitrary: rows)
  case (Cons p ps)
  have "set rows \<subseteq> set (backfill_tx ts p rows)"
    "\<forall>tx n. legacy_tx p = Some (tx, n) \<longrightarrow> (\<exists>t\<in>set (backfill_tx ts p rows). t_payment_id t = o_id p \<and> t_tx_hash t = tx)"
    by (auto simp: backfill_tx_def split: option.splits)
  then show ?case using Cons.IH [of "backfill_tx ts p rows"] by fastforce
qed simp

text \<open>A ledger row that the backfill made from an intent.\<close>

definition from_intent :: "string \<Rightarrow> old_payment list \<Rightarrow> processed_tx \<Rightarrow> bool" where
  "from_intent ts ps t \<longleftrightarrow>
     t_created_at t = ts \<and> (\<exists>p\<in>set ps. t_payment_id t = o_id p \<and> o_tx_hash p = Some (t_tx_hash t) \<and>
       (\<exists>paid. o_paid_amount p = Some paid \<and> parse_stroops paid = Some (t_amount_stroops t)))"

lemma backfill_new:
  "\<exists>new. fold (backfill_tx ts) ps rows = rows @ new \<and> (\<forall>t\<in>set new. from_intent ts ps t)"
proof (induction ps arbitrary: rows)
  case (Cons p ps)
  have "\<exists>new. backfill_tx ts p rows = rows @ new \<and> (\<forall>t\<in>set new. from_intent ts [p] t)"
    by (auto simp: backfill_tx_def legacy_tx_def from_intent_def split: option.splits if_splits)
  then obtain a where a: "backfill_tx ts p rows = rows @ a" "\<forall>t\<in>set a. from_intent ts [p] t" by blast
  obtain b where b: "fold (backfill_tx ts) ps (rows @ a) = (rows @ a) @ b" "\<forall>t\<in>set b. from_intent ts ps t"
    using Cons.IH by blast
  show ?case by (rule exI [of _ "a @ b"]) (use a b in \<open>auto simp: from_intent_def\<close>)
qed simp

lemma backfill_idle:
  "\<forall>p\<in>set ps. \<forall>tx n. legacy_tx p = Some (tx, n) \<longrightarrow> (\<exists>t\<in>set rows. t_payment_id t = o_id p \<and> t_tx_hash t = tx) \<Longrightarrow>
   fold (backfill_tx ts) ps rows = rows"
proof (induction ps)
  case (Cons p ps)
  then have "backfill_tx ts p rows = rows" by (auto simp: backfill_tx_def split: option.splits)
  with Cons show ?case by simp
qed simp

lemmas step_defs = add_expires_at_def fill_expires_at_def add_asset_issuer_def add_event_type_def
  add_acknowledged_at_def carry_keys_def backfill_ledger_def repair_created_at_def repair_updated_at_def
  repair_expires_at_def repair_deliveries_def

lemma legacy_tx_kept [simp]:
  "legacy_tx (p\<lparr>o_expires_at := v\<rparr>) = legacy_tx p" "legacy_tx (p\<lparr>o_created_at := u\<rparr>) = legacy_tx p"
  "legacy_tx (p\<lparr>o_updated_at := u\<rparr>) = legacy_tx p" "legacy_tx (p\<lparr>o_asset_issuer := v\<rparr>) = legacy_tx p"
  by (simp_all add: legacy_tx_def)

lemma fill_row_ok: "row_ok p \<Longrightarrow> row_ok (fill_row p)" "row_ok p \<Longrightarrow> o_expires_at (fill_row p) \<noteq> None"
  using readable_plus_hour [of "o_created_at p"] by (auto simp: row_ok_def fill_row_def)

lemma row_ok_updates:
  "row_ok p \<Longrightarrow> row_ok (p\<lparr>o_expires_at := None\<rparr>)" "row_ok p \<Longrightarrow> row_ok (p\<lparr>o_asset_issuer := v\<rparr>)"
  "row_ok p \<Longrightarrow> row_ok (p\<lparr>o_created_at := repair_ts (o_created_at p)\<rparr>)"
  "row_ok p \<Longrightarrow> row_ok (p\<lparr>o_updated_at := repair_ts (o_updated_at p)\<rparr>)"
  "row_ok p \<Longrightarrow> row_ok (p\<lparr>o_expires_at := map_option repair_ts (o_expires_at p)\<rparr>)"
  by (auto simp: row_ok_def repair_ts_kept)

lemma fresh_ids_carry: "fresh_ids fresh s \<Longrightarrow> fresh_ids fresh (carry_keys fresh s)"
  using carried [of "s_merchants s" fresh "s_api_keys s" "s_merchants s"]
  by (simp add: fresh_ids_def carry_keys_def)

lemma fresh_ids_frame:
  "s_merchants s' = s_merchants s \<Longrightarrow> s_api_keys s' = s_api_keys s \<Longrightarrow> fresh_ids fresh s' = fresh_ids fresh s"
  by (simp add: fresh_ids_def)

lemma old_ok_steps:
  assumes "old_ok (fresh, ts) s"
  shows "list_all (\<lambda>f. old_ok (fresh, ts) (f s)) (migrate_steps fresh ts)"
proof -
  have ok: "\<forall>p\<in>set (s_payments s). row_ok p" "\<forall>r\<in>set (s_deliveries s). stored_ts (d_created_at r)"
    "fresh_ids fresh s" using assms by (simp_all add: old_ok_def)
  have frame: "old_ok (fresh, ts) s'"
    if "s_merchants s' = s_merchants s" "s_api_keys s' = s_api_keys s"
      "\<forall>p\<in>set (s_payments s'). row_ok p" "\<forall>r\<in>set (s_deliveries s'). stored_ts (d_created_at r)" for s'
    using that(3,4) ok(3) fresh_ids_frame [OF that(1,2)] by (simp add: old_ok_def)
  have c: "old_ok (fresh, ts) (carry_keys fresh s)"
    using ok fresh_ids_carry by (simp add: old_ok_def carry_keys_def)
  have l: "old_ok (fresh, ts) (backfill_ledger ts s)" using ok by (intro frame) (simp_all add: backfill_ledger_def)
  have n: "old_ok (fresh, ts) (add_expires_at s)" "old_ok (fresh, ts) (add_asset_issuer s)"
    "old_ok (fresh, ts) (add_event_type s)" "old_ok (fresh, ts) (add_acknowledged_at s)"
    using ok by (intro frame; auto simp: add_expires_at_def add_asset_issuer_def add_event_type_def
        add_acknowledged_at_def intro!: row_ok_updates(1,2))+
  have rows: "old_ok (fresh, ts) (s\<lparr>s_payments := map g (s_payments s)\<rparr>)" if "\<And>p. row_ok p \<Longrightarrow> row_ok (g p)" for g
    using ok that by (intro frame) simp_all
  have r: "old_ok (fresh, ts) (fill_expires_at s)" "old_ok (fresh, ts) (repair_created_at s)"
    "old_ok (fresh, ts) (repair_updated_at s)" "old_ok (fresh, ts) (repair_expires_at s)"
    unfolding fill_expires_at_def repair_created_at_def repair_updated_at_def repair_expires_at_def
    by (rule rows; erule fill_row_ok(1) row_ok_updates)+
  have d: "old_ok (fresh, ts) (repair_deliveries s)"
    using ok by (intro frame) (simp_all add: repair_deliveries_def repair_ts_kept)
  show ?thesis by (simp add: migrate_steps_def c l n r d)
qed

lemma steps_establish:
  "list_all2 (\<lambda>f P. \<forall>s. old_ok (fresh, ts) s \<longrightarrow> P (f s)) (migrate_steps fresh ts) complete_steps"
proof -
  have carry: "\<forall>m\<in>set (s_merchants (carry_keys fresh s)). m_api_key_hash m = [] \<or> \<not> ts_pattern (m_created_at m) \<or>
      m_api_key_hash m \<in> k_key_hash ` set (s_api_keys (carry_keys fresh s))" if "old_ok (fresh, ts) s" for s
    using carried [of "s_merchants s" fresh "s_api_keys s" "s_merchants s"] that
    by (simp add: old_ok_def fresh_ids_def carry_keys_def)
  have "\<forall>p\<in>set (s_payments (backfill_ledger ts s)). \<forall>tx n. legacy_tx p = Some (tx, n) \<longrightarrow>
      (\<exists>t\<in>set (s_processed (backfill_ledger ts s)). t_payment_id t = o_id p \<and> t_tx_hash t = tx)" for s
    using backfilled [of "s_processed s" ts "s_payments s"] by (simp add: backfill_ledger_def)
  note ledger = this
  have rows: "row_ok p" if "old_ok (fresh, ts) s" "p \<in> set (s_payments s)" for s p
    using that by (simp add: old_ok_def)
  have expires: "\<forall>p\<in>set (s_payments (fill_expires_at s)). o_expires_at p \<noteq> None"
    "\<forall>p\<in>set (s_payments (repair_created_at s)). repair_ts (o_created_at p) = o_created_at p"
    "\<forall>p\<in>set (s_payments (repair_updated_at s)). repair_ts (o_updated_at p) = o_updated_at p"
    "\<forall>p\<in>set (s_payments (repair_expires_at s)). map_option repair_ts (o_expires_at p) = o_expires_at p"
    "\<forall>r\<in>set (s_deliveries (repair_deliveries s)). repair_ts (d_created_at r) = d_created_at r" if "old_ok (fresh, ts) s" for s
  proof -
    show "\<forall>p\<in>set (s_payments (repair_expires_at s)). map_option repair_ts (o_expires_at p) = o_expires_at p"
    proof
      fix q assume "q \<in> set (s_payments (repair_expires_at s))"
      then obtain p where "p \<in> set (s_payments s)" "o_expires_at q = map_option repair_ts (o_expires_at p)"
        by (auto simp: repair_expires_at_def)
      with rows [OF that] show "map_option repair_ts (o_expires_at q) = o_expires_at q"
        by (cases "o_expires_at p") (simp_all add: row_ok_def repair_twice)
    qed
  qed (use rows [OF that] that fill_row_ok(2) repair_twice readable_stored in
      \<open>auto simp: fill_expires_at_def repair_created_at_def repair_updated_at_def repair_deliveries_def row_ok_def old_ok_def\<close>)
  show ?thesis
    unfolding migrate_steps_def complete_steps_def list_all2_Cons
    by (intro conjI allI impI carry ledger expires list_all2_Nil [THEN iffD2] refl;
        simp add: add_expires_at_def add_asset_issuer_def add_event_type_def add_acknowledged_at_def)
qed

lemma steps_idle: "list_all2 (\<lambda>f P. \<forall>s. P s \<longrightarrow> f s = s) (migrate_steps fresh ts) complete_steps"
proof -
  have fill: "map fill_row ps = ps" if "\<forall>p\<in>set ps. o_expires_at p \<noteq> None" for ps
    using that by (intro map_idI) (auto simp: fill_row_def)
  have repair: "map (\<lambda>p. p\<lparr>o_created_at := repair_ts (o_created_at p)\<rparr>) ps = ps"
    if "\<forall>p\<in>set ps. repair_ts (o_created_at p) = o_created_at p" for ps
    using that by (intro map_idI) simp
  have repair': "map (\<lambda>p. p\<lparr>o_updated_at := repair_ts (o_updated_at p)\<rparr>) ps = ps"
    if "\<forall>p\<in>set ps. repair_ts (o_updated_at p) = o_updated_at p" for ps
    using that by (intro map_idI) simp
  have repair'': "map (\<lambda>p. p\<lparr>o_expires_at := map_option repair_ts (o_expires_at p)\<rparr>) ps = ps"
    if "\<forall>p\<in>set ps. map_option repair_ts (o_expires_at p) = o_expires_at p" for ps
    using that by (intro map_idI) simp
  have repairs: "map (\<lambda>r. r\<lparr>d_created_at := repair_ts (d_created_at r)\<rparr>) rs = rs"
    if "\<forall>r\<in>set rs. repair_ts (d_created_at r) = d_created_at r" for rs
    using that by (intro map_idI) simp
  show ?thesis
    unfolding migrate_steps_def complete_steps_def list_all2_Cons
    by (intro conjI allI impI list_all2_Nil [THEN iffD2] refl;
        simp add: step_defs fill carry_idle backfill_idle repair repair' repair'' repairs)
qed

lemma steps_keep:
  "sorted_wrt (\<lambda>(f, P) (g, Q). \<forall>s. old_ok (fresh, ts) s \<longrightarrow> P s \<longrightarrow> P (g s)) (zip (migrate_steps fresh ts) complete_steps)"
proof -
  have rows: "o_id (fill_row p) = o_id p" "legacy_tx (fill_row p) = legacy_tx p" for p
    by (simp_all add: fill_row_def)
  show ?thesis
    unfolding migrate_steps_def complete_steps_def
    by (simp del: imp_conjL not_None_eq)
      (intro conjI allI impI; simp add: step_defs rows image_iff)
qed

interpretation migration: restartable old_ok "\<lambda>(fresh, ts). migrate_steps fresh ts" complete_steps
proof (unfold_locales, goal_cases)
  case (1 x)
  then show ?case by (cases x) (simp add: migrate_steps_def complete_steps_def)
next
  case (2 f x s)
  then show ?case using old_ok_steps [of "fst x" "snd x" s] by (cases x) (auto simp: list_all_iff)
next
  case (3 x)
  then show ?case using steps_establish [of "fst x" "snd x"] by (cases x) simp
next
  case (4 x)
  then show ?case using steps_idle by (cases x) simp
next
  case (5 x)
  then show ?case using steps_keep [of "fst x" "snd x"] by (cases x) simp
qed

section \<open>What an upgrade leaves\<close>

lemma migrate_steps_length: "length (migrate_steps fresh ts) = 11"
  by (simp add: migrate_steps_def)

lemma migrate_unfold:
  "migrate fresh ts s = repair_deliveries (repair_expires_at (repair_updated_at (repair_created_at
     (backfill_ledger ts (carry_keys fresh (add_acknowledged_at (add_event_type (add_asset_issuer
       (fill_expires_at (add_expires_at s))))))))))"
  by (simp add: migrate_def migrate_steps_def)

lemma migrate_keys_table: "s_api_keys (migrate fresh ts s) = fold (carry_key fresh) (s_merchants s) (s_api_keys s)"
  by (simp add: migrate_unfold step_defs)

lemma backfill_tx_frame:
  "o_id q = o_id p \<Longrightarrow> legacy_tx q = legacy_tx p \<Longrightarrow> backfill_tx ts q rows = backfill_tx ts p rows"
  by (cases "legacy_tx p") (auto simp: backfill_tx_def)

lemma migrate_ledger_table:
  "s_processed (migrate fresh ts s) = fold (backfill_tx ts) (s_payments s) (s_processed s)"
proof -
  have "fold (backfill_tx ts) (map g ps) rows = fold (backfill_tx ts) ps rows"
    if g: "\<And>p. o_id (g p) = o_id p" "\<And>p. legacy_tx (g p) = legacy_tx p" for g ps rows
    by (induction ps arbitrary: rows) (simp_all add: backfill_tx_frame [OF g])
  then show ?thesis unfolding migrate_unfold step_defs by (simp add: fill_row_def)
qed

lemma repair_parse:
  assumes "stored_ts v"
  obtains t where "sqlite_parse v = Some t" "repaired t v (repair_ts v)"
proof -
  obtain t where t: "Some v \<in> {strftime_z t, sql_datetime t, ts_without_z t}" using assms by (auto simp: stored_ts_def)
  then show ?thesis using that [of t] sqlite_parse_layouts [OF t] repair_ts_layouts [OF t]
    by (simp add: repaired_def eq_commute [of "Some v"])
qed

lemma upgraded_row:
  assumes ok: "row_ok p" and p': "p' = fill_row (p\<lparr>o_expires_at := stored_deadline s p\<rparr>)"
    and q: "q = p'\<lparr>o_asset_issuer := if s_has_asset_issuer s then o_asset_issuer p' else None,
      o_created_at := repair_ts (o_created_at p'), o_updated_at := repair_ts (o_updated_at p'),
      o_expires_at := map_option repair_ts (o_expires_at p')\<rparr>"
  shows "upgraded s p q"
proof -
  have c: "ts_readable (o_created_at p)" and u: "stored_ts (o_updated_at p)"
    and e: "\<And>v. stored_deadline s p = Some v \<Longrightarrow> stored_ts v"
    using ok by (auto simp: row_ok_def stored_deadline_def split: if_splits)
  obtain tc where tc: "sqlite_parse (o_created_at p) = Some tc" "repaired tc (o_created_at p) (repair_ts (o_created_at p))"
    using repair_parse [OF readable_stored [OF c]] .
  obtain tu where tu: "sqlite_parse (o_updated_at p) = Some tu" "repaired tu (o_updated_at p) (repair_ts (o_updated_at p))"
    using repair_parse [OF u] .
  have rest: "o_created_at p' = o_created_at p" "o_updated_at p' = o_updated_at p"
    "o_asset_issuer p' = o_asset_issuer p" "p' = p\<lparr>o_expires_at := o_expires_at p'\<rparr>"
    by (simp_all add: p' fill_row_def)
  obtain te v where te: "o_expires_at p' = Some v" "case stored_deadline s p of
      None \<Rightarrow> te = tc + 3600 \<and> strftime_z te = Some (repair_ts v)
    | Some d \<Rightarrow> sqlite_parse d = Some te \<and> repaired te d (repair_ts v)"
  proof (cases "stored_deadline s p")
    case None
    obtain v where v: "strftime_z (tc + 3600) = Some v" using readable_plus_hour [OF c] tc(1) by auto
    with None tc(1) show ?thesis by (intro that [of v "tc + 3600"]) (simp_all add: p' fill_row_def)
  next
    case (Some v)
    obtain t where "sqlite_parse v = Some t" "repaired t v (repair_ts v)" using repair_parse [OF e [OF Some]] .
    with Some show ?thesis by (intro that [of v t]) (simp_all add: p' fill_row_def)
  qed
  have "p' = p\<lparr>o_expires_at := Some v\<rparr>" using rest(4) te(1) by simp
  then have q': "q = p\<lparr>o_asset_issuer := if s_has_asset_issuer s then o_asset_issuer p else None,
      o_created_at := repair_ts (o_created_at p), o_updated_at := repair_ts (o_updated_at p),
      o_expires_at := Some (repair_ts v)\<rparr>" by (simp add: q)
  show ?thesis unfolding upgraded_def
    by (intro conjI exI [of _ tc] exI [of _ tu] exI [of _ te] exI [of _ "repair_ts v"])
      (use tc tu te in \<open>simp_all add: q'\<close>)
qed

lemma migrate_payments_table:
  "s_payments (migrate fresh ts s) = map (\<lambda>p.
     let p' = fill_row (p\<lparr>o_expires_at := stored_deadline s p\<rparr>)
     in p'\<lparr>o_asset_issuer := if s_has_asset_issuer s then o_asset_issuer p' else None,
          o_created_at := repair_ts (o_created_at p'), o_updated_at := repair_ts (o_updated_at p'),
          o_expires_at := map_option repair_ts (o_expires_at p')\<rparr>) (s_payments s)"
  by (simp add: migrate_unfold step_defs stored_deadline_def Let_def)

lemma legacy_db_ok: "old_ok (\<lambda>i. i, ts) legacy_db"
proof -
  have "ts_readable ''0000-01-01 00:00:00''"
    unfolding ts_readable_def by (rule exI [of _ ts_min]) (simp add: year_zero_texts, simp add: ts_min_def ts_max_def)
  moreover have "stored_ts ''0000-01-01T00:00:01Z''"
    unfolding stored_ts_def by (rule exI [of _ "ts_min + 1"]) (simp add: year_zero_texts)
  ultimately show ?thesis by (simp add: old_ok_def legacy_db_def row_ok_def fresh_ids_def)
qed

lemma legacy_db_rows:
  "k_key_hash ` set (s_api_keys legacy_db) = {}" "length (s_payments legacy_db) = 1"
  "m_api_key_hash ` {m \<in> set (s_merchants legacy_db). m_api_key_hash m \<noteq> [] \<and> ts_pattern (m_created_at m)} = {''h1''}"
  "legacy_tx (s_payments legacy_db ! 0) = Some (''tx1'', 50000000)"
proof -
  have "ts_pattern ''0000-01-01T00:00:01Z''" "\<not> ts_pattern ''0000-01-01 00:00:00''" by code_simp+
  then show "m_api_key_hash ` {m \<in> set (s_merchants legacy_db). m_api_key_hash m \<noteq> [] \<and> ts_pattern (m_created_at m)} = {''h1''}"
    by (auto simp: legacy_db_def image_iff conj_disj_distribR ex_disj_distrib)
  show "legacy_tx (s_payments legacy_db ! 0) = Some (''tx1'', 50000000)" by code_simp
qed (simp_all add: legacy_db_def)

text \<open>
  C15: the key table after an upgrade holds the rows it had and, as unrevoked rows of their merchant, exactly the
  hashes of those merchants whose own creation time has the canonical pattern. The insert ignores a row
  that violates the check on \<open>created_at\<close>, and the creation times of merchants are never repaired: the key
  of a merchant with an old-layout creation time is not carried over.
\<close>

theorem migrate_keys:
  assumes "old_ok (fresh, ts) s"
  shows "k_key_hash ` set (s_api_keys (migrate fresh ts s)) =
      k_key_hash ` set (s_api_keys s) \<union>
      m_api_key_hash ` {m \<in> set (s_merchants s). m_api_key_hash m \<noteq> [] \<and> ts_pattern (m_created_at m)} \<and>
    (\<exists>new. s_api_keys (migrate fresh ts s) = s_api_keys s @ new \<and>
      (\<forall>k\<in>set new. k_revoked_at k = None \<and>
         (\<exists>m\<in>set (s_merchants s). k_merchant_id k = m_id m \<and> k_key_hash k = m_api_key_hash m)))"
proof -
  have new: "\<exists>new. fold (carry_key fresh) ms ks = ks @ new \<and>
      (\<forall>k\<in>set new. k_revoked_at k = None \<and> (\<exists>m\<in>set ms. k_merchant_id k = m_id m \<and> k_key_hash k = m_api_key_hash m
         \<and> m_api_key_hash m \<noteq> [] \<and> ts_pattern (m_created_at m)))" for ms ks
  proof (induction ms arbitrary: ks)
    case (Cons m ms)
    show ?case using Cons.IH [of "carry_key fresh m ks"] by (auto simp: carry_key_def split: if_splits)
  qed simp
  then obtain new where n: "s_api_keys (migrate fresh ts s) = s_api_keys s @ new"
    "\<forall>k\<in>set new. k_revoked_at k = None \<and> (\<exists>m\<in>set (s_merchants s). k_merchant_id k = m_id m \<and>
       k_key_hash k = m_api_key_hash m \<and> m_api_key_hash m \<noteq> [] \<and> ts_pattern (m_created_at m))"
    unfolding migrate_keys_table by blast
  have "m_api_key_hash m \<in> k_key_hash ` set (s_api_keys s @ new)"
    if "m \<in> set (s_merchants s)" "m_api_key_hash m \<noteq> []" "ts_pattern (m_created_at m)" for m
    using that assms carried [of "s_merchants s" fresh "s_api_keys s" "s_merchants s"] n(1)
    by (auto simp: old_ok_def fresh_ids_def migrate_keys_table)
  then show ?thesis using n by (auto simp: image_iff)
qed

theorem migrate_keys_witness: "k_key_hash ` set (s_api_keys (migrate (\<lambda>i. i) [] legacy_db)) = {''h1''}"
  using migrate_keys [OF legacy_db_ok [of "[]"]] by (simp add: legacy_db_rows)

text \<open>
  C13: an upgrade leaves every intent with its columns, its three timestamps denoting the same seconds, and a
  deadline one hour after its creation where it had none. Timestamps in the canonical layout and in
  that of \<open>datetime('now')\<close> end canonical, those with a \<open>T\<close> but no \<open>Z\<close> stay as they are. The ledger keeps
  its rows and gains exactly the transactions recorded on the intents themselves that it did not
  have, each with the amount paid.
\<close>

theorem migrate_upgrades:
  assumes "old_ok (fresh, ts) s"
  shows "list_all2 (upgraded s) (s_payments s) (s_payments (migrate fresh ts s)) \<and>
    (\<exists>new. s_processed (migrate fresh ts s) = s_processed s @ new \<and>
       (\<forall>t\<in>set new. t_created_at t = ts \<and> (\<exists>p\<in>set (s_payments s). t_payment_id t = o_id p \<and>
          o_tx_hash p = Some (t_tx_hash t) \<and>
          (\<exists>paid. o_paid_amount p = Some paid \<and> parse_stroops paid = Some (t_amount_stroops t)))) \<and>
       (\<forall>p\<in>set (s_payments s). \<forall>tx n. legacy_tx p = Some (tx, n) \<longrightarrow>
          (\<exists>t\<in>set (s_processed s @ new). t_payment_id t = o_id p \<and> t_tx_hash t = tx)))"
proof
  have "\<forall>p\<in>set (s_payments s). row_ok p" using assms by (simp add: old_ok_def)
  then show "list_all2 (upgraded s) (s_payments s) (s_payments (migrate fresh ts s))"
    unfolding migrate_payments_table by (simp add: list_all2_map2 list_all2_same Let_def upgraded_row [OF _ refl refl])
  obtain new where "fold (backfill_tx ts) (s_payments s) (s_processed s) = s_processed s @ new"
    "\<forall>t\<in>set new. from_intent ts (s_payments s) t" using backfill_new by blast
  with backfilled [of "s_processed s" ts "s_payments s"]
  show "\<exists>new. s_processed (migrate fresh ts s) = s_processed s @ new \<and>
       (\<forall>t\<in>set new. t_created_at t = ts \<and> (\<exists>p\<in>set (s_payments s). t_payment_id t = o_id p \<and>
          o_tx_hash p = Some (t_tx_hash t) \<and>
          (\<exists>paid. o_paid_amount p = Some paid \<and> parse_stroops paid = Some (t_amount_stroops t)))) \<and>
       (\<forall>p\<in>set (s_payments s). \<forall>tx n. legacy_tx p = Some (tx, n) \<longrightarrow>
          (\<exists>t\<in>set (s_processed s @ new). t_payment_id t = o_id p \<and> t_tx_hash t = tx))"
    unfolding migrate_ledger_table from_intent_def by (intro exI [of _ new]) auto
qed

theorem migrate_upgrades_witness:
  "upgraded legacy_db (s_payments legacy_db ! 0) (s_payments (migrate (\<lambda>i. i) [] legacy_db) ! 0) \<and>
   (''tx1'', 50000000) \<in> (\<lambda>t. (t_tx_hash t, t_amount_stroops t)) ` set (s_processed (migrate (\<lambda>i. i) [] legacy_db))"
proof -
  have p: "s_payments legacy_db ! 0 \<in> set (s_payments legacy_db)" "s_processed legacy_db = []"
    "\<forall>p\<in>set (s_payments legacy_db). o_paid_amount p = Some ''5''" by (simp_all add: legacy_db_def)
  have five: "parse_stroops ''5'' = Some 50000000" by code_simp
  from migrate_upgrades [OF legacy_db_ok [of "[]"]] obtain new where
    n: "s_processed (migrate (\<lambda>i. i) [] legacy_db) = s_processed legacy_db @ new"
    and a: "\<And>t. t \<in> set new \<Longrightarrow> \<exists>p\<in>set (s_payments legacy_db). \<exists>paid.
      o_paid_amount p = Some paid \<and> parse_stroops paid = Some (t_amount_stroops t)"
    and b: "\<And>p tx n. p \<in> set (s_payments legacy_db) \<Longrightarrow> legacy_tx p = Some (tx, n) \<Longrightarrow>
      \<exists>t\<in>set (s_processed legacy_db @ new). t_payment_id t = o_id p \<and> t_tx_hash t = tx" by metis
  obtain t where t: "t \<in> set new" "t_tx_hash t = ''tx1''" using b [OF p(1) legacy_db_rows(4)] p(2) by auto
  then have "t_amount_stroops t = 50000000" using a [OF t(1)] p(3) five by fastforce
  with t n p(2) have "(''tx1'', 50000000) \<in> (\<lambda>t. (t_tx_hash t, t_amount_stroops t)) ` set (s_processed (migrate (\<lambda>i. i) [] legacy_db))"
    by force
  moreover have "upgraded legacy_db (s_payments legacy_db ! 0) (s_payments (migrate (\<lambda>i. i) [] legacy_db) ! 0)"
    using migrate_upgrades [OF legacy_db_ok [of "[]"]] legacy_db_rows(2) by (simp add: list_all2_conv_all_nth)
  ultimately show ?thesis by blast
qed

lemma ledger_loop_resumes:
  "fold (backfill_tx ts') ps (fold (backfill_tx ts) (take j ps) rows) =
   fold (backfill_tx ts') (drop j ps) (fold (backfill_tx ts) (take j ps) rows)"
proof -
  let ?rows = "fold (backfill_tx ts) (take j ps) rows"
  have "fold (backfill_tx ts') (take j ps) ?rows = ?rows"
    by (rule backfill_idle) (rule backfilled [THEN conjunct2])
  moreover have "fold (backfill_tx ts') ps ?rows = fold (backfill_tx ts') (drop j ps) (fold (backfill_tx ts') (take j ps) ?rows)"
    by (metis append_take_drop_id comp_apply fold_append)
  ultimately show ?thesis by simp
qed

lemma before_ledger_frame:
  "i < 6 \<Longrightarrow> (complete_steps ! i) (s\<lparr>s_processed := rows\<rparr>) = (complete_steps ! i) s"
  by (auto simp: complete_steps_def less_Suc_eq numeral_eq_Suc)

text \<open>
  C14: a start-up interrupted after any step, or after any row of the loop over the legacy transactions, is
  completed by the next one, which repeats none of what was done, whatever identifiers and default
  timestamp it draws; a second complete one changes nothing.
\<close>

theorem migrate_resumes:
  assumes "old_ok (fresh, ts) s" "k \<le> length (migrate_steps fresh ts)"
  shows "(let t = fold (\<lambda>f. f) (take k (migrate_steps fresh ts)) s in
      migrate fresh' ts' t = fold (\<lambda>f. f) (drop k (migrate_steps fresh' ts')) t) \<and>
    (let t = fold (\<lambda>f. f) (take 6 (migrate_steps fresh ts)) s;
         u = t\<lparr>s_processed := fold (backfill_tx ts) (take j (s_payments t)) (s_processed t)\<rparr>
     in migrate fresh' ts' u = fold (\<lambda>f. f) (drop 7 (migrate_steps fresh' ts'))
          (u\<lparr>s_processed := fold (backfill_tx ts') (drop j (s_payments t)) (s_processed u)\<rparr>)) \<and>
    migrate fresh' ts' (migrate fresh ts s) = migrate fresh ts s"
proof -
  define t where "t = fold (\<lambda>f. f) (take 6 (migrate_steps fresh ts)) s"
  define u where "u = t\<lparr>s_processed := fold (backfill_tx ts) (take j (s_payments t)) (s_processed t)\<rparr>"
  have six: "\<forall>i<6. (complete_steps ! i) u"
    using migration.prefix_complete [of 6 "(fresh, ts)" s] assms(1)
    by (simp add: before_ledger_frame u_def t_def) (simp add: complete_steps_def)
  have "fold (\<lambda>f. f) (take 6 (migrate_steps fresh' ts')) u = u"
    using migration.idle_prefix [of 6 u "(fresh', ts')"] six by (simp add: complete_steps_def)
  then have "migrate fresh' ts' u = fold (\<lambda>f. f) (drop 6 (migrate_steps fresh' ts')) u"
    unfolding migrate_def by (metis append_take_drop_id comp_apply fold_append)
  also have "\<dots> = fold (\<lambda>f. f) (drop 7 (migrate_steps fresh' ts')) (backfill_ledger ts' u)"
    by (simp add: migrate_steps_def eval_nat_numeral)
  also have "backfill_ledger ts' u = u\<lparr>s_processed := fold (backfill_tx ts') (drop j (s_payments t)) (s_processed u)\<rparr>"
    by (simp add: backfill_ledger_def u_def ledger_loop_resumes)
  finally show ?thesis
    using migration.resume [of k "(fresh, ts)" s "(fresh', ts')"] migration.resume [of 11 "(fresh, ts)" s "(fresh', ts')"]
      assms
    unfolding Let_def t_def [symmetric] u_def [symmetric]
    by (simp add: migrate_def migrate_steps_length complete_steps_def)
qed

theorem migrate_resumes_witness:
  "migrate (\<lambda>i. ''k'' @ i) ''later'' (migrate (\<lambda>i. i) [] legacy_db) = migrate (\<lambda>i. i) [] legacy_db"
  using migrate_resumes [OF legacy_db_ok [of "[]"], of 0 "\<lambda>i. ''k'' @ i" "''later''"] by simp

end
