(* ===== verification/Upgrade.thy ===== *)
theory Upgrade
  imports Migrate Examples
begin

text \<open>
  Start-up on the database of an older version (\<open>main\<close> of \<open>src/main.rs\<close>): migrate, then pin the issuers.
  What the running gateway then reads satisfies the invariant of the tables, so the properties of
  interleaved tasks hold from an upgraded database on.
\<close>

section \<open>Start-up\<close>

text \<open>A row as the queries read it; decoding a \<open>NULL\<close> deadline panics.\<close>

definition read_payment :: "old_payment \<Rightarrow> payment option" where
  "read_payment p =
     map_option (\<lambda>e. \<lparr>p_id = o_id p, p_merchant_id = o_merchant_id p,
        p_destination_address = o_destination_address p, p_memo = o_memo p, p_amount = o_amount p,
        p_asset = o_asset p, p_status = o_status p, p_webhook_url = o_webhook_url p, p_tx_hash = o_tx_hash p,
        p_paid_amount = o_paid_amount p, p_created_at = o_created_at p, p_updated_at = o_updated_at p,
        p_expires_at = e, p_asset_issuer = o_asset_issuer p\<rparr>) (o_expires_at p)"

definition read_db :: "old_db \<Rightarrow> db option" where
  "read_db s =
     map_option (\<lambda>ps. \<lparr>payments = ps, webhook_deliveries = s_deliveries s, api_keys = s_api_keys s,
        merchants = s_merchants s, idempotency_keys = s_idempotency_keys s,
        processed_transactions = s_processed s, kv_state = s_kv_state s\<rparr>)
       (those (map read_payment (s_payments s)))"

definition start_up :: "(string \<Rightarrow> string) \<Rightarrow> string \<Rightarrow> config \<Rightarrow> old_db \<Rightarrow> db option" where
  "start_up fresh ts c s =
     map_option (backfill_asset_issuers (c_accepted_assets c)) (read_db (migrate fresh ts s))"

section \<open>Issuers\<close>

text \<open>The issuer an intent has after the backfill: its own, or else that of its code in the allow-list.\<close>

definition pinned_issuer :: "accepted_asset list \<Rightarrow> payment \<Rightarrow> string option" where
  "pinned_issuer as p =
     (if p_asset_issuer p \<notin> {None, Some []} then p_asset_issuer p
      else case find (\<lambda>a. to_ascii_uppercase (a_code a) = to_ascii_uppercase (p_asset p)) as of
        None \<Rightarrow> p_asset_issuer p
      | Some a \<Rightarrow> (case a_issuer a of None \<Rightarrow> p_asset_issuer p | Some i \<Rightarrow> Some i))"

text \<open>
  What is asked of the tables of an older version for the invariant to hold afterwards: canonical amounts,
  timestamps in one of the two layouts that the migration leaves canonical, and a completed intent
  is covered by its ledger rows together with the transaction recorded on the intent itself.
\<close>

definition rows_total :: "string \<Rightarrow> processed_tx list \<Rightarrow> int" where
  "rows_total pid rows = sum_list (map t_amount_stroops (filter (\<lambda>t. t_payment_id t = pid) rows))"

definition unledgered :: "processed_tx list \<Rightarrow> old_payment \<Rightarrow> int" where
  "unledgered rows p =
     (case legacy_tx p of
        Some (tx, n) \<Rightarrow> if \<exists>t\<in>set rows. t_payment_id t = o_id p \<and> t_tx_hash t = tx then 0 else n
      | None \<Rightarrow> 0)"

definition old_covered :: "processed_tx list \<Rightarrow> old_payment \<Rightarrow> bool" where
  "old_covered rows p \<longleftrightarrow>
     (case parse_stroops (o_amount p) of
        Some e \<Rightarrow> e \<le> rows_total (o_id p) rows + unledgered rows p
      | None \<Rightarrow> False)"

definition old_overdue :: "int \<Rightarrow> old_db \<Rightarrow> old_payment \<Rightarrow> bool" where
  "old_overdue now s p \<longleftrightarrow>
     (case stored_deadline s p of
        Some v \<Rightarrow> (\<exists>t. sqlite_parse v = Some t \<and> t \<le> now)
      | None \<Rightarrow> (\<exists>t. sqlite_parse (o_created_at p) = Some t \<and> t + 3600 \<le> now))"

text \<open>A timestamp that the migration brings into the canonical layout.\<close>

definition repairable :: "string \<Rightarrow> bool" where
  "repairable v \<longleftrightarrow> (\<exists>t. Some v \<in> {strftime_z t, sql_datetime t})"

definition old_row_inv :: "int \<Rightarrow> old_db \<Rightarrow> old_payment \<Rightarrow> bool" where
  "old_row_inv now s p \<longleftrightarrow>
     o_status p \<in> set statuses \<and> canonical (o_amount p) = Some (o_amount p) \<and>
     repairable (o_created_at p) \<and> repairable (o_updated_at p) \<and>
     (\<forall>v. o_expires_at p = Some v \<longrightarrow> repairable v) \<and>
     (o_status p = ''pending'' \<longrightarrow> o_tx_hash p = None \<and> o_paid_amount p = None) \<and>
     (o_status p = ''completed'' \<longrightarrow> old_covered (s_processed s) p) \<and>
     (o_status p = ''expired'' \<longrightarrow> old_overdue now s p)"

definition old_inv :: "int \<Rightarrow> old_db \<Rightarrow> bool" where
  "old_inv now s \<longleftrightarrow>
     (\<forall>p\<in>set (s_payments s). old_row_inv now s p) \<and>
     distinct (map o_id (s_payments s)) \<and> distinct (map o_memo (s_payments s)) \<and>
     (\<forall>r\<in>set (s_deliveries s). d_status r \<in> set delivery_statuses \<and> 0 \<le> d_attempts r \<and>
        repairable (d_created_at r)) \<and>
     distinct (map d_id (s_deliveries s)) \<and>
     (\<forall>t\<in>set (s_processed s). processed_ok t) \<and>
     distinct (map (\<lambda>t. (t_payment_id t, t_tx_hash t)) (s_processed s)) \<and>
     distinct (map (\<lambda>i. (i_merchant_id i, i_key i)) (s_idempotency_keys s)) \<and>
     distinct (map k_id (s_api_keys s)) \<and> distinct (map k_key_hash (s_api_keys s)) \<and>
     distinct (map kv_key (s_kv_state s))"

lemma backfill_issuer_pinned:
  assumes "\<forall>a\<in>set as. a_issuer a \<noteq> Some []"
  shows "distinct (map (to_ascii_uppercase \<circ> a_code) as) \<Longrightarrow>
    payments (backfill_asset_issuers as d) = map (\<lambda>p. p\<lparr>p_asset_issuer := pinned_issuer as p\<rparr>) (payments d)"
  using assms
proof (induction as arbitrary: d)
  case (Cons a as)
  have none: "find (\<lambda>b. to_ascii_uppercase (a_code b) = to_ascii_uppercase (p_asset p)) as = None"
    if "to_ascii_uppercase (a_code a) = to_ascii_uppercase (p_asset p)" for p
    using Cons.prems(1) that by (force simp: find_None_iff)
  show ?case
  proof (cases "a_issuer a")
    case None
    then have "pinned_issuer (a # as) p = pinned_issuer as p" for p
      using none [of p] by (auto simp: pinned_issuer_def)
    then show ?thesis using Cons None by simp
  next
    case (Some i)
    then have "pinned_issuer as (backfill_issuer (a_code a) i p) = pinned_issuer (a # as) p" for p
      using Cons.prems(2) none [of p] by (auto simp: pinned_issuer_def backfill_issuer_def)
    moreover have "(backfill_issuer (a_code a) i p)\<lparr>p_asset_issuer := v\<rparr> = p\<lparr>p_asset_issuer := v\<rparr>" for p v
      by (simp add: backfill_issuer_def)
    ultimately show ?thesis using Cons Some by simp
  qed
next
  case Nil
  have "pinned_issuer [] p = p_asset_issuer p" for p by (simp add: pinned_issuer_def)
  then show ?case by simp
qed

section \<open>The ledger and the keys of an upgraded database\<close>

lemma legacy_positive: "legacy_tx p = Some (tx, n) \<Longrightarrow> 0 < n \<and> n \<le> i64_max"
  by (auto simp: legacy_tx_def dest: parse_stroops_range split: option.splits if_splits)

lemma backfill_appends:
  "\<exists>new. fold (backfill_tx ts) ps rows = rows @ new \<and> (\<forall>t\<in>set new. processed_ok t)"
proof (induction ps arbitrary: rows)
  case (Cons p ps)
  have "\<exists>new. backfill_tx ts p rows = rows @ new \<and> (\<forall>t\<in>set new. processed_ok t)"
    using legacy_positive [of p] by (auto simp: backfill_tx_def processed_ok_def split: option.splits)
  then show ?case using Cons.IH [of "backfill_tx ts p rows"] by auto
qed simp

lemma backfill_distinct:
  "distinct (map (\<lambda>t. (t_payment_id t, t_tx_hash t)) rows) \<Longrightarrow>
   distinct (map (\<lambda>t. (t_payment_id t, t_tx_hash t)) (fold (backfill_tx ts) ps rows))"
proof (induction ps arbitrary: rows)
  case (Cons p ps)
  have "distinct (map (\<lambda>t. (t_payment_id t, t_tx_hash t)) (backfill_tx ts p rows))"
    using Cons.prems by (auto simp: backfill_tx_def split: option.splits)
  then show ?case using Cons.IH by simp
qed simp

lemma rows_total_append: "(\<forall>t\<in>set new. processed_ok t) \<Longrightarrow> rows_total pid rows \<le> rows_total pid (rows @ new)"
  unfolding rows_total_def by (force simp: processed_ok_def intro!: sum_list_nonneg)

lemma backfill_tx_total:
  "rows_total (o_id p) (backfill_tx ts p rows) = rows_total (o_id p) rows + unledgered rows p"
  "o_id q \<noteq> o_id p \<Longrightarrow> rows_total (o_id p) (backfill_tx ts q rows) + unledgered (backfill_tx ts q rows) p =
     rows_total (o_id p) rows + unledgered rows p"
  by (auto simp: backfill_tx_def rows_total_def unledgered_def split: option.splits)

lemma backfill_total:
  "distinct (map o_id ps) \<Longrightarrow> p \<in> set ps \<Longrightarrow>
   rows_total (o_id p) rows + unledgered rows p \<le> rows_total (o_id p) (fold (backfill_tx ts) ps rows)"
proof (induction ps arbitrary: rows)
  case (Cons q ps)
  show ?case
  proof (cases "p = q")
    case True
    obtain new where "fold (backfill_tx ts) ps (backfill_tx ts q rows) = backfill_tx ts q rows @ new"
      "\<forall>t\<in>set new. processed_ok t" using backfill_appends by blast
    then show ?thesis using rows_total_append [of new "o_id q" "backfill_tx ts q rows"] True
      by (simp add: backfill_tx_total)
  next
    case False
    then have "p \<in> set ps" "o_id q \<noteq> o_id p" using Cons.prems by force+
    then show ?thesis using Cons.IH [of "backfill_tx ts q rows"] Cons.prems(1) backfill_tx_total(2) [of q p ts rows]
      by simp
  qed
qed simp

lemma carry_distinct:
  "distinct (map k_id ks) \<Longrightarrow> distinct (map k_key_hash ks) \<Longrightarrow>
   distinct (map k_id (fold (carry_key fresh) ms ks)) \<and> distinct (map k_key_hash (fold (carry_key fresh) ms ks))"
proof (induction ms arbitrary: ks)
  case (Cons m ms)
  have "distinct (map k_id (carry_key fresh m ks))" "distinct (map k_key_hash (carry_key fresh m ks))"
    using Cons.prems by (auto simp: carry_key_def)
  then show ?case using Cons.IH by simp
qed simp

section \<open>The invariant after start-up\<close>

lemma backfill_frame:
  "\<exists>f. backfill_asset_issuers as d = d\<lparr>payments := map (\<lambda>p. p\<lparr>p_asset_issuer := f p\<rparr>) (payments d)\<rparr>"
proof (induction as arbitrary: d)
  case Nil
  show ?case by (rule exI [of _ p_asset_issuer]) simp
next
  case (Cons a as)
  show ?case
  proof (cases "a_issuer a")
    case (Some i)
    let ?b = "backfill_issuer (a_code a) i"
    have b: "(?b p)\<lparr>p_asset_issuer := v\<rparr> = p\<lparr>p_asset_issuer := v\<rparr>" for p v by (simp add: backfill_issuer_def)
    obtain f where "backfill_asset_issuers as (d\<lparr>payments := map ?b (payments d)\<rparr>) =
        d\<lparr>payments := map (\<lambda>p. p\<lparr>p_asset_issuer := f (?b p)\<rparr>) (payments d)\<rparr>"
      using Cons.IH [of "d\<lparr>payments := map ?b (payments d)\<rparr>"] by (auto simp: b comp_def)
    then show ?thesis using Some by (intro exI [of _ "\<lambda>p. f (?b p)"]) simp
  qed (use Cons in simp)
qed

lemma inv_issuers:
  assumes "db_inv now d"
  shows "db_inv now (d\<lparr>payments := map (\<lambda>p. p\<lparr>p_asset_issuer := f p\<rparr>) (payments d)\<rparr>)"
proof -
  have "payment_ok (p\<lparr>p_asset_issuer := v\<rparr>) = payment_ok p" "deadline_passed now (p\<lparr>p_asset_issuer := v\<rparr>) = deadline_passed now p"
    "covered (d\<lparr>payments := ps\<rparr>) (p\<lparr>p_asset_issuer := v\<rparr>) = covered d p" for p v ps
    by (simp_all add: payment_ok_def deadline_passed_def covered_def ledger_total_def amounts_of_def
        split: option.split)
  then show ?thesis using assms by (simp add: db_inv_def db_ok_def comp_def)
qed

lemma those_Some: "list_all2 (\<lambda>x y. f x = Some y) xs ys \<Longrightarrow> those (map f xs) = Some ys"
  by (induction rule: list_all2_induct) simp_all

lemma repaired_canonical: "repairable v \<Longrightarrow> repaired t v v' \<Longrightarrow> strftime_z t = Some v'"
  using without_z_distinct [of t v] by (auto simp: repairable_def repaired_def split: if_splits)

lemma upgraded_read:
  assumes up: "upgraded s p q" and inv: "old_row_inv now s p"
    and led: "rows_total (o_id p) (s_processed s) + unledgered (s_processed s) p \<le> rows_total (o_id p) rows"
  shows "\<exists>r. read_payment q = Some r \<and> p_id r = o_id p \<and> p_memo r = o_memo p \<and> payment_ok r \<and>
    (p_status r = ''expired'' \<longrightarrow> deadline_passed now r) \<and>
    (p_status r = ''completed'' \<longrightarrow> (\<exists>e. parse_stroops (p_amount r) = Some e \<and> e \<le> rows_total (o_id p) rows))"
proof -
  obtain c u e v where p: "sqlite_parse (o_created_at p) = Some c" "repaired c (o_created_at p) (o_created_at q)"
      "repaired u (o_updated_at p) (o_updated_at q)" "o_expires_at q = Some v"
    and x: "case stored_deadline s p of None \<Rightarrow> e = c + 3600 \<and> strftime_z e = Some v
      | Some d \<Rightarrow> sqlite_parse d = Some e \<and> repaired e d v"
    using up unfolding upgraded_def by blast
  have r: "repairable (o_created_at p)" "repairable (o_updated_at p)" "\<And>v. stored_deadline s p = Some v \<Longrightarrow> repairable v"
    using inv by (auto simp: old_row_inv_def stored_deadline_def split: if_splits)
  have c: "sqlite_parse (o_created_at p) = Some c" "strftime_z c = Some (o_created_at q)"
    and u: "strftime_z u = Some (o_updated_at q)"
    using p(1) repaired_canonical [OF r(1) p(2)] repaired_canonical [OF r(2) p(3)] by simp_all
  have e: "strftime_z e = Some v" "o_expires_at q = Some v"
    and d: "case stored_deadline s p of None \<Rightarrow> e = c + 3600 | Some v \<Rightarrow> sqlite_parse v = Some e"
    using x p(4) repaired_canonical [OF r(3)] by (auto split: option.splits)
  obtain q1 q2 q3 q4 where "q = p\<lparr>o_created_at := q1, o_updated_at := q2, o_expires_at := q3, o_asset_issuer := q4\<rparr>"
    using up unfolding upgraded_def by blast
  then have f: "o_id q = o_id p" "o_memo q = o_memo p" "o_amount q = o_amount p" "o_status q = o_status p"
    "o_tx_hash q = o_tx_hash p" "o_paid_amount q = o_paid_amount p" by simp_all
  obtain r where r: "read_payment q = Some r" "p_id r = o_id p" "p_memo r = o_memo p" "p_amount r = o_amount p"
    "p_status r = o_status p" "p_tx_hash r = o_tx_hash p" "p_paid_amount r = o_paid_amount p"
    "p_created_at r = o_created_at q" "p_updated_at r = o_updated_at q" "p_expires_at r = v"
    using e(2) f by (simp add: read_payment_def)
  have "payment_ok r" using inv c u e by (simp add: payment_ok_def old_row_inv_def r)
  moreover have "p_status r = ''expired'' \<longrightarrow> deadline_passed now r"
    using inv d c sqlite_parse_strftime [OF e(1)]
    by (auto simp: old_row_inv_def old_overdue_def deadline_passed_def r split: option.splits)
  moreover have "p_status r = ''completed'' \<longrightarrow> (\<exists>e. parse_stroops (p_amount r) = Some e \<and> e \<le> rows_total (o_id p) rows)"
    using inv led by (auto simp: old_row_inv_def old_covered_def r split: option.splits)
  ultimately show ?thesis using r(1-3) by blast
qed

lemma migrate_other_tables:
  "s_merchants (migrate fresh ts s) = s_merchants s" "s_kv_state (migrate fresh ts s) = s_kv_state s"
  "s_idempotency_keys (migrate fresh ts s) = s_idempotency_keys s"
  "map d_id (s_deliveries (migrate fresh ts s)) = map d_id (s_deliveries s)"
  by (simp_all add: migrate_unfold step_defs comp_def)

lemma migrate_deliveries:
  assumes "\<forall>r\<in>set (s_deliveries s). d_status r \<in> set delivery_statuses \<and> 0 \<le> d_attempts r \<and> repairable (d_created_at r)"
  shows "\<forall>r\<in>set (s_deliveries (migrate fresh ts s)). delivery_ok r"
proof -
  have "is_ts (repair_ts v)" if "repairable v" for v
  proof -
    obtain t where t: "Some v \<in> {strftime_z t, sql_datetime t}" using \<open>repairable v\<close> by (auto simp: repairable_def)
    then have "strftime_z t = Some (repair_ts v)" using repair_ts_layouts [of v t] without_z_distinct [of t v t] by (auto split: if_splits)
    then show ?thesis by (rule is_ts_strftime)
  qed
  then show ?thesis using assms by (auto simp: migrate_unfold step_defs delivery_ok_def)
qed

lemma migrated_rows:
  assumes "old_ok (fresh, ts) s" "old_inv now s"
  obtains ps where "those (map read_payment (s_payments (migrate fresh ts s))) = Some ps"
    and "map p_id ps = map o_id (s_payments s)" "map p_memo ps = map o_memo (s_payments s)"
    and "\<And>p. p \<in> set ps \<Longrightarrow> payment_ok p \<and> (p_status p = ''expired'' \<longrightarrow> deadline_passed now p) \<and>
      (p_status p = ''completed'' \<longrightarrow> (\<exists>e. parse_stroops (p_amount p) = Some e \<and>
         e \<le> rows_total (p_id p) (s_processed (migrate fresh ts s))))"
proof -
  let ?m = "migrate fresh ts s"
  let ?R = "\<lambda>p r. p_id r = o_id p \<and> p_memo r = o_memo p \<and> payment_ok r \<and>
    (p_status r = ''expired'' \<longrightarrow> deadline_passed now r) \<and>
    (p_status r = ''completed'' \<longrightarrow> (\<exists>e. parse_stroops (p_amount r) = Some e \<and> e \<le> rows_total (o_id p) (s_processed ?m)))"
  have up: "list_all2 (upgraded s) (s_payments s) (s_payments ?m)"
    using assms(1) unfolding migrate_payments_table
    by (simp add: list_all2_map2 list_all2_same Let_def upgraded_row [OF _ refl refl] old_ok_def)
  have row: "\<exists>r. read_payment q = Some r \<and> ?R p r" if "p \<in> set (s_payments s)" "upgraded s p q" for p q
    using upgraded_read [OF that(2), of now "s_processed ?m"] that(1) assms(2)
      backfill_total [of "s_payments s" p "s_processed s" ts]
    by (auto simp: old_inv_def migrate_ledger_table)
  define ps where "ps = map (the \<circ> read_payment) (s_payments ?m)"
  have len: "length ps = length (s_payments s)" using list_all2_lengthD [OF up] by (simp add: ps_def)
  have nth: "read_payment (s_payments ?m ! i) = Some (ps ! i)" "?R (s_payments s ! i) (ps ! i)"
    if "i < length (s_payments s)" for i
    using row [OF nth_mem [OF that] list_all2_nthD [OF up that]] that list_all2_lengthD [OF up] by (auto simp: ps_def)
  show ?thesis
  proof (rule that)
    show "those (map read_payment (s_payments ?m)) = Some ps"
      using nth(1) len list_all2_lengthD [OF up] by (intro those_Some) (simp add: list_all2_conv_all_nth)
    show "map p_id ps = map o_id (s_payments s)" "map p_memo ps = map o_memo (s_payments s)"
      using nth(2) len by (auto intro!: nth_equalityI)
  qed (use nth(2) len in \<open>fastforce simp: in_set_conv_nth\<close>)
qed

text \<open>
  What the gateway reads after start-up on such tables of an older version satisfies the invariant of
  the tables: every row is readable, with canonical timestamps, the completed intents are covered by
  the ledger and the expired ones overdue.
\<close>

lemma start_up_establishes_invariant:
  assumes "old_ok (fresh, ts) s" "old_inv now s"
  shows "\<exists>d. start_up fresh ts c s = Some d \<and> db_inv now d"
proof -
  let ?m = "migrate fresh ts s"
  obtain ps where ps: "those (map read_payment (s_payments ?m)) = Some ps"
    and keys: "map p_id ps = map o_id (s_payments s)" "map p_memo ps = map o_memo (s_payments s)"
    and rows: "\<And>p. p \<in> set ps \<Longrightarrow> payment_ok p \<and> (p_status p = ''expired'' \<longrightarrow> deadline_passed now p) \<and>
      (p_status p = ''completed'' \<longrightarrow> (\<exists>e. parse_stroops (p_amount p) = Some e \<and> e \<le> rows_total (p_id p) (s_processed ?m)))"
    using migrated_rows [OF assms] by blast
  define d where "d = \<lparr>payments = ps, webhook_deliveries = s_deliveries ?m, api_keys = s_api_keys ?m,
        merchants = s_merchants ?m, idempotency_keys = s_idempotency_keys ?m,
        processed_transactions = s_processed ?m, kv_state = s_kv_state ?m\<rparr>"
  have cov: "covered d p" if "p \<in> set ps" "p_status p = ''completed''" for p
    using rows [OF that(1)] that(2) by (auto simp: covered_def ledger_total_def amounts_of_def rows_total_def d_def)
  have "\<forall>t\<in>set (s_processed ?m). processed_ok t"
    using backfill_appends [of ts "s_payments s" "s_processed s"] assms(2)
    by (auto simp: migrate_ledger_table old_inv_def)
  then have "db_inv now d"
    using rows cov migrate_deliveries [of s fresh ts] assms backfill_distinct [of "s_processed s" ts "s_payments s"]
      carry_distinct [of "s_api_keys s" fresh "s_merchants s"]
    by (simp add: db_inv_def db_ok_def d_def keys old_inv_def old_ok_def fresh_ids_def migrate_ledger_table
        migrate_keys_table migrate_other_tables)
  moreover have "read_db ?m = Some d" by (simp add: read_db_def ps d_def)
  ultimately show ?thesis
    using backfill_frame [of "c_accepted_assets c" d] inv_issuers by (fastforce simp: start_up_def)
qed

lemma legacy_db_inv: "old_inv 0 legacy_db"
proof -
  have "canonical ''5'' = Some ''5''" "parse_stroops ''5'' = Some 50000000" by code_simp+
  moreover have "repairable ''0000-01-01 00:00:00''" "repairable ''0000-01-01T00:00:01Z''"
    unfolding repairable_def
    by (rule exI [of _ ts_min], simp add: year_zero_texts, rule exI [of _ "ts_min + 1"], simp add: year_zero_texts)
  ultimately show ?thesis
    using legacy_db_rows(4)
    by (simp add: old_inv_def old_row_inv_def old_covered_def rows_total_def unledgered_def legacy_db_def statuses_def)
qed

lemma validated_assets:
  assumes "addresses_ok c"
  shows "distinct (map (to_ascii_uppercase \<circ> a_code) (c_accepted_assets c)) \<and>
    (\<forall>a\<in>set (c_accepted_assets c). a_issuer a \<noteq> Some [])"
proof -
  have "\<not> is_valid_account_id []" by code_simp
  then show ?thesis using assms by (auto simp: addresses_ok_def)
qed

text \<open>
  C104: under an allow-list with distinct codes and no empty issuer, which a configuration that boots has
  (lemma \<open>validated_assets\<close>), the backfill gives every intent without an issuer that of its asset
  code, never touches an intent that has one, changes nothing else, and a second run changes nothing.
\<close>

theorem backfill_pins_issuers:
  assumes "distinct (map (to_ascii_uppercase \<circ> a_code) as)" "\<forall>a\<in>set as. a_issuer a \<noteq> Some []"
  shows "backfill_asset_issuers as d =
      d\<lparr>payments := map (\<lambda>p. p\<lparr>p_asset_issuer := pinned_issuer as p\<rparr>) (payments d)\<rparr> \<and>
    backfill_asset_issuers as (backfill_asset_issuers as d) = backfill_asset_issuers as d"
proof -
  have once: "backfill_asset_issuers as d = d\<lparr>payments := map (\<lambda>p. p\<lparr>p_asset_issuer := pinned_issuer as p\<rparr>) (payments d)\<rparr>" for d
    using backfill_frame [of as d] backfill_issuer_pinned [OF assms(2,1), of d] by auto
  have "pinned_issuer as (p\<lparr>p_asset_issuer := pinned_issuer as p\<rparr>) = pinned_issuer as p" for p
    by (auto simp: pinned_issuer_def split: option.splits)
  then show ?thesis by (simp add: once comp_def)
qed

theorem backfill_pins_issuers_witness:
  "\<exists>p :: payment. p_asset_issuer p = None \<and>
     map p_asset_issuer (payments (backfill_asset_issuers default_list (empty_db\<lparr>payments := [p]\<rparr>))) = [Some gateway0]"
proof -
  define p :: payment where "p = \<lparr>p_id = ''p'', p_merchant_id = ''m'', p_destination_address = ''G'', p_memo = ''memo'',
     p_amount = ''5'', p_asset = ''usdc'', p_status = ''pending'', p_webhook_url = None, p_tx_hash = None,
     p_paid_amount = None, p_created_at = [], p_updated_at = [], p_expires_at = [], p_asset_issuer = None\<rparr>"
  have "to_ascii_uppercase ''usdc'' = ''USDC''" "to_ascii_uppercase ''USDC'' = ''USDC''" "to_ascii_uppercase ''XLM'' = ''XLM''"
    by code_simp+
  then show ?thesis
    using backfill_pins_issuers [of default_list "empty_db\<lparr>payments := [p]\<rparr>"]
    by (intro exI [of _ p]) (simp add: default_list_def pinned_issuer_def p_def gateway0_def)
qed

end
