(* ===== verification/Exposition.thy ===== *)
theory Exposition
  imports Task_Health
begin

text \<open>
  The Prometheus text of \<open>GET /metrics\<close> (\<open>render\<close> in \<open>src/metrics.rs\<close>), character by character, and a
  scraper that reads such a text back: comment lines are skipped, every other line is a series and, after
  the last space, its value. What the scraper finds is exactly the value of every counter and gauge.
\<close>

section \<open>Text\<close>

definition newline :: string where
  "newline = [CHR 0x0A]"

text \<open>The two comment lines of a family, and one sample line.\<close>

definition family :: "string \<Rightarrow> string \<Rightarrow> string \<Rightarrow> string" where
  "family name help kind =
     ''# HELP '' @ name @ '' '' @ help @ newline @ ''# TYPE '' @ name @ '' '' @ kind @ newline"

definition sample :: "string \<Rightarrow> string \<Rightarrow> string" where
  "sample series v = series @ '' '' @ v @ newline"

definition label_sample :: "string \<Rightarrow> string \<Rightarrow> string \<Rightarrow> string \<Rightarrow> string" where
  "label_sample name label v n = sample (name @ ''{'' @ label @ ''=\"'' @ v @ ''\"}'') n"

definition show_u64 :: "'a :: len word \<Rightarrow> string" where
  "show_u64 n = show_nat (unat n)"

definition show_flag :: "bool \<Rightarrow> string" where
  "show_flag b = (if b then ''1'' else ''0'')"

definition latency_bucket :: "webhook_metrics \<Rightarrow> nat \<Rightarrow> u64" where
  "latency_bucket w i = wm_latency_buckets w ! i"

definition render_webhooks :: "webhook_metrics \<Rightarrow> string" where
  "render_webhooks w =
     family ''stellargate_webhook_deliveries_total'' ''Total webhook delivery attempts by outcome.'' ''counter'' @
     sample ''stellargate_webhook_deliveries_total{outcome=\"delivered\"}'' (show_u64 (wm_delivered w)) @
     sample ''stellargate_webhook_deliveries_total{outcome=\"failed\"}'' (show_u64 (wm_failed w)) @
     family ''stellargate_webhook_retries_total''
       ''Total webhook retry attempts (excludes the first try).'' ''counter'' @
     sample ''stellargate_webhook_retries_total'' (show_u64 (wm_retried w)) @
     family ''stellargate_webhook_delivery_latency_ms''
       ''End-to-end webhook delivery latency in milliseconds.'' ''histogram'' @
     concat (map (\<lambda>(i, bound).
         label_sample ''stellargate_webhook_delivery_latency_ms_bucket'' ''le'' (show_nat bound)
           (show_u64 (latency_bucket w i))) (List.enumerate 0 LATENCY_BUCKETS_MS)) @
     label_sample ''stellargate_webhook_delivery_latency_ms_bucket'' ''le'' ''+Inf''
       (show_u64 (latency_bucket w (length LATENCY_BUCKETS_MS))) @
     sample ''stellargate_webhook_delivery_latency_ms_sum'' (show_u64 (wm_latency_sum_ms w)) @
     sample ''stellargate_webhook_delivery_latency_ms_count'' (show_u64 (wm_latency_count w))"

definition render_auth :: "auth_metrics \<Rightarrow> string" where
  "render_auth a =
     family ''stellargate_auth_attempts_total''
       ''Total auth middleware decisions by outcome and reason.'' ''counter'' @
     sample ''stellargate_auth_attempts_total{outcome=\"success\"}'' (show_u64 (am_success a)) @
     sample ''stellargate_auth_attempts_total{outcome=\"failure\",reason=\"missing_key\"}''
       (show_u64 (am_failure_missing_key a)) @
     sample ''stellargate_auth_attempts_total{outcome=\"failure\",reason=\"invalid_key\"}''
       (show_u64 (am_failure_invalid_key a)) @
     sample ''stellargate_auth_attempts_total{outcome=\"failure\",reason=\"internal_error\"}''
       (show_u64 (am_failure_internal_error a))"

text \<open>One labelled sample per task of the snapshot.\<close>

definition task_samples :: "string \<Rightarrow> (task_snapshot \<Rightarrow> string) \<Rightarrow> task_snapshot list \<Rightarrow> string" where
  "task_samples name v snaps = concat (map (\<lambda>s. label_sample name ''task'' (ts_name s) (v s)) snaps)"

definition render_tasks :: "task_health \<Rightarrow> string" where
  "render_tasks h =
     (let snaps = snapshot h in
     family ''stellargate_tasks_started_total'' ''Total background task starts (including restarts).'' ''counter'' @
     sample ''stellargate_tasks_started_total'' (show_u64 (th_started h)) @
     family ''stellargate_tasks_stopped_total'' ''Total background task clean stops.'' ''counter'' @
     sample ''stellargate_tasks_stopped_total'' (show_u64 (th_stopped h)) @
     family ''stellargate_tasks_failed_total'' ''Total background task panics.'' ''counter'' @
     sample ''stellargate_tasks_failed_total'' (show_u64 (th_failed h)) @
     family ''stellargate_task_restarts_total''
       ''Supervisor restarts of a background task after panic or unexpected return.'' ''counter'' @
     task_samples ''stellargate_task_restarts_total'' (\<lambda>s. show_u64 (ts_restarts s)) snaps @
     family ''stellargate_task_running''
       ''Whether the named background task is currently running (1) or not (0).'' ''gauge'' @
     task_samples ''stellargate_task_running'' (\<lambda>s. show_flag (ts_running s)) snaps @
     family ''stellargate_task_consecutive_failures''
       ''Consecutive panics of a background task since it last ran stably.'' ''gauge'' @
     task_samples ''stellargate_task_consecutive_failures'' (\<lambda>s. show_u64 (ts_consecutive_failures s)) snaps @
     family ''stellargate_tasks_expected''
       ''Background workers this deployment expects to be running, excluding any disabled by configuration.''
       ''gauge'' @
     sample ''stellargate_tasks_expected'' (show_nat (expected_tasks h)) @
     family ''stellargate_tasks_live'' ''Expected background workers currently running.'' ''gauge'' @
     sample ''stellargate_tasks_live'' (show_nat (live_tasks h)) @
     family ''stellargate_task_disabled''
       ''Whether the named background task exited because configuration gave it nothing to do (1) or not (0).''
       ''gauge'' @
     task_samples ''stellargate_task_disabled'' (\<lambda>s. show_flag (ts_disabled_reason s \<noteq> None)) snaps)"

definition render_horizon :: "horizon_metrics \<Rightarrow> string" where
  "render_horizon m =
     family ''stellargate_horizon_poll_cycles_total'' ''Total Horizon poll cycles by outcome.'' ''counter'' @
     sample ''stellargate_horizon_poll_cycles_total{outcome=\"success\"}'' (show_u64 (hm_success m)) @
     sample ''stellargate_horizon_poll_cycles_total{outcome=\"rate_limited\"}'' (show_u64 (hm_rate_limited m)) @
     sample ''stellargate_horizon_poll_cycles_total{outcome=\"error\"}'' (show_u64 (hm_error m))"

definition render :: "webhook_metrics \<Rightarrow> auth_metrics \<Rightarrow> task_health \<Rightarrow> horizon_metrics \<Rightarrow> string" where
  "render w a h m =
     render_webhooks w @ render_auth a @ render_tasks h @ render_horizon m @
     family ''stellargate_horizon_last_successful_poll_timestamp_seconds''
       ''Unix timestamp of the last successful Horizon poll or stream event.'' ''gauge'' @
     sample ''stellargate_horizon_last_successful_poll_timestamp_seconds'' (show_int (th_last_success_unix h))"

section \<open>Reading the text back\<close>

definition scrape_line :: "string \<Rightarrow> (string \<times> string) list" where
  "scrape_line l =
     (if l = [] \<or> hd l = CHR ''#'' then []
      else case split_once (CHR '' '') (rev l) of
        None \<Rightarrow> []
      | Some (v, series) \<Rightarrow> [(rev series, rev v)])"

definition scrape :: "string \<Rightarrow> (string \<times> string) list" where
  "scrape text = concat (map scrape_line (split_on (CHR 0x0A) text))"

text \<open>The samples of a snapshot of the process.\<close>

definition task_series :: "string \<Rightarrow> (task_snapshot \<Rightarrow> string) \<Rightarrow> task_health \<Rightarrow> (string \<times> string) list" where
  "task_series name v h = map (\<lambda>s. (name @ ''{task=\"'' @ ts_name s @ ''\"}'', v s)) (snapshot h)"

definition webhook_series :: "webhook_metrics \<Rightarrow> (string \<times> string) list" where
  "webhook_series w =
     [(''stellargate_webhook_deliveries_total{outcome=\"delivered\"}'', show_u64 (wm_delivered w)),
      (''stellargate_webhook_deliveries_total{outcome=\"failed\"}'', show_u64 (wm_failed w)),
      (''stellargate_webhook_retries_total'', show_u64 (wm_retried w))] @
     map (\<lambda>(i, le). (''stellargate_webhook_delivery_latency_ms_bucket{le=\"'' @ le @ ''\"}'', show_u64 (latency_bucket w i)))
       (List.enumerate 0 [''10'', ''50'', ''100'', ''250'', ''500'', ''1000'', ''2500'', ''5000'', ''10000'', ''+Inf'']) @
     [(''stellargate_webhook_delivery_latency_ms_sum'', show_u64 (wm_latency_sum_ms w)),
      (''stellargate_webhook_delivery_latency_ms_count'', show_u64 (wm_latency_count w))]"

definition auth_series :: "auth_metrics \<Rightarrow> (string \<times> string) list" where
  "auth_series a =
     [(''stellargate_auth_attempts_total{outcome=\"success\"}'', show_u64 (am_success a)),
      (''stellargate_auth_attempts_total{outcome=\"failure\",reason=\"missing_key\"}'', show_u64 (am_failure_missing_key a)),
      (''stellargate_auth_attempts_total{outcome=\"failure\",reason=\"invalid_key\"}'', show_u64 (am_failure_invalid_key a)),
      (''stellargate_auth_attempts_total{outcome=\"failure\",reason=\"internal_error\"}'',
         show_u64 (am_failure_internal_error a))]"

definition health_series :: "task_health \<Rightarrow> (string \<times> string) list" where
  "health_series h =
     [(''stellargate_tasks_started_total'', show_u64 (th_started h)),
      (''stellargate_tasks_stopped_total'', show_u64 (th_stopped h)),
      (''stellargate_tasks_failed_total'', show_u64 (th_failed h))] @
     task_series ''stellargate_task_restarts_total'' (\<lambda>s. show_u64 (ts_restarts s)) h @
     task_series ''stellargate_task_running'' (\<lambda>s. show_flag (ts_running s)) h @
     task_series ''stellargate_task_consecutive_failures'' (\<lambda>s. show_u64 (ts_consecutive_failures s)) h @
     [(''stellargate_tasks_expected'', show_nat (expected_tasks h)),
      (''stellargate_tasks_live'', show_nat (live_tasks h))] @
     task_series ''stellargate_task_disabled'' (\<lambda>s. show_flag (ts_disabled_reason s \<noteq> None)) h"

definition horizon_series :: "horizon_metrics \<Rightarrow> task_health \<Rightarrow> (string \<times> string) list" where
  "horizon_series m h =
     [(''stellargate_horizon_poll_cycles_total{outcome=\"success\"}'', show_u64 (hm_success m)),
      (''stellargate_horizon_poll_cycles_total{outcome=\"rate_limited\"}'', show_u64 (hm_rate_limited m)),
      (''stellargate_horizon_poll_cycles_total{outcome=\"error\"}'', show_u64 (hm_error m)),
      (''stellargate_horizon_last_successful_poll_timestamp_seconds'', show_int (th_last_success_unix h))]"

section \<open>Lemmas\<close>

lemma split_on_line: "c \<notin> set l \<Longrightarrow> split_on c (l @ c # rest) = l # split_on c rest"
  by (induction l) auto

lemma scrape_append_line:
  "CHR 0x0A \<notin> set l \<Longrightarrow> scrape (l @ newline @ rest) = scrape_line l @ scrape rest"
  by (simp add: scrape_def newline_def split_on_line)

lemma scrape_family [simp]:
  assumes "CHR 0x0A \<notin> set name" "CHR 0x0A \<notin> set help" "CHR 0x0A \<notin> set kind"
  shows "scrape (family name help kind @ rest) = scrape rest"
proof -
  have "scrape (family name help kind @ rest) = scrape_line (''# HELP '' @ name @ '' '' @ help) @
      scrape_line (''# TYPE '' @ name @ '' '' @ kind) @ scrape rest"
    using scrape_append_line [of "''# HELP '' @ name @ '' '' @ help"] scrape_append_line [of "''# TYPE '' @ name @ '' '' @ kind"] assms
    by (simp add: family_def)
  then show ?thesis by (simp add: scrape_line_def)
qed

lemma scrape_sample [simp]:
  assumes "series \<noteq> []" "hd series \<noteq> CHR ''#''" "CHR 0x0A \<notin> set series" "CHR 0x0A \<notin> set v" "CHR '' '' \<notin> set v"
  shows "scrape (sample series v @ rest) = (series, v) # scrape rest"
proof -
  have "split_once (CHR '' '') (rev (series @ '' '' @ v)) = Some (rev v, rev series)"
    using assms(5) by (simp add: split_once_Some)
  then have "scrape_line (series @ '' '' @ v) = [(series, v)]" using assms(1,2) by (simp add: scrape_line_def hd_append)
  then show ?thesis using scrape_append_line [of "series @ '' '' @ v" rest] assms by (simp add: sample_def)
qed

lemma scrape_samples:
  assumes "\<And>y. y \<in> set ys \<Longrightarrow> g y \<noteq> [] \<and> hd (g y) \<noteq> CHR ''#'' \<and> CHR 0x0A \<notin> set (g y) \<and>
    CHR 0x0A \<notin> set (v y) \<and> CHR '' '' \<notin> set (v y)"
  shows "scrape (concat (map (\<lambda>y. sample (g y) (v y)) ys) @ rest) = map (\<lambda>y. (g y, v y)) ys @ scrape rest"
  using assms by (induction ys) auto

lemma show_nat_plain [simp]: "CHR 0x0A \<notin> set (show_nat n)" "CHR '' '' \<notin> set (show_nat n)"
  using show_nat_digits [of n] by (auto simp: is_ascii_digit_def byte_def)

lemma show_plain [simp]:
  "CHR 0x0A \<notin> set (show_u64 u)" "CHR '' '' \<notin> set (show_u64 u)"
  "CHR 0x0A \<notin> set (show_flag b)" "CHR '' '' \<notin> set (show_flag b)"
  "CHR 0x0A \<notin> set (show_int i)" "CHR '' '' \<notin> set (show_int i)"
  by (simp_all add: show_u64_def show_flag_def show_int_def)

lemma scrape_tasks:
  assumes "\<And>s. s \<in> set snaps \<Longrightarrow> CHR 0x0A \<notin> set (ts_name s)" "name \<noteq> []" "hd name \<noteq> CHR ''#''" "CHR 0x0A \<notin> set name"
    and "\<And>s. CHR 0x0A \<notin> set (v s) \<and> CHR '' '' \<notin> set (v s)"
  shows "scrape (task_samples name v snaps @ rest) =
    map (\<lambda>s. (name @ ''{task=\"'' @ ts_name s @ ''\"}'', v s)) snaps @ scrape rest"
  unfolding task_samples_def label_sample_def using assms by (subst scrape_samples) (auto simp: hd_append)

lemma bucket_names:
  "map show_nat LATENCY_BUCKETS_MS = [''10'', ''50'', ''100'', ''250'', ''500'', ''1000'', ''2500'', ''5000'', ''10000'']"
  by (simp add: LATENCY_BUCKETS_MS_def show_nat.simps digit_char_def char_of_def bit_0)

lemma bucket_text:
  "concat (map (\<lambda>(i, bound). label_sample name label (show_nat bound) (g i)) (List.enumerate 0 LATENCY_BUCKETS_MS)) =
   concat (map (\<lambda>(i, le). label_sample name label le (g i)) (List.enumerate 0
     [''10'', ''50'', ''100'', ''250'', ''500'', ''1000'', ''2500'', ''5000'', ''10000'']))"
  unfolding bucket_names [symmetric] by (simp add: enumerate_eq_zip zip_map2 comp_def split_def)

lemma scrape_webhooks: "scrape (render_webhooks w @ rest) = webhook_series w @ scrape rest"
  unfolding render_webhooks_def bucket_text
  by (simp add: webhook_series_def label_sample_def LATENCY_BUCKETS_MS_def)

lemma scrape_auth: "scrape (render_auth a @ rest) = auth_series a @ scrape rest"
  by (simp add: render_auth_def auth_series_def)

lemma scrape_health:
  assumes "\<And>s. s \<in> set (snapshot h) \<Longrightarrow> CHR 0x0A \<notin> set (ts_name s)"
  shows "scrape (render_tasks h @ rest) = health_series h @ scrape rest"
  by (simp add: render_tasks_def health_series_def task_series_def Let_def scrape_tasks [OF assms])

lemma scrape_horizon: "scrape (render_horizon m @ rest) = butlast (horizon_series m h) @ scrape rest"
  by (simp add: render_horizon_def horizon_series_def)

lemma push_new_distinct: "distinct names \<Longrightarrow> distinct (fold push_new xs names)"
  by (induction xs arbitrary: names) (simp_all add: push_new_def)

lemma snapshot_distinct: "distinct (th_required h) \<Longrightarrow> distinct (map ts_name (snapshot h))"
  by (simp add: snapshot_def Let_def comp_def push_new_distinct)

text \<open>
  C38: scraping the text of the metrics endpoint gives back the value of every counter, bucket and gauge,
  in order, and no series occurs twice.
\<close>

theorem metrics_round_trip:
  assumes "\<forall>s\<in>set (snapshot h). CHR 0x0A \<notin> set (ts_name s)" "distinct (th_required h)"
  shows "scrape (render w a h m) = webhook_series w @ auth_series a @ health_series h @ horizon_series m h \<and>
    distinct (map fst (scrape (render w a h m)))"
proof -
  have [simp]: "scrape [] = []" by (simp add: scrape_def scrape_line_def)
  have e: "scrape (render w a h m) = webhook_series w @ auth_series a @ health_series h @ horizon_series m h"
    using assms(1) scrape_sample [of _ _ "[]"]
    by (simp add: render_def scrape_webhooks scrape_auth scrape_health scrape_horizon [where h = h])
      (simp add: horizon_series_def)
  have "distinct (snapshot h)" "\<forall>s\<in>set (snapshot h). \<forall>t\<in>set (snapshot h). ts_name s = ts_name t \<longrightarrow> s = t"
    using snapshot_distinct [OF assms(2)] by (simp_all add: distinct_map inj_on_def)
  then have "distinct (map fst (webhook_series w @ auth_series a @ health_series h @ horizon_series m h))"
    by (auto simp: webhook_series_def auth_series_def health_series_def horizon_series_def task_series_def
        comp_def distinct_map inj_on_def)
  with e show ?thesis by simp
qed

theorem metrics_round_trip_witness:
  "(''stellargate_task_running{task=\"poller\"}'', ''1'') \<in> set (scrape (render webhook_metrics_new auth_metrics_new
     (task_started ''poller'' (require ''poller'' task_health_new)) horizon_metrics_new))"
proof -
  let ?h = "task_started ''poller'' (require ''poller'' task_health_new)"
  have s: "snapshot ?h = [\<lparr>ts_name = ''poller'', ts_running = True, ts_restarts = 0, ts_consecutive_failures = 0,
      ts_disabled_reason = None\<rparr>]"
    by (simp add: snapshot_def task_started_def require_def task_health_new_def push_new_def get_or_def)
  then have "\<forall>s\<in>set (snapshot ?h). CHR 0x0A \<notin> set (ts_name s)" "distinct (th_required ?h)"
    by (simp_all add: task_started_def require_def task_health_new_def)
  from metrics_round_trip [OF this, of webhook_metrics_new auth_metrics_new horizon_metrics_new]
  have "scrape (render webhook_metrics_new auth_metrics_new ?h horizon_metrics_new) =
      webhook_series webhook_metrics_new @ auth_series auth_metrics_new @ health_series ?h @ horizon_series horizon_metrics_new ?h"
    by blast
  then show ?thesis by (simp add: health_series_def task_series_def s show_flag_def)
qed

end
