(* ===== verification/Routes.thy ===== *)
theory Routes
  imports Creation Exposition
begin

text \<open>
  The HTTP surface (\<open>router\<close>, \<open>api_v1\<close> and the small handlers of \<open>src/api/mod.rs\<close>). The route table is data:
  path patterns with their methods, the gate in front of them and whether the path is a deprecated
  alias. Finding the route of a request is the work of axum, so it is an argument of \<open>serve_request\<close>; a body
  that is text is written as the string. The layers around the router are in theory \<open>Edge\<close>.
\<close>

section \<open>Request bodies of the key and redelivery endpoints\<close>

text \<open>The derived deserializers of structs with one optional field and \<open>deny_unknown_fields\<close>.\<close>

fun read_single :: "string \<Rightarrow> (json \<Rightarrow> string + 'a) \<Rightarrow> (string \<times> json) list \<Rightarrow> 'a option \<Rightarrow> string + 'a option" where
  "read_single name decode [] acc = Inr acc"
| "read_single name decode ((k, v) # kvs) acc =
     (if k \<noteq> name then Inl ''unknown_field''
      else if acc \<noteq> None then Inl ''invalid_request''
      else (case decode v of Inl code \<Rightarrow> Inl code | Inr a \<Rightarrow> read_single name decode kvs (Some a)))"

definition decode_single :: "string \<Rightarrow> (json \<Rightarrow> string + 'a option) \<Rightarrow> json \<Rightarrow> string + 'a option" where
  "decode_single name decode j =
     (case j of
        JObj kvs \<Rightarrow> map_sum id (\<lambda>v. case v of Some a \<Rightarrow> a | None \<Rightarrow> None) (read_single name decode kvs None)
      | JArr js \<Rightarrow> (case js of [v] \<Rightarrow> decode v | _ \<Rightarrow> Inl ''invalid_request'')
      | _ \<Rightarrow> Inl (type_error j))"

definition decode_opt_string :: "json \<Rightarrow> string + string option" where
  "decode_opt_string j =
     (case j of JStr s \<Rightarrow> Inr (Some s) | JNull \<Rightarrow> Inr None | _ \<Rightarrow> Inl ''invalid_request'')"

fun decode_strings :: "json list \<Rightarrow> string + string list" where
  "decode_strings [] = Inr []"
| "decode_strings (JStr s # js) = map_sum id (\<lambda>ss. s # ss) (decode_strings js)"
| "decode_strings (j # js) = Inl ''invalid_request''"

definition decode_opt_strings :: "json \<Rightarrow> string + string list option" where
  "decode_opt_strings j =
     (case j of JArr js \<Rightarrow> map_sum id Some (decode_strings js) | JNull \<Rightarrow> Inr None | _ \<Rightarrow> Inl (type_error j))"

definition issue_key_request :: "json \<Rightarrow> string + string option" where
  "issue_key_request = decode_single ''label'' decode_opt_string"

definition redeliver_bulk_request :: "json \<Rightarrow> string + string list option" where
  "redeliver_bulk_request = decode_single ''delivery_ids'' decode_opt_strings"

section \<open>The route table\<close>

datatype endpoint =
    Root | Health | Ready | Metrics | Dashboard_Html | Dashboard_Css | Dashboard_Js
  | Provision_Merchant | Issue_Api_Key | List_Api_Keys | Revoke_Api_Key
  | Create | List | List_Merchant_Webhooks | Redeliver_Webhooks_Bulk | List_Webhooks | Redeliver_Webhook
  | Get_By_Id

datatype gate = Open | Admin | Bearer

record route =
  rt_path :: string
  rt_methods :: "(string \<times> endpoint) list"
  rt_gate :: gate
  rt_deprecated :: bool

definition new_route :: "string \<Rightarrow> (string \<times> endpoint) list \<Rightarrow> route" where
  "new_route path methods = \<lparr>rt_path = path, rt_methods = methods, rt_gate = Open, rt_deprecated = False\<rparr>"

definition route_layer :: "gate \<Rightarrow> route list \<Rightarrow> route list" where
  "route_layer g = map (\<lambda>r. r\<lparr>rt_gate := g\<rparr>)"

definition nest :: "string \<Rightarrow> route list \<Rightarrow> route list" where
  "nest prefix = map (\<lambda>r. r\<lparr>rt_path := prefix @ (if rt_path r = ''/'' then [] else rt_path r)\<rparr>)"

definition merchants_routes :: "route list" where
  "merchants_routes = route_layer Admin
     [new_route ''/'' [(''POST'', Provision_Merchant)],
      new_route ''/:id/keys'' [(''POST'', Issue_Api_Key), (''GET'', List_Api_Keys)],
      new_route ''/:id/keys/:key_id'' [(''DELETE'', Revoke_Api_Key)]]"

definition payments_authed :: "route list" where
  "payments_authed = route_layer Bearer
     [new_route ''/'' [(''POST'', Create), (''GET'', List)],
      new_route ''/webhooks'' [(''GET'', List_Merchant_Webhooks)],
      new_route ''/webhooks/redeliver'' [(''POST'', Redeliver_Webhooks_Bulk)],
      new_route ''/:id/webhooks'' [(''GET'', List_Webhooks)],
      new_route ''/:id/webhooks/:delivery_id/redeliver'' [(''POST'', Redeliver_Webhook)]]"

definition api_v1 :: "route list" where
  "api_v1 = nest ''/merchants'' merchants_routes @
     nest ''/payments'' (payments_authed @ [new_route ''/:id'' [(''GET'', Get_By_Id)]])"

definition router :: "route list" where
  "router =
     [new_route ''/'' [(''GET'', Root)],
      new_route ''/health'' [(''GET'', Health)],
      new_route ''/ready'' [(''GET'', Ready)],
      new_route ''/metrics'' [(''GET'', Metrics)],
      new_route ''/dashboard'' [(''GET'', Dashboard_Html)],
      new_route ''/dashboard/app.css'' [(''GET'', Dashboard_Css)],
      new_route ''/dashboard/app.js'' [(''GET'', Dashboard_Js)]] @
     nest ''/v1'' api_v1 @ map (\<lambda>r. r\<lparr>rt_deprecated := True\<rparr>) api_v1"

section \<open>Handlers\<close>

record request =
  rq_method :: string
  rq_path :: string
  rq_authorization :: "string option"
  rq_admin_secret :: "string option"
  rq_idempotency_key :: "string option"
  rq_accept :: "string option"
  rq_query :: "list_query option"
  rq_body :: http_body

type_synonym headers = "(string \<times> string) list"

definition CARGO_PKG_VERSION :: string where
  "CARGO_PKG_VERSION = ''0.1.0''"

definition wants_html :: "request \<Rightarrow> bool" where
  "wants_html rq \<longleftrightarrow> (case Option.bind (rq_accept rq) header_text of Some accept \<Rightarrow> contains_str ''text/html'' accept | None \<Rightarrow> False)"

definition root :: "request \<Rightarrow> response \<times> headers" where
  "root rq =
     (if wants_html rq then ((307, JNull), [(''location'', ''/dashboard'')])
      else ((200, JStr (''StellarGate API v'' @ CARGO_PKG_VERSION)),
            [(''content-type'', ''text/plain; charset=utf-8'')]))"

definition DASHBOARD_CSP :: string where
  "DASHBOARD_CSP =
     ''default-src 'none'; script-src 'self'; style-src 'self'; img-src 'self' data:; connect-src 'self'; '' @
     ''form-action 'none'; frame-ancestors 'none'; base-uri 'none'' @ [CHR 0x27]"

text \<open>The assets are compiled in; here a body is the name of its file.\<close>

definition dashboard_asset :: "string \<Rightarrow> string \<Rightarrow> response \<times> headers" where
  "dashboard_asset body content_type =
     ((200, JStr body),
      [(''content-type'', content_type), (''content-security-policy'', DASHBOARD_CSP),
       (''x-content-type-options'', ''nosniff'')])"

definition metrics_handler :: "(response \<times> headers) io" where
  "metrics_handler = effect (\<lambda>w.
     (((200, JStr (render (w_webhook_metrics w) (w_auth_metrics w) (w_task_health w) (w_horizon_metrics w))),
       [(''content-type'', ''text/plain; version=0.0.4; charset=utf-8'')]), w))"

definition route_not_found :: response where
  "route_not_found = (404, JObj [(''code'', JStr ''not_found'')])"

text \<open>The \<open>Extension\<close> extractor answers 500 when no middleware has stored the merchant.\<close>

definition of_api :: "response api \<Rightarrow> response io" where
  "of_api p = bindP p (\<lambda>r. Ret (case r of Inl e \<Rightarrow> error_response e | Inr v \<Rightarrow> v))"

definition with_merchant :: "string option \<Rightarrow> (string \<Rightarrow> response io) \<Rightarrow> response io" where
  "with_merchant m k = (case m of Some merchant \<Rightarrow> k merchant | None \<Rightarrow> Ret (500, JNull))"

definition with_query :: "request \<Rightarrow> (list_query \<Rightarrow> response io) \<Rightarrow> response io" where
  "with_query rq k = (case rq_query rq of Some q \<Rightarrow> k q | None \<Rightarrow> Ret (400, JNull))"

definition with_body :: "api_error + 'a \<Rightarrow> ('a \<Rightarrow> response io) \<Rightarrow> response io" where
  "with_body b k = (case b of Inl e \<Rightarrow> Ret (error_response e) | Inr v \<Rightarrow> k v)"

fun handler :: "ext \<Rightarrow> config \<Rightarrow> request \<Rightarrow> string list \<Rightarrow> string option \<Rightarrow> endpoint \<Rightarrow> response io" where
  "handler x c rq ps m Provision_Merchant = of_api (provision_merchant x)"
| "handler x c rq ps m Issue_Api_Key =
     with_body (optional_json_body x issue_key_request (rq_body rq)) (\<lambda>b.
       of_api (issue_api_key x (ps ! 0) (Option.bind b (\<lambda>label. label))))"
| "handler x c rq ps m List_Api_Keys = of_api (list_api_keys_handler (ps ! 0))"
| "handler x c rq ps m Revoke_Api_Key = of_api (revoke_api_key_handler (ps ! 0) (ps ! 1))"
| "handler x c rq ps m Create =
     with_merchant m (\<lambda>merchant. with_body (json_body x decode_create (rq_body rq)) (\<lambda>b.
       of_api (create x c merchant (rq_idempotency_key rq) b)))"
| "handler x c rq ps m List =
     with_merchant m (\<lambda>merchant. with_query rq (\<lambda>q. of_api (list_handler x merchant q)))"
| "handler x c rq ps m List_Merchant_Webhooks =
     with_merchant m (\<lambda>merchant. with_query rq (\<lambda>q. of_api (list_merchant_webhooks x merchant q)))"
| "handler x c rq ps m Redeliver_Webhooks_Bulk =
     with_merchant m (\<lambda>merchant. with_body (optional_json_body x redeliver_bulk_request (rq_body rq)) (\<lambda>b.
       of_api (redeliver_webhooks_bulk merchant (Option.bind b (\<lambda>ids. ids)))))"
| "handler x c rq ps m List_Webhooks =
     with_merchant m (\<lambda>merchant. with_query rq (\<lambda>q. of_api (list_webhooks x merchant (ps ! 0) q)))"
| "handler x c rq ps m Redeliver_Webhook =
     with_merchant m (\<lambda>merchant.
       of_api (bindP (redeliver_webhook x c merchant (ps ! 0) (ps ! 1)) (\<lambda>r. Ret (map_sum id (\<lambda>status. (status, JNull)) r))))"
| "handler x c rq ps m Get_By_Id = of_api (get_by_id x (rq_authorization rq) (ps ! 0))"
| "handler x c rq ps m Health = health"
| "handler x c rq ps m Ready = ready c"
| "handler x c rq ps m Root = Ret (fst (root rq))"
| "handler x c rq ps m Metrics = bindP metrics_handler (\<lambda>r. Ret (fst r))"
| "handler x c rq ps m Dashboard_Html = Ret (fst (dashboard_asset ''dashboard.html'' ''text/html; charset=utf-8''))"
| "handler x c rq ps m Dashboard_Css = Ret (fst (dashboard_asset ''dashboard.css'' ''text/css; charset=utf-8''))"
| "handler x c rq ps m Dashboard_Js = Ret (fst (dashboard_asset ''dashboard.js'' ''text/javascript; charset=utf-8''))"

section \<open>Serving a request\<close>

datatype routing = No_Route | No_Method route | Matched route endpoint "string list"

definition behind ::
  "ext \<Rightarrow> config \<Rightarrow> request \<Rightarrow> gate \<Rightarrow> (string option \<Rightarrow> response io) \<Rightarrow> response io" where
  "behind x c rq g next =
     (case g of
        Open \<Rightarrow> next None
      | Admin \<Rightarrow> require_admin_secret c (rq_admin_secret rq) (next None)
      | Bearer \<Rightarrow> auth_middleware x (rq_authorization rq) (\<lambda>merchant. next (Some merchant)))"

definition endpoint_headers :: "request \<Rightarrow> endpoint \<Rightarrow> headers" where
  "endpoint_headers rq e =
     (case e of
        Root \<Rightarrow> snd (root rq)
      | Metrics \<Rightarrow> [(''content-type'', ''text/plain; version=0.0.4; charset=utf-8'')]
      | Dashboard_Html \<Rightarrow> snd (dashboard_asset ''dashboard.html'' ''text/html; charset=utf-8'')
      | Dashboard_Css \<Rightarrow> snd (dashboard_asset ''dashboard.css'' ''text/css; charset=utf-8'')
      | Dashboard_Js \<Rightarrow> snd (dashboard_asset ''dashboard.js'' ''text/javascript; charset=utf-8'')
      | _ \<Rightarrow> [])"

definition mark_deprecated :: "ext \<Rightarrow> request \<Rightarrow> headers" where
  "mark_deprecated x rq =
     (let link = ''</v1'' @ rq_path rq @ ''>; rel=\"successor-version\"'' in
      (''deprecation'', ''true'') # (if x_header_value_ok x link then [(''link'', link)] else []))"

definition serve_request ::
  "(route list \<Rightarrow> string \<Rightarrow> string \<Rightarrow> routing) \<Rightarrow> ext \<Rightarrow> config \<Rightarrow> request \<Rightarrow> (response \<times> headers) io" where
  "serve_request find_route x c rq =
     (case find_route router (rq_method rq) (rq_path rq) of
        No_Route \<Rightarrow> Ret (route_not_found, [])
      | No_Method r \<Rightarrow>
          bindP (behind x c rq (rt_gate r) (\<lambda>_. Ret (405, JNull))) (\<lambda>resp.
            Ret (resp, if rt_deprecated r then mark_deprecated x rq else []))
      | Matched r e ps \<Rightarrow>
          bindP (behind x c rq (rt_gate r) (\<lambda>m. handler x c rq ps m e)) (\<lambda>resp.
            Ret (resp, endpoint_headers rq e @ (if rt_deprecated r then mark_deprecated x rq else []))))"

text \<open>
  What it relies on: the router answers with a route of its table and a handler of that route. The
  segment-wise matcher below is one.
\<close>

definition sound_router :: "(route list \<Rightarrow> string \<Rightarrow> string \<Rightarrow> routing) \<Rightarrow> bool" where
  "sound_router find_route \<longleftrightarrow>
     (\<forall>rs meth path.
        (\<forall>r. find_route rs meth path = No_Method r \<longrightarrow> r \<in> set rs) \<and>
        (\<forall>r e ps. find_route rs meth path = Matched r e ps \<longrightarrow> r \<in> set rs \<and> e \<in> snd ` set (rt_methods r)))"

fun match_segments :: "string list \<Rightarrow> string list \<Rightarrow> string list option" where
  "match_segments [] [] = Some []"
| "match_segments (p # ps) (s # ss) =
     (if p \<noteq> [] \<and> hd p = CHR '':'' then (if s = [] then None else map_option (\<lambda>vs. s # vs) (match_segments ps ss))
      else if p = s then match_segments ps ss else None)"
| "match_segments _ _ = None"

primrec match_router :: "route list \<Rightarrow> string \<Rightarrow> string \<Rightarrow> routing" where
  "match_router [] meth path = No_Route"
| "match_router (r # rs) meth path =
     (case match_segments (split_on (CHR ''/'') (rt_path r)) (split_on (CHR ''/'') path) of
        None \<Rightarrow> match_router rs meth path
      | Some ps \<Rightarrow> (case map_of (rt_methods r) meth of None \<Rightarrow> No_Method r | Some e \<Rightarrow> Matched r e ps))"

lemma match_router_sound: "sound_router match_router"
proof -
  have m: "v \<in> snd ` set ms" if "map_of ms k = Some v" for ms :: "(string \<times> endpoint) list" and k v
    using map_of_SomeD [OF that] by force
  have "(\<forall>r. match_router rs meth path = No_Method r \<longrightarrow> r \<in> set rs) \<and>
      (\<forall>r e ps. match_router rs meth path = Matched r e ps \<longrightarrow> r \<in> set rs \<and> e \<in> snd ` set (rt_methods r))"
    for rs meth path
    by (induction rs) (auto split: option.splits dest!: m)
  then show ?thesis by (simp add: sound_router_def)
qed

section \<open>Anonymous requests\<close>

definition opens :: "endpoint set" where
  "opens = {Root, Health, Ready, Metrics, Dashboard_Html, Dashboard_Css, Dashboard_Js, Get_By_Id}"

lemma open_routes: "r \<in> set router \<Longrightarrow> rt_gate r = Open \<Longrightarrow> e \<in> snd ` set (rt_methods r) \<Longrightarrow> e \<in> opens"
  by (auto simp: router_def api_v1_def nest_def merchants_routes_def payments_authed_def route_layer_def new_route_def opens_def)

text \<open>
  Neither the tables nor what has been sent to webhook targets changes, and no request is started but the
  one to the Horizon URL that the readiness probe makes.
\<close>

definition quiet :: "config \<Rightarrow> world \<Rightarrow> world \<Rightarrow> bool" where
  "quiet c w w' \<longleftrightarrow>
     w_db w' = w_db w \<and> w_posts w' = w_posts w \<and>
     (\<exists>n. w_gets w' = w_gets w @ replicate n (trim_end_slashes (c_horizon_url c)))"

interpretation quiet: step_guarantee "quiet c" for c
proof
  show "quiet c w w" for w by (simp add: quiet_def)
  show "quiet c w w''" if "quiet c w w'" "quiet c w' w''" for w w' w''
    using that unfolding quiet_def by (metis append_assoc replicate_add)
qed

lemma quietI: "w_db w' = w_db w \<Longrightarrow> w_posts w' = w_posts w \<Longrightarrow> w_gets w' = w_gets w \<Longrightarrow> quiet c w w'"
  by (simp add: quiet_def)

lemma quiet_get: "quiet c w (advance dt (log_get (trim_end_slashes (c_horizon_url c)) w))"
  unfolding quiet_def by (intro conjI exI [of _ 1]) simp_all

lemma quiet_query [proc_safe]: "obeys (quiet c) (query f)"
  unfolding stmt_rnd_def by (intro obeys_effect quietI) (simp_all add: Let_def split: prod.split)

lemma quiet_lift [proc_safe]: "obeys (quiet c) p \<Longrightarrow> obeys (quiet c) (lift_db p)"
  unfolding lift_db_def by (intro proc_safe)

lemma quiet_auth_metrics [proc_safe]: "obeys (quiet c) (on_auth_metrics f)"
  unfolding on_auth_metrics_def by (intro obeys_effect quietI) simp_all

lemma quiet_horizon [proc_safe]: "obeys (quiet c) (http_get_within n (trim_end_slashes (c_horizon_url c)))"
  unfolding http_get_within_def by (rule obeys_effect) (simp add: quiet_get split: prod.split)

lemma quiet_probes [proc_safe]: "obeys (quiet c) health" "obeys (quiet c) (ready c)" "obeys (quiet c) metrics_handler"
  unfolding health_def get_task_health_def ready_def ping_def check_horizon_ready_def cursor_age_def metrics_handler_def
  by (intro proc_safe; simp add: quiet_def)+

definition unknown_token :: "ext \<Rightarrow> request \<Rightarrow> db \<Rightarrow> bool" where
  "unknown_token x rq d \<longleftrightarrow>
     (case bearer_token (rq_authorization rq) of
        None \<Rightarrow> True
      | Some token \<Rightarrow> \<not> (\<exists>k\<in>set (api_keys d). k_key_hash k = hash_api_key x token \<and> k_revoked_at k = None))"

lemma find_merchant_none:
  assumes "\<not> (\<exists>k\<in>set (api_keys (w_db w)). k_key_hash k = hash_api_key x raw \<and> k_revoked_at k = None)"
  shows "solo (quiet c) (find_merchant_by_key x raw) w" "fst (run (find_merchant_by_key x raw) w) \<noteq> Inr (Some m)"
proof -
  have "live_key (hash_api_key x raw) (w_db w) = None"
    using assms by (auto simp: live_key_def find_None_iff)
  then have row: "row = None" if "run (query (\<lambda>now d. Inr (live_key (hash_api_key x raw) d))) w = (Inr row, w1)" for row w1
    using run_query(2) [OF that refl] by simp
  then show "solo (quiet c) (find_merchant_by_key x raw) w"
    by (auto simp: find_merchant_by_key_def solo_and_then solo_obeys [OF quiet_query])
  show "fst (run (find_merchant_by_key x raw) w) \<noteq> Inr (Some m)"
    using row by (cases "run (query (\<lambda>now d. Inr (live_key (hash_api_key x raw) d))) w")
      (auto simp: find_merchant_by_key_def split: sum.split)
qed

lemma unknown_none:
  "unknown_token x rq (w_db w) \<Longrightarrow> bearer_token (rq_authorization rq) = Some token \<Longrightarrow>
   \<not> (\<exists>k\<in>set (api_keys (w_db w)). k_key_hash k = hash_api_key x token \<and> k_revoked_at k = None)"
  by (simp add: unknown_token_def)

lemma auth_quiet:
  assumes "unknown_token x rq (w_db w)"
  shows "solo (quiet c) (auth_middleware x (rq_authorization rq) next) w"
proof (cases "bearer_token (rq_authorization rq)")
  case None
  then show ?thesis by (simp add: auth_middleware_def solo_obeys [OF quiet_auth_metrics])
next
  case (Some token)
  obtain r w1 where r: "run (find_merchant_by_key x token) w = (r, w1)" by fastforce
  with find_merchant_none [OF unknown_none [OF assms Some]] have "solo (quiet c) (find_merchant_by_key x token) w" "\<forall>m. r \<noteq> Inr (Some m)"
    by auto
  with r Some show ?thesis
    by (auto simp: auth_middleware_def solo_obeys [OF quiet_auth_metrics] split: sum.split option.split)
qed

lemma get_by_id_quiet:
  assumes "unknown_token x rq (w_db w)"
  shows "solo (quiet c) (get_by_id x (rq_authorization rq) i) w"
proof -
  have q: "obeys (quiet c) (lift_db (get_payment i))" unfolding get_payment_def by (intro proc_safe)
  have m: "solo (quiet c) (and_then (lift_db (find_merchant_by_key x token)) k) w1"
    if "bearer_token (rq_authorization rq) = Some token" "quiet c w w1" "\<And>v w2. v = None \<Longrightarrow> solo (quiet c) (k v) w2" for token k w1
  proof -
    have u: "unknown_token x rq (w_db w1)" using assms that(2) by (simp add: quiet_def)
    note n = find_merchant_none [OF unknown_none [OF u that(1)]]
    have "v = None" if "run (lift_db (find_merchant_by_key x token)) w1 = (Inr v, w2)" for v w2
      using that n(2) by (cases v) (auto simp: run_lift_db split: prod.splits sum.splits)
    with n(1) that(3) show ?thesis by (auto simp: solo_and_then lift_db_def)
  qed
  show ?thesis
    using quiet.run_obeys [OF q, of w]
    unfolding get_by_id_def solo_and_then [of "quiet c" "lift_db (get_payment i)"]
    by (auto simp: solo_obeys [OF q] split: option.split intro!: m)
qed

lemma open_quiet:
  assumes "e \<in> opens" "unknown_token x rq (w_db w)"
  shows "solo (quiet c) (handler x c rq ps None e) w"
proof (cases "e = Get_By_Id")
  case True
  then show ?thesis using get_by_id_quiet [OF assms(2)] by (simp add: of_api_def)
next
  case False
  then show ?thesis
    using assms(1) by (intro solo_obeys) (auto simp: opens_def intro!: proc_safe)
qed

text \<open>Requests without credentials: the routes outside the two gates only read, and a gate answers itself.\<close>

definition no_credentials :: "ext \<Rightarrow> config \<Rightarrow> request \<Rightarrow> db \<Rightarrow> bool" where
  "no_credentials x c rq d \<longleftrightarrow>
     unknown_token x rq d \<and>
     (c_admin_provisioning_secret c = [] \<or> rq_admin_secret rq \<noteq> Some (c_admin_provisioning_secret c))"

lemma serve_quiet:
  assumes "sound_router find_route" "no_credentials x c rq (w_db w)"
  shows "solo (quiet c) (serve_request find_route x c rq) w"
proof -
  have u: "unknown_token x rq (w_db w)" using assms(2) by (simp add: no_credentials_def)
  have secret: "rq_admin_secret rq = Some s" if "Option.bind (rq_admin_secret rq) header_text = Some s" for s
    using that by (auto simp: bind_eq_Some_conv header_text_def split: if_splits)
  have gate: "solo (quiet c) (behind x c rq g next) w" if "g = Open \<Longrightarrow> solo (quiet c) (next None) w" for g "next"
    using that assms(2) auth_quiet [OF u]
    by (cases g) (auto simp: behind_def require_admin_secret_def no_credentials_def dest: secret)
  show ?thesis
  proof (cases "find_route router (rq_method rq) (rq_path rq)")
    case (Matched r e ps)
    then have r: "r \<in> set router" "e \<in> snd ` set (rt_methods r)"
      using assms(1) unfolding sound_router_def by blast+
    have "solo (quiet c) (behind x c rq (rt_gate r) (\<lambda>m. handler x c rq ps m e)) w"
      by (rule gate) (rule open_quiet [OF open_routes [OF r(1) _ r(2)] u])
    with Matched show ?thesis by (simp add: serve_request_def)
  qed (simp_all add: serve_request_def gate)
qed

section \<open>Requests and tasks together\<close>

lemma rgP_of_api: "rgP p w \<Longrightarrow> rgP (of_api p) w"
  unfolding of_api_def by (erule rgP_bind) simp

lemma safeP_metrics: "safeP metrics_handler"
  unfolding metrics_handler_def by (intro obeys_effect guarded_same_db) simp_all

lemma safeP_health: "safeP health"
  unfolding health_def get_task_health_def by (intro proc_safe guarded_same_db) simp_all

lemma rgP_handler: "rgP (handler x c rq ps m e) w"
proof -
  have d: "rgP (bindP (redeliver_webhook x c merchant i k) (\<lambda>r. Ret (map_sum id (\<lambda>s. (s, JNull)) r))) w" for merchant i k
    by (rule rgP_bind [OF rgP_redeliver]) simp
  show ?thesis
    by (cases e) (auto simp: with_merchant_def with_query_def with_body_def split: option.split sum.split
        intro!: rgP_of_api d rgP_safe [OF safeP_create] rgP_safe [OF safeP_get_by_id] rgP_safe [OF safeP_bulk]
          rgP_safe [OF safeP_listings(1)] rgP_safe [OF safeP_listings(2)] rgP_safe [OF safeP_listings(3)]
          rgP_safe [OF safeP_keys(1)] rgP_safe [OF safeP_keys(2)] rgP_safe [OF safeP_keys(3)] rgP_safe [OF safeP_keys(4)]
          rgP_safe [OF safeP_ready] rgP_safe [OF safeP_health] rgP_bind [OF rgP_safe [OF safeP_metrics]])
qed

lemma rgP_behind: "(\<And>m w. rgP (next m) w) \<Longrightarrow> rgP (behind x c rq g next) w"
proof (cases g)
  case Bearer
  assume n: "\<And>m w. rgP (next m) w"
  show ?thesis
    unfolding Bearer behind_def auth_middleware_def gate.case
    by (auto split: option.split sum.split intro!: n rgP_bind [OF rgP_safe [OF safe_effects(11)]]
        rgP_bind [OF rgP_safe [OF safeP_find_merchant]])
qed (auto simp: behind_def require_admin_secret_def)

lemma rgP_serve_request: "rgP (serve_request find_route x c rq) w"
  unfolding serve_request_def
  by (auto split: routing.split intro!: rgP_bind [OF rgP_behind] rgP_handler)

section \<open>Rate-limit buckets\<close>

text \<open>
  Every request to a path under the canonical prefix \<open>/v1\<close> is limited in the default bucket, at five
  times the configured rate, also the writes whose unprefixed aliases have buckets of their own at the
  configured rate.
\<close>

lemma versioned_writes_in_default_bucket:
  "rate_limited_bucket meth (''/v1'' @ path) = Some ''default'' \<and>
   effective_rps base ''default'' = max (sat_u32 (5 * max base 1)) 1 \<and>
   rate_limited_bucket ''POST'' ''/payments'' = Some ''payments'' \<and>
   rate_limited_bucket ''POST'' ''/merchants'' = Some ''merchants'' \<and>
   rate_limited_bucket ''POST'' (''/payments/'' @ rest @ ''/redeliver'') = Some ''redeliver'' \<and>
   effective_rps base ''payments'' = max (sat_u32 (max base 1)) 1 \<and>
   effective_rps base ''merchants'' = effective_rps base ''payments'' \<and>
   effective_rps base ''redeliver'' = effective_rps base ''payments''"
  by (simp add: rate_limited_bucket_def effective_rps_def bucket_rate_multiplier_def starts_with_def ends_with_def mult.commute)

end
