(* ===== verification/Edge.thy ===== *)
theory Edge
  imports Routes
begin

text \<open>
  The layers around the router (\<open>router\<close>, \<open>RateLimitState\<close> and \<open>rate_limit_middleware\<close> of \<open>src/api/mod.rs\<close>), outermost first: the time
  limit, the cross-origin layer, which answers preflight requests, the rate limit and the body limit. The limiter of one
  client is a value of the \<open>governor\<close> crate, the cache of limiters a map from keys that may forget
  entries; both crates are parameters. A request that runs out of time is dropped wherever it is: the
  effect in flight has happened or has not. Request ids and tracing leave responses and tables alone.
\<close>

section \<open>Rate limiting\<close>

datatype limiter_verdict = Allowed nat | Not_Until nat

text \<open>\<open>HeaderMap::insert\<close> replaces the values a name has.\<close>

definition header_insert :: "string \<Rightarrow> string \<Rightarrow> headers \<Rightarrow> headers" where
  "header_insert name v hs = filter (\<lambda>(n, _). n \<noteq> name) hs @ [(name, v)]"

definition insert_number :: "ext \<Rightarrow> string \<times> nat \<Rightarrow> headers \<Rightarrow> headers" where
  "insert_number x nv hs =
     (if x_header_value_ok x (show_nat (snd nv)) then header_insert (fst nv) (show_nat (snd nv)) hs else hs)"

definition set_rate_limit_headers :: "ext \<Rightarrow> nat \<Rightarrow> nat \<Rightarrow> nat \<Rightarrow> headers \<Rightarrow> headers" where
  "set_rate_limit_headers x limit remaining reset hs =
     fold (insert_number x) [(X_RATELIMIT_LIMIT, limit), (X_RATELIMIT_REMAINING, remaining), (X_RATELIMIT_RESET, reset)] hs"

definition rate_limit_middleware ::
  "ext \<Rightarrow> nat \<Rightarrow> string option \<Rightarrow> nat \<Rightarrow> limiter_verdict \<Rightarrow> (response \<times> headers) io \<Rightarrow> (response \<times> headers) io" where
  "rate_limit_middleware x base bucket_of interval verdict next =
     (case bucket_of of
        None \<Rightarrow> next
      | Some bucket \<Rightarrow>
          let rps = effective_rps base bucket in
          (case verdict of
             Allowed remaining \<Rightarrow>
               bindP next (\<lambda>(r, hs).
                 Ret (r, set_rate_limit_headers x rps remaining (reset_secs rps interval remaining 0) hs))
           | Not_Until wait \<Rightarrow>
               Ret ((429, JObj [(''code'', JStr ''rate_limit_exceeded'')]),
                    set_rate_limit_headers x rps 0 (reset_secs rps interval 0 wait)
                      (insert_number x (''retry-after'', retry_after_secs wait) []))))"

text \<open>
  The limiters: \<open>g_direct\<close> makes one for a quota per second, \<open>g_check\<close> asks it at a time. \<open>get_with\<close> makes a
  limiter for a key that has none.
\<close>

record 'l governor =
  g_direct :: "nat \<Rightarrow> 'l"
  g_check :: "nat \<Rightarrow> 'l \<Rightarrow> limiter_verdict \<times> 'l"

definition limiter_check ::
  "'l governor \<Rightarrow> nat \<Rightarrow> string \<Rightarrow> nat \<Rightarrow> (string \<rightharpoonup> 'l) \<Rightarrow> limiter_verdict \<times> (string \<rightharpoonup> 'l)" where
  "limiter_check g rps key now limiters =
     (let l = (case limiters key of Some l \<Rightarrow> l | None \<Rightarrow> g_direct g rps);
          (v, l') = g_check g now l
      in (v, limiters(key \<mapsto> l')))"

record arrival =
  ar_request :: request
  ar_peer :: "ip_addr option"
  ar_forwarded_for :: "string option"
  ar_real_ip :: "string option"
  ar_content_length :: "nat option"

text \<open>\<open>rate_limited_bucket\<close> gives every request a bucket (\<open>every_request_has_a_bucket\<close> below).\<close>

definition arrival_bucket :: "arrival \<Rightarrow> string" where
  "arrival_bucket a = the (rate_limited_bucket (rq_method (ar_request a)) (rq_path (ar_request a)))"

definition arrival_client :: "ext \<Rightarrow> config \<Rightarrow> arrival \<Rightarrow> string" where
  "arrival_client x c a =
     client_ip_key x (c_trusted_proxy_cidrs c) (ar_peer a) (ar_forwarded_for a) (ar_real_ip a)"

definition arrival_key :: "ext \<Rightarrow> config \<Rightarrow> arrival \<Rightarrow> string" where
  "arrival_key x c a =
     rate_limit_key x (arrival_bucket a) (c_trusted_proxy_cidrs c) (ar_peer a) (ar_forwarded_for a) (ar_real_ip a)"

text \<open>What happens to the limiters over time: a request is checked, or the cache forgets a key.\<close>

datatype limiter_event = Check nat arrival | Evict string

fun event_key :: "ext \<Rightarrow> config \<Rightarrow> limiter_event \<Rightarrow> string" where
  "event_key x c (Check now a) = arrival_key x c a"
| "event_key x c (Evict key) = key"

fun limiter_step ::
  "'l governor \<Rightarrow> ext \<Rightarrow> config \<Rightarrow> limiter_event \<Rightarrow> (string \<rightharpoonup> 'l) \<Rightarrow> limiter_verdict option \<times> (string \<rightharpoonup> 'l)" where
  "limiter_step g x c (Check now a) limiters =
     map_prod Some id (limiter_check g (effective_rps (c_rate_limit_requests_per_sec c) (arrival_bucket a))
       (arrival_key x c a) now limiters)"
| "limiter_step g x c (Evict key) limiters = (None, limiters(key := None))"

fun verdicts ::
  "'l governor \<Rightarrow> ext \<Rightarrow> config \<Rightarrow> limiter_event list \<Rightarrow> (string \<rightharpoonup> 'l) \<Rightarrow> (limiter_event \<times> limiter_verdict option) list" where
  "verdicts g x c [] limiters = []"
| "verdicts g x c (e # es) limiters =
     (case limiter_step g x c e limiters of (v, limiters') \<Rightarrow> (e, v) # verdicts g x c es limiters')"

section \<open>Body and time limits\<close>

definition body_limit :: "arrival \<Rightarrow> (response \<times> headers) io \<Rightarrow> (response \<times> headers) io" where
  "body_limit a next =
     (case ar_content_length a of
        Some n \<Rightarrow> if MAX_BODY_BYTES < n then Ret ((413, JNull), []) else next
      | None \<Rightarrow> next)"

text \<open>The run up to a deadline; \<open>lost\<close> decides whether the effect that overruns it has happened.\<close>

definition give_up :: "nat \<Rightarrow> world \<Rightarrow> world" where
  "give_up deadline w = w\<lparr>w_clock := max deadline (w_clock w), w_tick := Suc (w_tick w)\<rparr>"

primrec cut_off :: "nat \<Rightarrow> bool \<Rightarrow> 'a io \<Rightarrow> 'a option io" where
  "cut_off deadline lost (Ret a) = Ret (Some a)"
| "cut_off deadline lost (Atomic f) = Atomic (\<lambda>w.
     case map_prod (cut_off deadline lost) id (f w) of (p, w') \<Rightarrow>
       if w_clock w' < deadline then (p, w')
       else (Ret None, if lost then give_up deadline w else w'))"

definition timeout_layer :: "nat \<Rightarrow> bool \<Rightarrow> (response \<times> headers) io \<Rightarrow> (response \<times> headers) io" where
  "timeout_layer secs lost next =
     bindP get_clock (\<lambda>start.
     bindP (cut_off (start + secs * 1000000000) lost next) (\<lambda>r.
       Ret (case r of Some resp \<Rightarrow> resp | None \<Rightarrow> ((408, JNull), []))))"

text \<open>A preflight is answered by the cross-origin layer, before the rate limit.\<close>

definition cors_layer :: "arrival \<Rightarrow> (response \<times> headers) io \<Rightarrow> (response \<times> headers) io" where
  "cors_layer a next = (if rq_method (ar_request a) = ''OPTIONS'' then Ret ((200, JNull), []) else next)"

definition front ::
  "(route list \<Rightarrow> string \<Rightarrow> string \<Rightarrow> routing) \<Rightarrow> ext \<Rightarrow> config \<Rightarrow> nat \<Rightarrow> limiter_verdict \<Rightarrow> bool \<Rightarrow> arrival \<Rightarrow>
   (response \<times> headers) io" where
  "front find_route x c interval verdict lost a =
     timeout_layer (c_request_timeout_secs c) lost (cors_layer a
       (rate_limit_middleware x (c_rate_limit_requests_per_sec c)
         (rate_limited_bucket (rq_method (ar_request a)) (rq_path (ar_request a))) interval verdict
         (body_limit a (serve_request find_route x c (ar_request a)))))"

section \<open>Quotas\<close>

lemma every_request_has_a_bucket:
  "rate_limited_bucket (rq_method (ar_request a)) (rq_path (ar_request a)) = Some (arrival_bucket a)"
  by (simp add: arrival_bucket_def rate_limited_bucket_def)

lemma bucket_no_colon: "CHR '':'' \<notin> set (arrival_bucket a)"
  by (simp add: arrival_bucket_def rate_limited_bucket_def)

lemma arrival_key_eq:
  "arrival_key x c a = arrival_key x c b \<longleftrightarrow>
     arrival_bucket a = arrival_bucket b \<and> arrival_client x c a = arrival_client x c b"
proof -
  have "b1 @ CHR '':'' # c1 = b2 @ CHR '':'' # c2 \<longleftrightarrow> b1 = b2 \<and> c1 = c2"
    if "CHR '':'' \<notin> set b1" "CHR '':'' \<notin> set b2" for b1 b2 c1 c2 :: string
  proof -
    have "split_once (CHR '':'') (b1 @ CHR '':'' # c1) = Some (b1, c1)" "split_once (CHR '':'') (b2 @ CHR '':'' # c2) = Some (b2, c2)"
      using that by (simp_all add: split_once_Some)
    then show ?thesis by (metis option.inject prod.inject)
  qed
  then show ?thesis using bucket_no_colon by (simp add: arrival_key_def rate_limit_key_def arrival_client_def)
qed

lemma limiter_step_frame: "key \<noteq> event_key x c e \<Longrightarrow> snd (limiter_step g x c e limiters) key = limiters key"
  by (cases e) (auto simp: limiter_check_def Let_def split: prod.splits)

lemma limiter_step_local:
  assumes "limiters (event_key x c e) = limiters' (event_key x c e)"
  shows "fst (limiter_step g x c e limiters) = fst (limiter_step g x c e limiters') \<and>
    snd (limiter_step g x c e limiters) (event_key x c e) = snd (limiter_step g x c e limiters') (event_key x c e)"
  using assms by (cases e) (auto simp: limiter_check_def Let_def split: prod.splits)

lemma verdicts_local:
  "limiters key = limiters' key \<Longrightarrow>
   filter (\<lambda>(e, v). event_key x c e = key) (verdicts g x c es limiters) =
   verdicts g x c (filter (\<lambda>e. event_key x c e = key) es) limiters'"
proof (induction es arbitrary: limiters limiters')
  case (Cons e es)
  obtain v l where s: "limiter_step g x c e limiters = (v, l)" by fastforce
  obtain v' l' where s': "limiter_step g x c e limiters' = (v', l')" by fastforce
  show ?case
  proof (cases "event_key x c e = key")
    case True
    with limiter_step_local [of limiters x c e limiters' g] Cons.prems s s' have "v = v'" "l key = l' key" by auto
    with True s s' Cons.IH [of l l'] show ?thesis by simp
  next
    case False
    with limiter_step_frame [of key x c e g limiters] Cons.prems s have "l key = limiters' key" by auto
    with False s Cons.IH [of l limiters'] show ?thesis by simp
  qed
qed simp

text \<open>
  C21: quotas are separate: the limiter's answers to the requests of one bucket and client, over any history
  of requests and evictions, are what they would be if nothing else had ever happened, and two
  requests share a quota exactly when their bucket and their client are the same.
\<close>

theorem quota_isolation:
  "filter (\<lambda>(e, v). event_key x c e = arrival_key x c a) (verdicts g x c es limiters) =
     verdicts g x c (filter (\<lambda>e. event_key x c e = arrival_key x c a) es) limiters \<and>
   (arrival_key x c a = arrival_key x c b \<longleftrightarrow>
      arrival_bucket a = arrival_bucket b \<and> arrival_client x c a = arrival_client x c b)"
  by (simp add: verdicts_local [OF refl] arrival_key_eq)

section \<open>What the layers keep\<close>

lemma cut_off_Atomic:
  "cut_off d lost (Atomic f) = Atomic (\<lambda>w.
     if w_clock (snd (f w)) < d then (cut_off d lost (fst (f w)), snd (f w))
     else (Ret None, if lost then give_up d w else snd (f w)))"
  by (simp add: split_beta cong: if_cong)

lemma quiet_give_up: "quiet c w (give_up d w)"
  by (simp add: quietI give_up_def)

lemma solo_cut_off: "solo (quiet c) p w \<Longrightarrow> solo (quiet c) (cut_off d lost p) w"
proof (induction p arbitrary: w rule: proc_induct)
  case (Atomic f)
  then show ?case by (simp add: cut_off_Atomic quiet_give_up del: cut_off.simps)
qed simp

lemma evolves_give_up: "world_inv w \<Longrightarrow> world_evolves w (give_up d w) \<and> world_inv (give_up d w)"
  using guarded_same_db [of "give_up d w" w] by (simp add: give_up_def guarded_def)

lemma rgP_cut_off: "rg world_evolves world_inv p Q w \<Longrightarrow> rgP (cut_off d lost p) w"
proof (induction p arbitrary: w rule: proc_induct)
  case (Atomic f)
  then show ?case by (auto simp: cut_off_Atomic evolves_give_up simp del: cut_off.simps)
qed simp

lemma rgP_front: "rgP (front find_route x c interval v lost a) w"
proof -
  let ?p = "serve_request find_route x c (ar_request a)"
  have b: "rgP (body_limit a ?p) w" for w
    by (auto simp: body_limit_def rgP_serve_request split: option.split)
  have "rgP (rate_limit_middleware x base bucket i v (body_limit a ?p)) w" for base bucket i w
    by (auto simp: rate_limit_middleware_def Let_def b split: option.split limiter_verdict.split prod.split intro!: rgP_bind [OF b])
  then have "rgP (cors_layer a (rate_limit_middleware x base bucket i v (body_limit a ?p))) w" for base bucket i w
    by (simp add: cors_layer_def)
  note inner = this
  show ?thesis
    unfolding front_def timeout_layer_def
    by (rule rgP_bind [OF rgP_safe [OF safe_effects(4)]], rule rgP_bind [OF rgP_cut_off [OF inner]]) simp
qed

text \<open>
  C12: a request that presents neither the admin secret nor the token of a live key changes no table and
  sends no webhook, whatever its method, path, headers and body, whatever the limiter says and wherever
  its time runs out; the only request it can make the gateway start is the readiness probe's to the
  configured Horizon URL.
\<close>

theorem anonymous_requests_change_nothing:
  assumes "sound_router find_route" "no_credentials x c (ar_request a) (w_db w)"
    and "run (front find_route x c interval verdict lost a) w = (resp, w')"
  shows "w_db w' = w_db w \<and> w_posts w' = w_posts w \<and>
    (\<exists>n. w_gets w' = w_gets w @ replicate n (trim_end_slashes (c_horizon_url c)))"
proof -
  let ?p = "serve_request find_route x c (ar_request a)"
  have clock: "run get_clock w = (w_clock w, w)" by (simp add: get_clock_def)
  have "solo (quiet c) (body_limit a ?p) w"
    using serve_quiet [OF assms(1,2)] by (simp add: body_limit_def split: option.split)
  then have "solo (quiet c) (cors_layer a (rate_limit_middleware x base bucket i verdict (body_limit a ?p))) w" for base bucket i
    by (simp add: cors_layer_def rate_limit_middleware_def Let_def split: option.split limiter_verdict.split prod.split)
  then have "solo (quiet c) (front find_route x c interval verdict lost a) w"
    unfolding front_def timeout_layer_def by (simp add: clock solo_cut_off) (simp add: get_clock_def effect_def quietI)
  from quiet.run_solo [OF this] assms(3) show ?thesis by (simp add: quiet_def)
qed

definition anonymous0 :: request where
  "anonymous0 =
     \<lparr>rq_method = ''POST'', rq_path = ''/v1/payments'', rq_authorization = Some ''Bearer guess'', rq_admin_secret = None,
      rq_idempotency_key = None, rq_accept = None, rq_query = None, rq_body = \<lparr>hb_is_json = True, hb_bytes = []\<rparr>\<rparr>"

definition arrival0 :: arrival where
  "arrival0 =
     \<lparr>ar_request = anonymous0, ar_peer = None, ar_forwarded_for = None, ar_real_ip = None, ar_content_length = None\<rparr>"

theorem anonymous_requests_change_nothing_witness:
  "w_db (snd (run (front match_router ext0 config0 100000000 (Allowed 3) True arrival0) (world0 merchant_db0))) = merchant_db0"
proof -
  let ?p = "front match_router ext0 config0 100000000 (Allowed 3) True arrival0"
  obtain resp w' where r: "run ?p (world0 merchant_db0) = (resp, w')" by fastforce
  have "bearer_token (Some ''Bearer guess'') = Some ''guess''" by code_simp
  then have "no_credentials ext0 config0 (ar_request arrival0) (w_db (world0 merchant_db0))"
    by (simp add: no_credentials_def unknown_token_def arrival0_def anonymous0_def hash_api_key_def merchant_db0_def key0_def config0_def)
  from anonymous_requests_change_nothing [OF match_router_sound this r] r show ?thesis by simp
qed

section \<open>What a response carries\<close>

definition header_values :: "string \<Rightarrow> headers \<Rightarrow> string list" where
  "header_values name hs = map snd (filter (\<lambda>(n, v). n = name) hs)"

lemma header_values_insert:
  "header_values n (header_insert name v hs) = (if n = name then [v] else header_values n hs)"
  by (auto simp: header_values_def header_insert_def filter_empty_conv intro!: arg_cong [where f = "map snd"] filter_cong)

lemma header_values_rate_limit:
  assumes "\<And>n. x_header_value_ok x (show_nat n)"
  shows "header_values n (set_rate_limit_headers x limit remaining reset hs) =
    (if n = X_RATELIMIT_LIMIT then [show_nat limit] else if n = X_RATELIMIT_REMAINING then [show_nat remaining]
     else if n = X_RATELIMIT_RESET then [show_nat reset] else header_values n hs)"
  using assms
  by (simp add: set_rate_limit_headers_def insert_number_def header_values_insert X_RATELIMIT_LIMIT_def
      X_RATELIMIT_REMAINING_def X_RATELIMIT_RESET_def)

text \<open>A run that is not cut off is the run itself.\<close>

lemma cut_off_Some: "run (cut_off d lost p) w = (Some r, w') \<Longrightarrow> run p w = (r, w')"
proof (induction p arbitrary: w rule: proc_induct)
  case (Atomic f)
  then show ?case by (auto simp: cut_off_Atomic simp del: cut_off.simps split: if_splits)
qed simp

lemma front_result:
  assumes "run (front find_route x c interval verdict lost a) w = (resp, w')" "rq_method (ar_request a) \<noteq> ''OPTIONS''"
  shows "resp = ((408, JNull), []) \<or>
    run (rate_limit_middleware x (c_rate_limit_requests_per_sec c) (Some (arrival_bucket a)) interval verdict
      (body_limit a (serve_request find_route x c (ar_request a)))) w = (resp, w')"
  using assms
  by (auto simp: front_def timeout_layer_def cors_layer_def every_request_has_a_bucket get_clock_def effect_def
      split: prod.splits option.splits dest!: cut_off_Some)

lemma ceil_secs_mono: "m \<le> n \<Longrightarrow> ceil_secs m \<le> ceil_secs n"
  by (simp add: ceil_secs_def div_le_mono)

lemma ceil_secs_covers: "ns \<le> ceil_secs ns * 1000000000"
  unfolding ceil_secs_def by linarith

lemma retry_before_reset:
  assumes "0 < interval" "0 < burst"
  shows "retry_after_secs wait \<le> reset_secs burst interval 0 wait"
proof -
  have "0 < min (interval * burst) duration_max" using assms by (simp add: duration_max_def u64_max_def)
  then have "1 \<le> max (min (interval * burst) duration_max) wait" by linarith
  from ceil_secs_mono [OF this] ceil_secs_mono [of wait "max (min (interval * burst) duration_max) wait"]
  have "ceil_secs 1 \<le> reset_secs burst interval 0 wait" "ceil_secs wait \<le> reset_secs burst interval 0 wait"
    by (simp_all add: reset_secs_def Let_def)
  then show ?thesis by (simp add: retry_after_secs_def ceil_secs_def)
qed

text \<open>
  C22: a request the limiter admits is answered with what the routes answer and the three quota headers,
  unless its time runs out, when it is answered 408 without any; a request it refuses reaches no route and
  is answered 429 with a \<open>Retry-After\<close> of at least one second, at least the wait, at most the time to a full quota.
\<close>

theorem quota_headers:
  assumes "\<And>n. x_header_value_ok x (show_nat n)" "0 < interval" "rq_method (ar_request a) \<noteq> ''OPTIONS''"
    and "run (front find_route x c interval verdict lost a) w = ((resp, hs), w')"
  shows "case verdict of
      Allowed remaining \<Rightarrow>
        (resp, hs) = ((408, JNull), []) \<or>
        (\<exists>hs0. run (body_limit a (serve_request find_route x c (ar_request a))) w = ((resp, hs0), w')) \<and>
        header_values X_RATELIMIT_LIMIT hs =
          [show_nat (effective_rps (c_rate_limit_requests_per_sec c) (arrival_bucket a))] \<and>
        header_values X_RATELIMIT_REMAINING hs = [show_nat remaining] \<and>
        (\<exists>reset. header_values X_RATELIMIT_RESET hs = [show_nat reset])
    | Not_Until wait \<Rightarrow>
        fst resp = 429 \<and> w' = w \<and> header_values X_RATELIMIT_REMAINING hs = [show_nat 0] \<and>
        (\<exists>retry reset. header_values ''retry-after'' hs = [show_nat retry] \<and>
           header_values X_RATELIMIT_RESET hs = [show_nat reset] \<and>
           1 \<le> retry \<and> retry \<le> reset \<and> wait \<le> retry * 1000000000)"
proof (cases verdict)
  case (Allowed remaining)
  have "X_RATELIMIT_LIMIT \<noteq> X_RATELIMIT_REMAINING" "X_RATELIMIT_LIMIT \<noteq> X_RATELIMIT_RESET"
    "X_RATELIMIT_REMAINING \<noteq> X_RATELIMIT_RESET"
    by (simp_all add: X_RATELIMIT_LIMIT_def X_RATELIMIT_REMAINING_def X_RATELIMIT_RESET_def)
  with front_result [OF assms(4,3)] Allowed show ?thesis
    by (auto simp: rate_limit_middleware_def Let_def header_values_rate_limit [OF assms(1)] split: prod.splits)
next
  case (Not_Until wait)
  let ?rps = "effective_rps (c_rate_limit_requests_per_sec c) (arrival_bucket a)"
  let ?hs = "set_rate_limit_headers x ?rps 0 (reset_secs ?rps interval 0 wait)
    (insert_number x (''retry-after'', retry_after_secs wait) [])"
  have "fst resp = 429 \<and> w' = w \<and> hs = ?hs"
    using assms(3,4) Not_Until
    by (auto simp: front_def timeout_layer_def cors_layer_def every_request_has_a_bucket rate_limit_middleware_def
        get_clock_def effect_def Let_def)
  moreover have "retry_after_secs wait \<le> reset_secs ?rps interval 0 wait"
    by (rule retry_before_reset [OF assms(2)]) (simp add: effective_rps_def)
  moreover have "1 \<le> retry_after_secs wait" "wait \<le> retry_after_secs wait * 1000000000"
    using ceil_secs_covers [of wait] by (auto simp: retry_after_secs_def max_def)
  ultimately show ?thesis
    using Not_Until
    by (auto simp: header_values_rate_limit [OF assms(1)] insert_number_def assms(1) header_values_insert
        X_RATELIMIT_LIMIT_def X_RATELIMIT_REMAINING_def X_RATELIMIT_RESET_def)
qed

theorem quota_headers_witness:
  "\<exists>hs. snd (fst (run (front match_router ext0 config0 100000000 (Not_Until 1500000000) True arrival0) (world0 db0))) = hs \<and>
     (\<exists>retry reset. header_values ''retry-after'' hs = [show_nat retry] \<and>
        header_values X_RATELIMIT_RESET hs = [show_nat reset] \<and> 2 \<le> retry \<and> retry \<le> reset)"
proof -
  obtain resp hs w' where
    r: "run (front match_router ext0 config0 100000000 (Not_Until 1500000000) True arrival0) (world0 db0) = ((resp, hs), w')"
    by (metis prod.collapse)
  have ok: "x_header_value_ok ext0 (show_nat n)" for n by (simp add: ext0_def)
  have m: "rq_method (ar_request arrival0) \<noteq> ''OPTIONS''" by (simp add: arrival0_def anonymous0_def)
  obtain retry reset where "header_values ''retry-after'' hs = [show_nat retry]"
    "header_values X_RATELIMIT_RESET hs = [show_nat reset]" "retry \<le> reset" "1500000000 \<le> retry * 1000000000"
    using quota_headers [OF ok _ m r] by auto
  with r show ?thesis by fastforce
qed

section \<open>Requests and tasks together\<close>

text \<open>
  A request in flight with what the world decides about it: the limiter's answer, and whether an effect that
  overruns the time limit happens. \<open>serving\<close> is the state after requests and background tasks have been
  interleaved effect by effect.
\<close>

type_synonym in_flight = "arrival \<times> limiter_verdict \<times> bool"

definition serving ::
  "(route list \<Rightarrow> string \<Rightarrow> string \<Rightarrow> routing) \<Rightarrow> ext \<Rightarrow> config \<Rightarrow> nat \<Rightarrow> in_flight list \<Rightarrow> task list \<Rightarrow> nat list \<Rightarrow> world \<Rightarrow> world" where
  "serving find_route x c interval rqs ts sched w =
     snd (interleave sched
       (map (\<lambda>(a, v, lost). discard (front find_route x c interval v lost a)) rqs @ map (task_proc x c) ts) w)"

lemma serving_safe:
  assumes "world_inv w"
  shows "world_evolves w (serving find_route x c interval rqs ts sched w) \<and>
    world_inv (serving find_route x c interval rqs ts sched w)"
proof -
  let ?ps = "map (\<lambda>(a, v, lost). discard (front find_route x c interval v lost a)) rqs @ map (task_proc x c) ts"
  have "\<exists>Q. rg world_evolves world_inv p Q w" if "p \<in> set ?ps" for p
    using that rgP_task rgP_discard [OF rgP_front] by fastforce
  then show ?thesis unfolding serving_def using gateway.interleave_rg [of ?ps w sched] assms by blast
qed

end
