(* ===== verification/Boot.thy ===== *)
theory Boot
  imports Upgrade Edge
begin

text \<open>
  Process start and shutdown (\<open>src/main.rs\<close>): read the configuration, open the pool, bring the tables up
  to date, build the HTTP clients, report trustlines, declare the required tasks, spawn the supervised
  ones, bind the listener, and at the end join the tasks. What SQLite, the HTTP library and
  the operating system answer is the record \<open>host\<close>; each failure ends the process with its own error. From a
  consistent database of an older version, every interleaving of requests and tasks keeps the invariant.
\<close>

section \<open>Pool, clients and address\<close>

datatype journal_mode = Wal | Other_Journal

datatype synchronous = Normal | Other_Synchronous

record connect_options =
  co_url :: string
  co_create_if_missing :: bool
  co_journal_mode :: journal_mode
  co_synchronous :: synchronous
  co_busy_timeout_ms :: nat
  co_pragmas :: "(string \<times> string) list"

text \<open>
  \<open>h_connect_url\<close> says whether a database URL parses, \<open>h_connect\<close> opens it with a number of connections and
  gives the tables found there, \<open>h_migrate_fault\<close> after how many steps (and, in the loop over the legacy
  transactions, how many rows) a statement of the migration fails, if one does, \<open>h_backfill_fault\<close> after how many
  assets the issuer backfill fails, if it does, \<open>h_client\<close> whether a client with a timeout in seconds and a user agent
  can be built and \<open>h_bind\<close> whether an address can be bound.
\<close>

record host =
  h_connect_url :: "string \<Rightarrow> bool"
  h_connect :: "connect_options \<Rightarrow> nat \<Rightarrow> old_db option"
  h_migrate_fault :: "(nat \<times> nat) option"
  h_backfill_fault :: "nat option"
  h_client :: "nat \<Rightarrow> string \<Rightarrow> bool"
  h_bind :: "string \<Rightarrow> bool"

text \<open>
  A failed migration or backfill carries the tables it leaves: every statement before the one that
  failed has taken effect.
\<close>

datatype boot_error =
    Bad_Config config_error
  | Bad_Database_Url string
  | No_Connection
  | Migration_Failed old_db
  | Backfill_Failed "db option"
  | No_Client nat
  | No_Listener string

definition connect_options_of :: "config \<Rightarrow> connect_options" where
  "connect_options_of c =
     \<lparr>co_url = c_database_url c, co_create_if_missing = True, co_journal_mode = Wal, co_synchronous = Normal,
      co_busy_timeout_ms = c_db_busy_timeout_ms c,
      co_pragmas = [(''wal_autocheckpoint'', ''1000''), (''journal_size_limit'', ''67108864'')]\<rparr>"

definition open_pool :: "host \<Rightarrow> config \<Rightarrow> boot_error + old_db" where
  "open_pool h c =
     (if \<not> h_connect_url h (c_database_url c) then Inl (Bad_Database_Url (c_database_url c))
      else case h_connect h (connect_options_of c) (c_db_pool_max_connections c) of
        None \<Rightarrow> Inl No_Connection
      | Some s \<Rightarrow> Inr s)"

definition interrupted :: "(string \<Rightarrow> string) \<Rightarrow> string \<Rightarrow> nat \<Rightarrow> nat \<Rightarrow> old_db \<Rightarrow> old_db" where
  "interrupted fresh ts k j s =
     (let t = fold (\<lambda>f. f) (take k (migrate_steps fresh ts)) s in
      if k = 6 then t\<lparr>s_processed := fold (backfill_tx ts) (take j (s_payments t)) (s_processed t)\<rparr> else t)"

definition try_migrate :: "host \<Rightarrow> (string \<Rightarrow> string) \<Rightarrow> string \<Rightarrow> old_db \<Rightarrow> boot_error + old_db" where
  "try_migrate h fresh ts s =
     (case h_migrate_fault h of
        None \<Rightarrow> Inr (migrate fresh ts s)
      | Some (k, j) \<Rightarrow> Inl (Migration_Failed (interrupted fresh ts k j s)))"

definition try_backfill :: "host \<Rightarrow> config \<Rightarrow> db option \<Rightarrow> boot_error + db option" where
  "try_backfill h c d =
     (case h_backfill_fault h of
        None \<Rightarrow> Inr (map_option (backfill_asset_issuers (c_accepted_assets c)) d)
      | Some k \<Rightarrow> Inl (Backfill_Failed (map_option (backfill_asset_issuers (take k (c_accepted_assets c))) d)))"

definition USER_AGENT :: string where
  "USER_AGENT = ''StellarGate/'' @ CARGO_PKG_VERSION"

definition HTTP_TIMEOUT :: nat where
  "HTTP_TIMEOUT = 30"

definition http_client :: "host \<Rightarrow> nat \<Rightarrow> boot_error + unit" where
  "http_client h timeout = (if h_client h timeout USER_AGENT then Inr () else Inl (No_Client timeout))"

definition listen_address :: "config \<Rightarrow> string" where
  "listen_address c = ''0.0.0.0:'' @ show_nat (c_port c)"

definition bind_listener :: "host \<Rightarrow> config \<Rightarrow> boot_error + unit" where
  "bind_listener h c =
     (if h_bind h (listen_address c) then Inr () else Inl (No_Listener (listen_address c)))"

section \<open>Start\<close>

definition app_state :: "db \<Rightarrow> nat \<Rightarrow> env \<Rightarrow> world" where
  "app_state d clock env =
     \<lparr>w_db = d, w_clock = clock, w_tick = 0, w_env = env, w_webhook_metrics = webhook_metrics_new,
      w_auth_metrics = auth_metrics_new, w_horizon_metrics = horizon_metrics_new,
      w_task_health = task_health_new, w_posts = [], w_gets = []\<rparr>"

text \<open>The outcome of the trustline check is only logged.\<close>

definition report_trustlines :: "ext \<Rightarrow> config \<Rightarrow> unit io" where
  "report_trustlines x c = discard (check_trustlines x c)"

definition required_tasks :: "config \<Rightarrow> string list" where
  "required_tasks c =
     (if gateway_configured c
      then [''poller''] @ (if c_listener_mode c = Stream then [''stream''] else []) else []) @
     [''sweeper'', ''retention'', ''redrive'']"

definition spawned_tasks :: "config \<Rightarrow> string list" where
  "spawned_tasks c =
     (if c_listener_mode c = Stream then [''stream''] else []) @ [''poller'', ''sweeper'', ''retention'', ''redrive'']"

definition declare_required :: "config \<Rightarrow> task_health \<Rightarrow> task_health" where
  "declare_required c h = fold require (required_tasks c) h"

text \<open>
  The start up to the first request. The second component is None when a row of the upgraded tables cannot be
  read, which \<open>boot_serves_safely\<close> excludes; the code would meet such a row later.
\<close>

definition boot ::
  "ext \<Rightarrow> host \<Rightarrow> env_vars \<Rightarrow> (string \<Rightarrow> string) \<Rightarrow> string \<Rightarrow> nat \<Rightarrow> env \<Rightarrow> boot_error + (config \<times> world option)" where
  "boot x h vars fresh ts clock env =
     bindE (map_sum Bad_Config id (from_env x vars)) (\<lambda>c.
     bindE (open_pool h c) (\<lambda>s.
     bindE (try_migrate h fresh ts s) (\<lambda>m.
     bindE (try_backfill h c (read_db m)) (\<lambda>tables.
     bindE (http_client h HTTP_TIMEOUT) (\<lambda>_.
     bindE (http_client h (c_webhook_timeout_secs c)) (\<lambda>_.
     let booted = map_option (\<lambda>d.
           let w = app_state d clock env;
               w' = (if gateway_configured c then snd (run (report_trustlines x c) w) else w)
           in w'\<lparr>w_task_health := declare_required c (w_task_health w')\<rparr>) tables in
     bindE (bind_listener h c) (\<lambda>_. Inr (c, booted))))))))"

section \<open>Shutdown\<close>

text \<open>Joining one supervisor; \<open>panicked\<close> are those that failed themselves.\<close>

definition join_task :: "string set \<Rightarrow> string \<Rightarrow> task_health \<Rightarrow> task_health" where
  "join_task panicked name h = (if name \<in> panicked then task_failed name h else h)"

definition drained_tasks :: "config \<Rightarrow> string list" where
  "drained_tasks c =
     [''poller'', ''sweeper'', ''redrive'', ''retention''] @ (if c_listener_mode c = Stream then [''stream''] else [])"

text \<open>The drain is cut off after the grace: only the first \<open>n\<close> joins have returned by then.\<close>

definition drain_on_shutdown :: "config \<Rightarrow> string set \<Rightarrow> nat \<Rightarrow> task_health \<Rightarrow> task_health" where
  "drain_on_shutdown c panicked n h = fold (join_task panicked) (take n (drained_tasks c)) h"

section \<open>Properties\<close>

lemma required_declared: "th_required (fold require ns h) = th_required h @ ns \<and>
    th_running (fold require ns h) = th_running h \<and> th_disabled (fold require ns h) = th_disabled h \<and>
    th_consecutive (fold require ns h) = th_consecutive h"
  by (induction ns arbitrary: h) (simp_all add: require_def)

lemma started_state: "th_required (fold task_started ns h) = th_required h \<and>
    th_disabled (fold task_started ns h) = th_disabled h \<and> th_consecutive (fold task_started ns h) = th_consecutive h \<and>
    (map_of (th_running (fold task_started ns h)) n = Some True \<longleftrightarrow> n \<in> set ns \<or> map_of (th_running h) n = Some True)"
  by (induction ns arbitrary: h) (auto simp: task_started_def update_conv')

lemma join_counts:
  "distinct ns \<Longrightarrow>
   consecutive_failures (fold (join_task panicked) ns h) n =
     consecutive_failures h n + of_bool (n \<in> panicked \<and> n \<in> set ns) \<and>
   th_failed (fold (join_task panicked) ns h) = th_failed h + of_nat (length (filter (\<lambda>n. n \<in> panicked) ns))"
  by (induction ns arbitrary: h) (auto simp: join_task_def task_failed_def consecutive_failures_def get_or_update)

text \<open>
  C37: the liveness probe after start answers 200 exactly when every required task has started, and the
  required tasks are among the spawned ones. At shutdown a supervisor that failed is counted as a failure
  once if its join returns within the grace, and not at all if the drain is cut off before; the joins
  cover every spawned task.
\<close>

theorem boot_liveness:
  "(fst (health_response (fold task_started ns (declare_required c task_health_new))) = 200 \<longleftrightarrow>
      set (required_tasks c) \<subseteq> set ns) \<and>
   set (required_tasks c) \<subseteq> set (spawned_tasks c) \<and>
   consecutive_failures (drain_on_shutdown c panicked joined h) name =
     consecutive_failures h name + of_bool (name \<in> panicked \<and> name \<in> set (take joined (drained_tasks c))) \<and>
   th_failed (drain_on_shutdown c panicked joined h) =
     th_failed h + of_nat (length (filter (\<lambda>n. n \<in> panicked) (take joined (drained_tasks c)))) \<and>
   set (take (length (spawned_tasks c)) (drained_tasks c)) = set (spawned_tasks c)"
proof -
  let ?h = "fold task_started ns (declare_required c task_health_new)"
  have d: "dead_required_tasks ?h = filter (\<lambda>n. n \<notin> set ns) (required_tasks c)"
    and l: "crash_looping_required_tasks ?h = []"
    using started_state [of ns "declare_required c task_health_new"] required_declared [of "required_tasks c" task_health_new]
    by (simp_all add: dead_required_tasks_def crash_looping_required_tasks_def declare_required_def task_health_new_def
        get_or_def CRASH_LOOP_THRESHOLD_def)
  have "fst (health_response ?h) = 200 \<longleftrightarrow> set (required_tasks c) \<subseteq> set ns"
    by (auto simp: health_response_def d l filter_empty_conv)
  moreover have "set (required_tasks c) \<subseteq> set (spawned_tasks c)"
    by (auto simp: required_tasks_def spawned_tasks_def)
  moreover have "set (take (length (spawned_tasks c)) (drained_tasks c)) = set (spawned_tasks c)"
    by (auto simp: spawned_tasks_def drained_tasks_def)
  moreover have "distinct (take joined (drained_tasks c))"
    by (rule distinct_take) (simp add: drained_tasks_def)
  ultimately show ?thesis
    using join_counts [of "take joined (drained_tasks c)" panicked h name] by (simp add: drain_on_shutdown_def)
qed

lemma safeP_trustlines: "safeP (report_trustlines x c)"
  unfolding report_trustlines_def check_trustlines_def get_json_def by (intro proc_safe)

lemma app_state_inv: "db_inv (int (clock div 1000000000)) d \<Longrightarrow> world_inv (app_state d clock env)"
  by (simp add: world_inv_def app_state_def now_secs_def)

lemma inv_task_health: "world_inv w \<Longrightarrow> world_inv (w\<lparr>w_task_health := h\<rparr>)"
  by (simp add: world_inv_def now_secs_def)

lemma map_sum_Inr: "map_sum f id v = Inr y \<longleftrightarrow> v = Inr y"
  by (cases v) auto

lemma boot_Inr:
  "boot x h vars fresh ts clock env = Inr (c, booted) \<longleftrightarrow>
     (\<exists>s. from_env x vars = Inr c \<and> open_pool h c = Inr s \<and>
        h_migrate_fault h = None \<and> h_backfill_fault h = None \<and> h_client h HTTP_TIMEOUT USER_AGENT \<and>
        h_client h (c_webhook_timeout_secs c) USER_AGENT \<and> h_bind h (listen_address c) \<and>
        booted = map_option (\<lambda>d.
           let w = app_state d clock env;
               w' = (if gateway_configured c then snd (run (report_trustlines x c) w) else w)
           in w'\<lparr>w_task_health := declare_required c (w_task_health w')\<rparr>) (start_up fresh ts c s))"
  by (auto simp: boot_def bindE_def try_migrate_def try_backfill_def start_up_def http_client_def bind_listener_def
      Let_def map_sum_Inr split: sum.splits if_splits option.splits)

text \<open>
  C11: a process that boots from the tables of an older version, consistent, with canonical amounts and every timestamp in the
  canonical layout or that of \<open>datetime('now')\<close>, reads all of them, and from then on every interleaving of
  requests and background tasks, whatever routes the requests take, whatever the limiter says and wherever
  the time limit cuts them off, keeps the invariant of the tables and only changes them as the gateway may.
\<close>

theorem boot_serves_safely:
  assumes "boot x h vars fresh ts clock env = Inr (c, booted)" "open_pool h c = Inr s"
    and "old_ok (fresh, ts) s" "old_inv (int (clock div 1000000000)) s"
  shows "\<exists>w. booted = Some w \<and> world_inv w \<and>
    world_inv (serving find_route x c interval rqs tasks sched w) \<and>
    world_evolves w (serving find_route x c interval rqs tasks sched w)"
proof -
  obtain d where d: "start_up fresh ts c s = Some d" "db_inv (int (clock div 1000000000)) d"
    using start_up_establishes_invariant [OF assms(3,4)] by blast
  define w1 where "w1 = (if gateway_configured c then snd (run (report_trustlines x c) (app_state d clock env))
    else app_state d clock env)"
  define w where "w = w1\<lparr>w_task_health := declare_required c (w_task_health w1)\<rparr>"
  have "world_inv w1"
    using app_state_inv [OF d(2)] gateway.guarded.run_obeys [OF safeP_trustlines [of x c], of "app_state d clock env"]
    by (simp add: w1_def guarded_def)
  then have i: "world_inv w" unfolding w_def by (rule inv_task_health)
  have "booted = Some w"
    using assms(1,2) d(1) by (auto simp: boot_Inr w_def w1_def Let_def)
  with i serving_safe [OF i] show ?thesis by blast
qed

definition host0 :: host where
  "host0 = \<lparr>h_connect_url = (\<lambda>url. True), h_connect = (\<lambda>opts n. Some legacy_db),
     h_migrate_fault = None, h_backfill_fault = None, h_client = (\<lambda>secs agent. True),
     h_bind = (\<lambda>addr. True)\<rparr>"

theorem boot_serves_safely_witness:
  "\<exists>c w. boot ext0 host0 vars0 (\<lambda>i. i) [] 0 env0 = Inr (c, Some w) \<and>
     world_inv (serving match_router ext0 c 100000000 [(arrival0, Allowed 3, True)] [T_Sweep] [0, 1, 0, 1] w)"
proof -
  obtain c where c: "from_env ext0 vars0 = Inr c" using vars0_boots by blast
  then have p: "open_pool host0 c = Inr legacy_db" by (simp add: open_pool_def host0_def)
  with c obtain b where b: "boot ext0 host0 vars0 (\<lambda>i. i) [] 0 env0 = Inr (c, b)" by (auto simp: boot_Inr host0_def)
  show ?thesis
    using boot_serves_safely [OF b p legacy_db_ok, of match_router 100000000 "[(arrival0, Allowed 3, True)]" "[T_Sweep]" "[0, 1, 0, 1]"]
      legacy_db_inv b by auto
qed

end
