(* ===== verification/Spec2Isabelle.thy ===== *)
theory Spec2Isabelle
  imports Operations Boot
begin

text \<open>
  StellarGate, a payment gateway for the Stellar network: merchants create payment intents over HTTP,
  customers pay them on the ledger, the gateway finds the payments on Horizon, settles the intents and
  notifies the merchants by signed webhooks. This library models the Rust sources under \<open>src/src\<close> and
  proves what makes them correct.

  \<^bold>\<open>Execution model.\<close> The program is asynchronous: many tasks share one SQLite database, a clock, metrics
  and the network. Theory \<open>Proc\<close> gives resumptions \<open>('w, 'a) proc\<close>: a program is a tree of atomic effects on
  the world. \<open>run\<close> executes one program alone, \<open>interleave\<close> a list of programs under a schedule that picks
  the next task before every effect. Every SQL statement is one atomic effect (SQLite serialises
  writers), every network call, random draw, sleep and clock reading is another. The world (theory
  \<open>World\<close>, \<open>AppState\<close> of \<open>lib.rs\<close>) holds the tables, the clock in nanoseconds, the metrics, the task health,
  a log of the webhook requests sent (each redirect the client follows is an entry of its own) and of the
  GETs started, and an environment that decides, per effect, how long it takes, whether a statement
  fails, what DNS, Horizon and webhook targets answer, and what random bytes come out. A theorem about
  \<open>run\<close> or \<open>after\<close> with a free world therefore covers every failure and every timing.

  \<^bold>\<open>Data.\<close> Strings are their UTF-8 bytes (lists of \<open>char\<close>); \<open>i64\<close> values are \<open>int\<close> with the wrap or the check
  written out; counters are words; durations are nanoseconds in \<open>nat\<close>; tables are row lists in insertion
  order with their constraints checked by the inserting statements; SQLite's date functions are
  concrete (theory \<open>Timestamps\<close>).

  \<^bold>\<open>Theories and sources.\<close>
  \<^item> \<open>Prelude\<close>: bytes, trimming, splitting, decimal printing and parsing, saturation and wrapping.
  \<^item> \<open>Money\<close> (\<open>money.rs\<close>), \<open>Strkey\<close> (\<open>strkey.rs\<close>), \<open>Ip\<close> and \<open>Ssrf\<close> (\<open>ssrf.rs\<close>), \<open>Config\<close> (\<open>config.rs\<close>), \<open>Metrics\<close>
    (\<open>metrics.rs\<close>), \<open>Task_Health\<close> (\<open>lib.rs\<close>): one definition per function, properties at the end of each.
  \<^item> \<open>External\<close>: the record \<open>ext\<close> of third-party functions (URL and CIDR parsing, Unicode upper-casing, hashing,
    HMAC, JSON, hex), an argument of every definition that uses one; \<open>hex_ok\<close> states the only law relied on.
  \<^item> \<open>Db\<close> and \<open>Db_Inv\<close> (\<open>db.rs\<close>): the queries as statements; the invariant \<open>db_inv\<close> and the guarantee \<open>evolves\<close>,
    which every statement keeps.
  \<^item> \<open>Horizon\<close> (\<open>horizon.rs\<close>: verify, reconcile, settle, paging, backoff), \<open>Sse\<close> (\<open>horizon.rs\<close>: the event stream),
    \<open>Webhook\<close> (\<open>webhook.rs\<close>), \<open>Workers\<close> (\<open>expiry.rs\<close>, \<open>retention.rs\<close>), \<open>Supervise\<close> (\<open>supervise.rs\<close> and the worker
    loops).
  \<^item> \<open>Api_Payments\<close> (\<open>api/payments.rs\<close>), \<open>Api\<close> (\<open>api/mod.rs\<close>): the handlers, middleware and probes; \<open>Api_Inv\<close>: the
    type \<open>task\<close> of everything the gateway can run and \<open>after\<close>, the world after any interleaving of tasks.
  \<^item> \<open>Exposition\<close> (\<open>render\<close> of \<open>metrics.rs\<close>): the metrics text and a scraper that reads it back.
  \<^item> \<open>Migrate\<close> (\<open>migrate\<close> and \<open>backfill_asset_issuers\<close> of \<open>db.rs\<close>): the statements that change rows or columns, as a list
    of steps on the tables of an older version; \<open>Upgrade\<close>: what is read after start-up satisfies \<open>db_inv\<close>.
  \<^item> \<open>Routes\<close> (\<open>api/mod.rs\<close>): the route table with its gates, the remaining handlers and \<open>serve_request\<close>.
  \<^item> \<open>Edge\<close> (\<open>api/mod.rs\<close>): the layers around the routes in the order of \<open>router\<close> (time limit, cross-origin, rate limit,
    body limit), composed in \<open>front\<close>, and the map of limiters. \<open>cut_off\<close> drops a request at its deadline, before or
    after the effect that overruns it; \<open>serving\<close> interleaves such requests with background tasks.
  \<^item> \<open>Boot\<close> (\<open>main.rs\<close>): from the environment, the pool and the old tables to the serving process, with every
    error that ends the start (a failed migration or backfill leaves the tables between two statements), and
    its shutdown with the time it is given.
  \<^item> \<open>Examples\<close>: concrete configuration, rows and worlds on which hypotheses are shown to hold.
  \<^item> \<open>Settlement\<close>, \<open>Lifecycle\<close>, \<open>Tenancy\<close>, \<open>Creation\<close>, \<open>Operations\<close>: the properties that span components.

  \<^bold>\<open>Interfaces.\<close> The locales are contracts shared by many operations: \<open>amount_codec\<close> in \<open>Money\<close> (printing and parsing,
  interpreted by amounts), \<open>step_guarantee\<close> in \<open>Proc\<close> (a reflexive and transitive relation on worlds
  that single effects obey is obeyed by every run and every interleaving; interpreted by the table
  guarantee, by what may be sent, by retention, by the books, by unchanged tables, by an unchanged environment
  and by quiet requests),
  the rely-guarantee extension used for reconciliation, whose statements depend on what earlier ones
  read, and \<open>restartable\<close> in \<open>Migrate\<close> (steps that do nothing once their condition holds, interpreted by the
  migration).

  \<^bold>\<open>What is shown.\<close>
  \<^item> Settlement: a reported settlement is one step of an abstract ledger; a payment is not missed while the
    database answers; a transaction is credited once; verify accepts exactly the payments of an intent.
  \<^item> Every interleaving: the table invariant holds, completed intents are paid, closed intents are final,
    the ledger only grows, expiry is never early, revoked keys stay dead, every webhook that is
    started is signed and goes to a permitted address, and what else is sent follows at most ten redirects
    from one, to addresses nothing checks.
  \<^item> Tenancy and creation: who may read what, following the cursors of the listing handler is complete, requeueing stays within the merchant,
    creation stores what was asked, idempotent replay and when it is refused, a revocation leaves a key.
  \<^item> Operations: by how much redrive can overlap inline attempts, chunking of streams, retention, supervision and
    liveness, the client key of the rate limiter, bounds of delays.
  \<^item> Upgrades: from rows in any of the three documented timestamp layouts a migration keeps what every row
    denotes and repairs two of the layouts, adds exactly the recorded transactions to the ledger, can be
    interrupted and resumed, and carries exactly the keys described; a process booted from consistent old
    tables in the two repairable layouts serves any interleaving of requests and tasks within the
    invariant.
  \<^item> The HTTP surface: a request without credentials changes no table and sends nothing but the readiness GET to
    Horizon, wherever its time runs out; quotas of
    different clients and buckets are separate; which quota headers a response carries and that
    \<open>Retry-After\<close> is no shorter than the wait.
  \<^item> Components: amounts, timestamps, addresses, checksums, configuration, histogram, metrics text.

  \<^bold>\<open>Bounds and fuel.\<close> No definition runs out of fuel: loops of the source that are bounded (retry attempts, pages
  per cycle, memo retries, the wait for a concurrent creator) recurse on their own bound; \<open>drain\<close> and
  \<open>split_events\<close> have termination proofs; the drain at shutdown takes the number of joins that return in time; the endless worker loops take the number of turns before
  shutdown as an argument, so every finite run is covered. Rounding of \<open>as_secs_f64().ceil()\<close> is exact below
  about 2^22 seconds.

  \<^bold>\<open>Parameters.\<close> The limiter of one key (\<open>governor\<close>), when the cache forgets a key (\<open>moka\<close>), path matching (axum, with
  \<open>sound_router\<close> as the law relied on), the functions in \<open>ext\<close> and the answers of the host in \<open>Boot\<close>.

  \<^bold>\<open>Not modelled.\<close> Log output and the signal handler, request ids and tracing, which change neither a table nor the
  body of a response; the headers tower-http derives from the cross-origin policy; human-readable
  error messages beside their codes and the reason text of the readiness probe; the static dashboard.
  Statements of \<open>migrate\<close> that only create tables or indexes change no row. DNS lookups and redirects of GETs
  are not logged. \<open>redrive_once\<close> runs its deliveries one after another, as with one permit of the semaphore;
  an interleaving may contain any number of passes, so deliveries overlap between passes but not within one.
\<close>

end
